(* ===== verification/Prelude.thy ===== *)
theory Prelude
  imports Main "HOL-Library.Signed_Division"
begin

text \<open>
  Shared vocabulary of the development.
  \<^item> \<open>'a res\<close>: the outcome of a C++ call that may run into undefined behaviour; \<open>Inl\<close> names the
    first undefined operation reached, \<open>Inr\<close> carries the result.
  \<^item> \<open>('k, 'v) umap\<close>: a \<^verbatim>\<open>std::tr1::unordered_map\<close> with a user supplied key comparison, as an
    association list. \<open>operator[]\<close> is \<open>um_index\<close>, which inserts a default value for an absent
    key; that side effect is visible in the program and is kept.
  \<^item> the locale \<open>map_key\<close>: what an unordered map asks of its comparison and hash function, and
    the table laws that follow. It is interpreted here for \<^verbatim>\<open>int\<close> keys and, in the theory of
    the socket addresses, for the comparison and hasher written in \<^verbatim>\<open>Worker.h\<close>.
  \<^item> decimal printing, as \<^verbatim>\<open>ostringstream\<close> prints an \<^verbatim>\<open>int\<close>.
\<close>

section \<open>Outcomes\<close>

datatype ub =
    NullDeref        \<comment> \<open>a null \<^verbatim>\<open>shared_ptr\<close> is dereferenced\<close>
  | EndDeref         \<comment> \<open>the past-the-end iterator of a list is dereferenced\<close>
  | BufferOverflow   \<comment> \<open>\<^verbatim>\<open>strcpy\<close> past the end of a fixed array\<close>
  | OutOfBounds      \<comment> \<open>a pointer is moved and read outside its array\<close>
  | SignedOverflow   \<comment> \<open>signed arithmetic leaves the range of \<^verbatim>\<open>int\<close>\<close>
  | DivByZero
  | FdSetRange       \<comment> \<open>\<^verbatim>\<open>FD_SET\<close> of a descriptor outside the \<^verbatim>\<open>fd_set\<close>\<close>
  | UninitRead       \<comment> \<open>a member or a variable that no code has written yet is read\<close>
  | NoThread         \<comment> \<open>\<^verbatim>\<open>join\<close> through a thread pointer that was never set\<close>
  | OutOfRange       \<comment> \<open>\<^verbatim>\<open>std::out_of_range\<close> is thrown and nothing catches it\<close>
  | NotRepresentable \<comment> \<open>\<^verbatim>\<open>atoi\<close> of a number that is not an \<^verbatim>\<open>int\<close>\<close>
  | BadPointer       \<comment> \<open>memory is used that is not, or no longer, allocated\<close>
  | AssertFailed     \<comment> \<open>\<^verbatim>\<open>assert\<close> aborts the program\<close>
  | OutOfFuel        \<comment> \<open>a loop did not end in the number of rounds it was given\<close>
  | ExitFailure      \<comment> \<open>\<^verbatim>\<open>exit (EXIT_FAILURE)\<close> ends the program\<close>
  | MissingReturn    \<comment> \<open>control flows off the end of a function that has a result\<close>

type_synonym 'a res = "ub + 'a"

fun bindE :: "'a res \<Rightarrow> ('a \<Rightarrow> 'b res) \<Rightarrow> 'b res" where
  "bindE (Inl e) f = Inl e"
| "bindE (Inr x) f = f x"

definition ensures :: "'a res \<Rightarrow> ('a \<Rightarrow> bool) \<Rightarrow> bool" where
  "ensures m Q \<longleftrightarrow> (case m of Inl _ \<Rightarrow> False | Inr x \<Rightarrow> Q x)"

named_theorems res_simps
named_theorems res_splits

lemma ensures_simps [simp, res_simps]:
  "ensures (Inr x) Q = Q x"
  "ensures (Inl e) Q = False"
  by (simp_all add: ensures_def)

lemma ensures_bindE [simp, res_simps]:
  "ensures (bindE m f) Q = ensures m (\<lambda>x. ensures (f x) Q)"
  by (cases m) (simp_all add: ensures_def)

lemma ensures_mono: "ensures m Q \<Longrightarrow> (\<And>x. m = Inr x \<Longrightarrow> Q x \<Longrightarrow> R x) \<Longrightarrow> ensures m R"
  by (cases m) (auto simp: ensures_def)

lemma ensures_Inr: "ensures m Q \<longleftrightarrow> (\<exists>x. m = Inr x \<and> Q x)"
  by (cases m) (auto simp: ensures_def)

lemma ensures_Inr2: "ensures m (\<lambda>(a, b). Q a b) \<longleftrightarrow> (\<exists>a b. m = Inr (a, b) \<and> Q a b)"
  by (cases m) auto

lemma ensures_Inr3: "ensures m (\<lambda>(a, b, c). Q a b c) \<longleftrightarrow> (\<exists>a b c. m = Inr (a, b, c) \<and> Q a b c)"
  by (cases m) auto

lemma bindE_Inr_iff [res_splits]: "bindE m f = Inr y \<longleftrightarrow> (\<exists>x. m = Inr x \<and> f x = Inr y)"
  by (cases m) auto

lemma bindE_Inl_iff:
  "bindE m f = Inl e \<longleftrightarrow> m = Inl e \<or> (\<exists>x. m = Inr x \<and> f x = Inl e)"
  by (cases m) auto

text \<open>The same with a set of undefined operations that are not excluded.\<close>

definition within :: "ub set \<Rightarrow> 'a res \<Rightarrow> ('a \<Rightarrow> bool) \<Rightarrow> bool" where
  "within errs m Q \<longleftrightarrow> (case m of Inl e \<Rightarrow> e \<in> errs | Inr x \<Rightarrow> Q x)"

lemma within_simps [simp, res_simps]:
  "within errs (Inr x) Q = Q x"
  "within errs (Inl e) Q = (e \<in> errs)"
  by (simp_all add: within_def)

lemma within_bindE [simp, res_simps]:
  "within errs (bindE m f) Q = within errs m (\<lambda>x. within errs (f x) Q)"
  by (cases m) (simp_all add: within_def)

lemma within_mono:
  "within errs m Q \<Longrightarrow> errs \<subseteq> errs' \<Longrightarrow> (\<And>x. m = Inr x \<Longrightarrow> Q x \<Longrightarrow> R x) \<Longrightarrow> within errs' m R"
  by (cases m) (auto simp: within_def)

lemma within_empty: "within {} m Q = ensures m Q"
  by (cases m) simp_all

lemma ensures_within: "ensures m Q \<Longrightarrow> within errs m Q"
  by (cases m) simp_all

section \<open>Unordered maps\<close>

type_synonym ('k, 'v) umap = "('k \<times> 'v) list"

fun um_find :: "('k \<Rightarrow> 'k \<Rightarrow> bool) \<Rightarrow> ('k, 'v) umap \<Rightarrow> 'k \<Rightarrow> 'v option" where
  "um_find cmp [] k = None"
| "um_find cmp ((a, b) # m) k = (if cmp a k then Some b else um_find cmp m k)"

text \<open>Assignment through \<open>operator[]\<close>: the stored key stays, a new key is linked in.\<close>

fun um_put :: "('k \<Rightarrow> 'k \<Rightarrow> bool) \<Rightarrow> ('k, 'v) umap \<Rightarrow> 'k \<Rightarrow> 'v \<Rightarrow> ('k, 'v) umap" where
  "um_put cmp [] k v = [(k, v)]"
| "um_put cmp ((a, b) # m) k v = (if cmp a k then (a, v) # m else (a, b) # um_put cmp m k v)"

definition um_erase :: "('k \<Rightarrow> 'k \<Rightarrow> bool) \<Rightarrow> ('k, 'v) umap \<Rightarrow> 'k \<Rightarrow> ('k, 'v) umap" where
  "um_erase cmp m k = filter (\<lambda>(a, _). \<not> cmp a k) m"

definition um_count :: "('k \<Rightarrow> 'k \<Rightarrow> bool) \<Rightarrow> ('k, 'v) umap \<Rightarrow> 'k \<Rightarrow> nat" where
  "um_count cmp m k = (case um_find cmp m k of None \<Rightarrow> 0 | Some _ \<Rightarrow> 1)"

text \<open>Reading through \<open>operator[]\<close>: value and table, the default inserted when absent.\<close>

definition um_index ::
    "'v \<Rightarrow> ('k \<Rightarrow> 'k \<Rightarrow> bool) \<Rightarrow> ('k, 'v) umap \<Rightarrow> 'k \<Rightarrow> 'v \<times> ('k, 'v) umap" where
  "um_index d cmp m k =
     (case um_find cmp m k of Some v \<Rightarrow> (v, m) | None \<Rightarrow> (d, um_put cmp m k d))"

fun um_wf :: "('k \<Rightarrow> 'k \<Rightarrow> bool) \<Rightarrow> ('k, 'v) umap \<Rightarrow> bool" where
  "um_wf cmp [] = True"
| "um_wf cmp ((a, b) # m) = (um_find cmp m a = None \<and> um_wf cmp m)"

text \<open>
  The standard leaves the iteration order of an unordered map open: it is a parameter \<open>ord\<close>
  that arranges the keys. Nothing but \<open>ord_ok\<close> is ever assumed of it.
\<close>

definition um_iter :: "('k list \<Rightarrow> 'k list) \<Rightarrow> ('k \<Rightarrow> 'k \<Rightarrow> bool) \<Rightarrow> ('k, 'v) umap \<Rightarrow> ('k, 'v) umap" where
  "um_iter ord cmp m =
     List.map_filter (\<lambda>k. map_option (Pair k) (um_find cmp m k)) (ord (map fst m))"

definition ord_ok :: "('k list \<Rightarrow> 'k list) \<Rightarrow> bool" where
  "ord_ok ord \<longleftrightarrow> (\<forall>ks. set (ord ks) = set ks \<and> (distinct ks \<longrightarrow> distinct (ord ks)))"

lemma um_find_None_fst: "um_find cmp m k = None \<longleftrightarrow> (\<forall>a \<in> fst ` set m. \<not> cmp a k)"
  by (induction cmp m k rule: um_find.induct) auto

lemma um_find_SomeD: "um_find cmp m k = Some v \<Longrightarrow> \<exists>a. (a, v) \<in> set m \<and> cmp a k"
  by (induction cmp m k rule: um_find.induct) (auto split: if_splits)

lemma um_put_same: "um_find cmp m k = Some v \<Longrightarrow> um_put cmp m k v = m"
  by (induction cmp m k v rule: um_put.induct) (auto split: if_splits)

lemma um_index_snd_find:
  "um_find cmp m k = Some v \<Longrightarrow> um_index d cmp m k = (v, m)"
  by (simp add: um_index_def)

lemma um_index_none:
  "um_find cmp m k = None \<Longrightarrow> um_index d cmp m k = (d, um_put cmp m k d)"
  by (simp add: um_index_def)

lemma um_index_fst:
  "fst (um_index d cmp m k) = (case um_find cmp m k of Some v \<Rightarrow> v | None \<Rightarrow> d)"
  by (simp add: um_index_def split: option.splits)

section \<open>What an unordered map asks of its key type\<close>

locale map_key =
  fixes cmp :: "'k \<Rightarrow> 'k \<Rightarrow> bool"
    and hash :: "'k \<Rightarrow> int"
  assumes cmp_refl: "cmp a a"
    and cmp_sym: "cmp a b \<Longrightarrow> cmp b a"
    and cmp_trans: "cmp a b \<Longrightarrow> cmp b c \<Longrightarrow> cmp a c"
    and hash_cmp: "cmp a b \<Longrightarrow> hash a = hash b"
begin

lemma cmp_cong: "cmp a b \<Longrightarrow> cmp a c = cmp b c"
  by (blast intro: cmp_sym cmp_trans)

lemma cmp_cong2: "cmp a b \<Longrightarrow> cmp c a = cmp c b"
  by (blast intro: cmp_sym cmp_trans)

lemma find_cong: "cmp a b \<Longrightarrow> um_find cmp m a = um_find cmp m b"
  by (induction m) (auto simp: cmp_cong2)

lemma find_put:
  "um_find cmp (um_put cmp m k v) j = (if cmp k j then Some v else um_find cmp m j)"
proof (induction m)
  case Nil
  show ?case by simp
next
  case (Cons p m)
  obtain a b where p: "p = (a, b)" by (cases p)
  show ?case
  proof (cases "cmp a k")
    case True
    then show ?thesis by (simp add: p cmp_cong)
  next
    case False
    then have "cmp a j \<Longrightarrow> \<not> cmp k j"
      using cmp_sym cmp_trans by blast
    with False Cons.IH show ?thesis by (auto simp: p)
  qed
qed

lemma find_erase:
  "um_find cmp (um_erase cmp m k) j = (if cmp k j then None else um_find cmp m j)"
proof (induction m)
  case Nil
  show ?case by (simp add: um_erase_def)
next
  case (Cons p m)
  obtain a b where p: "p = (a, b)" by (cases p)
  have "cmp a k \<Longrightarrow> cmp a j = cmp k j"
    by (rule cmp_cong)
  moreover have "\<not> cmp a k \<Longrightarrow> cmp a j \<Longrightarrow> \<not> cmp k j"
    using cmp_sym cmp_trans by blast
  ultimately show ?case using Cons.IH by (auto simp: p um_erase_def)
qed

lemma find_index:
  "um_find cmp (snd (um_index d cmp m k)) j =
     (if cmp k j \<and> um_find cmp m j = None then Some d else um_find cmp m j)"
  by (auto simp: um_index_def find_put find_cong split: option.splits)

lemma wf_put: "um_wf cmp m \<Longrightarrow> um_wf cmp (um_put cmp m k v)"
proof (induction m)
  case (Cons p m)
  obtain a b where p: "p = (a, b)" by (cases p)
  show ?case
  proof (cases "cmp a k")
    case False
    then have "\<not> cmp k a" using cmp_sym by blast
    with False Cons show ?thesis by (simp add: p find_put)
  qed (use Cons p in simp)
qed simp

lemma wf_erase: "um_wf cmp m \<Longrightarrow> um_wf cmp (um_erase cmp m k)"
proof (induction m)
  case (Cons p m)
  obtain a b where p: "p = (a, b)" by (cases p)
  have "um_find cmp (um_erase cmp m k) a = None"
    using Cons.prems by (simp add: p find_erase)
  with Cons show ?case by (simp add: p um_erase_def)
qed (simp add: um_erase_def)

lemma wf_index: "um_wf cmp m \<Longrightarrow> um_wf cmp (snd (um_index d cmp m k))"
  by (auto simp: um_index_def wf_put split: option.splits)

lemma wf_find_in: "um_wf cmp m \<Longrightarrow> (a, b) \<in> set m \<Longrightarrow> um_find cmp m a = Some b"
proof (induction m)
  case (Cons p m)
  obtain c d where p: "p = (c, d)" by (cases p)
  show ?case
  proof (cases "(a, b) = (c, d)")
    case True
    then show ?thesis by (simp add: p cmp_refl)
  next
    case False
    then have in_m: "(a, b) \<in> set m" using Cons.prems by (auto simp: p)
    have none: "um_find cmp m c = None" and "um_wf cmp m" using Cons.prems by (auto simp: p)
    have "\<not> cmp c a"
    proof
      assume "cmp c a"
      then have "cmp a c" by (rule cmp_sym)
      with none in_m show False by (force simp: um_find_None_fst)
    qed
    with Cons.IH \<open>um_wf cmp m\<close> in_m show ?thesis by (simp add: p)
  qed
qed simp

lemma erase_absent: "um_find cmp m k = None \<Longrightarrow> um_erase cmp m k = m"
  by (induction m) (auto simp: um_erase_def split: if_splits)

lemma put_absent: "um_find cmp m k = None \<Longrightarrow> um_put cmp m k v = m @ [(k, v)]"
  by (induction m) (auto split: if_splits)

lemma erase_put_absent:
  "um_find cmp m k = None \<Longrightarrow> um_erase cmp (um_put cmp m k v) k = m"
  using erase_absent by (simp add: put_absent um_erase_def cmp_refl)

end

section \<open>Tables with integer keys\<close>

interpretation ik: map_key "(=) :: int \<Rightarrow> int \<Rightarrow> bool" "\<lambda>x. x"
  by unfold_locales auto

abbreviation ifind :: "(int, 'v) umap \<Rightarrow> int \<Rightarrow> 'v option" where
  "ifind \<equiv> um_find (=)"
abbreviation iput :: "(int, 'v) umap \<Rightarrow> int \<Rightarrow> 'v \<Rightarrow> (int, 'v) umap" where
  "iput \<equiv> um_put (=)"
abbreviation ierase :: "(int, 'v) umap \<Rightarrow> int \<Rightarrow> (int, 'v) umap" where
  "ierase \<equiv> um_erase (=)"
abbreviation iindex :: "'v \<Rightarrow> (int, 'v) umap \<Rightarrow> int \<Rightarrow> 'v \<times> (int, 'v) umap" where
  "iindex d \<equiv> um_index d (=)"
abbreviation icount :: "(int, 'v) umap \<Rightarrow> int \<Rightarrow> nat" where
  "icount \<equiv> um_count (=)"
abbreviation iiter :: "(int list \<Rightarrow> int list) \<Rightarrow> (int, 'v) umap \<Rightarrow> (int, 'v) umap" where
  "iiter ord \<equiv> um_iter ord (=)"
abbreviation iwf :: "(int, 'v) umap \<Rightarrow> bool" where
  "iwf \<equiv> um_wf (=)"

lemmas itable_simps [simp] =
  ik.find_put ik.find_erase ik.find_index ik.wf_put ik.wf_erase ik.wf_index

text \<open>Counting the entries of a table: what insertion and removal do to a filtered length.\<close>

lemma length_filter_erase:
  assumes "iwf m" and "ifind m k = Some v"
  shows "length (filter P m) = length (filter P (ierase m k)) + (if P (k, v) then 1 else 0)"
  using assms
proof (induction m)
  case (Cons p m)
  obtain a b where p: "p = (a, b)" by (cases p)
  show ?case
  proof (cases "a = k")
    case True
    then have "ierase m k = m" using Cons.prems by (intro ik.erase_absent) (simp add: p)
    with True Cons.prems show ?thesis by (simp add: p um_erase_def)
  next
    case False
    with Cons show ?thesis by (simp add: p um_erase_def)
  qed
qed simp

lemma filter_erase_absent: "ifind m k = None \<Longrightarrow> ierase m k = m"
  by (rule ik.erase_absent)

lemma icount_pos: "0 < icount m k \<longleftrightarrow> ifind m k \<noteq> None"
  by (simp add: um_count_def split: option.splits)

lemma iiter_set:
  assumes "ord_ok ord" and "iwf m"
  shows "set (iiter ord m) = set m"
proof -
  have keys: "set (ord (map fst m)) = fst ` set m"
    using assms(1) by (simp add: ord_ok_def)
  show ?thesis
  proof (intro set_eqI iffI)
    fix x assume "x \<in> set (iiter ord m)"
    then obtain k v where "x = (k, v)" and "ifind m k = Some v"
      by (auto simp: um_iter_def List.map_filter_def split: option.splits)
    then show "x \<in> set m" by (auto dest: um_find_SomeD)
  next
    fix x assume x: "x \<in> set m"
    obtain k v where kv: "x = (k, v)" by (cases x)
    have "ifind m k = Some v" using ik.wf_find_in [OF assms(2)] x kv by simp
    moreover have "k \<in> set (ord (map fst m))" using keys x kv by force
    ultimately show "x \<in> set (iiter ord m)"
      by (force simp: um_iter_def List.map_filter_def kv)
  qed
qed

lemma iiter_find: "(k, v) \<in> set (iiter ord m) \<Longrightarrow> ifind m k = Some v"
  by (auto simp: um_iter_def List.map_filter_def split: option.splits)

section \<open>Decimal numerals, as output streams print them\<close>

definition digit_char :: "nat \<Rightarrow> char" where
  "digit_char d = char_of (48 + d)"

fun show_nat :: "nat \<Rightarrow> string" where
  "show_nat n = (if n < 10 then [digit_char n] else show_nat (n div 10) @ [digit_char (n mod 10)])"

declare show_nat.simps [simp del]

definition show_int :: "int \<Rightarrow> string" where
  "show_int i = (if i < 0 then CHR ''-'' # show_nat (nat (- i)) else show_nat (nat i))"

definition newline :: string where
  "newline = [CHR 0x0A]"

section \<open>C strings\<close>

text \<open>A block of characters and the string it holds, up to its first null character.\<close>

abbreviation EOS :: char where "EOS \<equiv> CHR 0x00"

definition c_str :: "string \<Rightarrow> string" where
  "c_str s = takeWhile (\<lambda>c. c \<noteq> EOS) s"

definition strlen :: "string \<Rightarrow> nat res" where
  "strlen s = (if EOS \<in> set s then Inr (length (c_str s)) else Inl OutOfBounds)"

lemma c_str_id: "EOS \<notin> set s \<Longrightarrow> c_str s = s"
  unfolding c_str_def by (rule takeWhile_eq_all_conv [THEN iffD2]) auto

lemma c_str_append: "EOS \<notin> set s \<Longrightarrow> c_str (s @ EOS # t) = s"
  by (induction s) (auto simp: c_str_def)

lemma c_str_no_EOS: "EOS \<notin> set (c_str s)"
  by (auto simp: c_str_def dest: set_takeWhileD)

lemma c_str_split: "EOS \<in> set s \<Longrightarrow> \<exists>t. s = c_str s @ EOS # t"
  by (induction s) (auto simp: c_str_def)

end
