(* ===== verification/Sockaddr.thy ===== *)
theory Sockaddr
  imports Prelude "HOL-Library.Word"
begin

text \<open>
  Socket addresses: \<^verbatim>\<open>struct sockaddr_in\<close> as far as the library reads and writes it, the byte
  order conversions, and the key comparison and hasher of the forwarding table from
  \<^verbatim>\<open>include/libstrmanager/Worker.h\<close>. The hosts are little endian; the proofs use of \<open>htons\<close> only
  that it is its own inverse. The locale \<open>map_key\<close> is interpreted on the program's comparison and
  hasher, which is what makes the forwarding table a well-defined map.
\<close>

unbundle bit_operations_syntax

record sockaddr_in =
  sin_family :: "16 word"
  sin_port :: "16 word"    \<comment> \<open>network byte order\<close>
  sin_addr :: "32 word"    \<comment> \<open>\<^verbatim>\<open>sin_addr.s_addr\<close>\<close>

definition AF_INET :: "16 word" where
  "AF_INET = 2"

definition INADDR_ANY :: "32 word" where
  "INADDR_ANY = 0"

text \<open>\<^verbatim>\<open>htons(port)\<close> on an \<^verbatim>\<open>int\<close> converts the argument to 16 bits first: \<open>htons (word_of_int port)\<close>.\<close>

definition htons :: "16 word \<Rightarrow> 16 word" where
  "htons x = push_bit 8 x OR drop_bit 8 x"

definition ntohs :: "16 word \<Rightarrow> 16 word" where
  "ntohs x = push_bit 8 x OR drop_bit 8 x"

lemma ntohs_htons [simp]: "ntohs (htons x) = x"
  unfolding ntohs_def htons_def
  by (rule bit_word_eqI) (auto simp: bit_simps not_less)

lemma htons_inject [simp]: "htons x = htons y \<longleftrightarrow> x = y"
  by (metis ntohs_htons)

definition valid_port :: "int \<Rightarrow> bool" where
  "valid_port p \<longleftrightarrow> 0 \<le> p \<and> p < 65536"

lemma uint_valid_port: "valid_port p \<Longrightarrow> uint (word_of_int p :: 16 word) = p"
  by (simp add: valid_port_def uint_word_of_int)

lemma port_of_htons: "valid_port p \<Longrightarrow> uint (ntohs (htons (word_of_int p))) = p"
  by (simp add: uint_valid_port)

lemma htons_valid_inject:
  "valid_port p \<Longrightarrow> valid_port q \<Longrightarrow> htons (word_of_int p) = htons (word_of_int q) \<longleftrightarrow> p = q"
  by (metis port_of_htons)

section \<open>Comparison and hashing of addresses\<close>

definition sock_addr_cmp :: "sockaddr_in \<Rightarrow> sockaddr_in \<Rightarrow> bool" where
  "sock_addr_cmp s1 s2 =
     (if sin_addr s1 = sin_addr s2 \<and> sin_port s1 = sin_port s2 then True else False)"

text \<open>
  \<open>s.sin_port + (s.sin_addr.s_addr ^ 2)\<close>: the port is widened to unsigned 32 bits, the sum wraps,
  and the conversion of the result to \<^verbatim>\<open>int\<close> keeps the bits.
\<close>

definition sock_addr_hasher :: "sockaddr_in \<Rightarrow> 32 word" where
  "sock_addr_hasher s = ucast (sin_port s) + (sin_addr s XOR 2)"

interpretation ak: map_key sock_addr_cmp "\<lambda>s. sint (sock_addr_hasher s)"
  by unfold_locales (auto simp: sock_addr_cmp_def sock_addr_hasher_def split: if_splits)

abbreviation afind :: "(sockaddr_in, 'v) umap \<Rightarrow> sockaddr_in \<Rightarrow> 'v option" where
  "afind \<equiv> um_find sock_addr_cmp"
abbreviation aput :: "(sockaddr_in, 'v) umap \<Rightarrow> sockaddr_in \<Rightarrow> 'v \<Rightarrow> (sockaddr_in, 'v) umap" where
  "aput \<equiv> um_put sock_addr_cmp"
abbreviation aerase :: "(sockaddr_in, 'v) umap \<Rightarrow> sockaddr_in \<Rightarrow> (sockaddr_in, 'v) umap" where
  "aerase \<equiv> um_erase sock_addr_cmp"
abbreviation aindex ::
    "'v \<Rightarrow> (sockaddr_in, 'v) umap \<Rightarrow> sockaddr_in \<Rightarrow> 'v \<times> (sockaddr_in, 'v) umap" where
  "aindex d \<equiv> um_index d sock_addr_cmp"
abbreviation awf :: "(sockaddr_in, 'v) umap \<Rightarrow> bool" where
  "awf \<equiv> um_wf sock_addr_cmp"

lemmas atable_simps [simp] =
  ak.find_put ak.find_erase ak.find_index ak.wf_put ak.wf_erase ak.wf_index

lemma sock_addr_cmp_refl [simp]: "sock_addr_cmp a a"
  by (rule ak.cmp_refl)

lemma sock_addr_cmp_iff:
  "sock_addr_cmp a b \<longleftrightarrow> sin_addr a = sin_addr b \<and> sin_port a = sin_port b"
  by (simp add: sock_addr_cmp_def)

text \<open>The two addresses differ only in fields the comparison does not read.\<close>

lemma sock_addr_cmp_family [simp]: "sock_addr_cmp (a\<lparr>sin_family := f\<rparr>) b = sock_addr_cmp a b"
  by (simp add: sock_addr_cmp_iff)

end
