(* ===== verification/Messages.thy ===== *)
theory Messages
  imports Prelude
begin

text \<open>
  The messages a worker sends to its manager: \<^verbatim>\<open>class Message\<close> of
  \<^verbatim>\<open>include/libstrmanager/Message.h\<close> and its constructor in \<^verbatim>\<open>src/Message.cpp\<close>. The body is an array of
  255 characters filled by \<^verbatim>\<open>strcpy\<close>; the record keeps the characters before the terminator, what
  follows it in the array is never read.
\<close>

record message =
  msg_type :: int
  msg_from :: int
  msg_body :: string

definition body_capacity :: nat where
  "body_capacity = 255"

definition mk_message :: "int \<Rightarrow> int \<Rightarrow> string \<Rightarrow> message res" where
  "mk_message type from body =
     (if body_capacity < length (c_str body) + 1 then Inl BufferOverflow
      else Inr \<lparr>msg_type = type, msg_from = from, msg_body = c_str body\<rparr>)"

text \<open>The two bodies the library sends.\<close>

definition idle_body :: string where
  "idle_body = ''NOTHING TO DO''"

definition no_job_body :: string where
  "no_job_body = ''WORKER DOESN'T HAVE ANY JOB TO PERFORM''"

lemma mk_message_idle [simp]:
  "mk_message 0 i idle_body = Inr \<lparr>msg_type = 0, msg_from = i, msg_body = idle_body\<rparr>"
  by (simp add: mk_message_def idle_body_def c_str_def body_capacity_def)

lemma mk_message_no_job [simp]:
  "mk_message 100 i no_job_body = Inr \<lparr>msg_type = 100, msg_from = i, msg_body = no_job_body\<rparr>"
  by (simp add: mk_message_def no_job_body_def c_str_def body_capacity_def)

end
