(* ===== verification/Platform.thy ===== *)
theory Platform
  imports Sockaddr Messages
begin

text \<open>
  What the library calls and does not contain: the socket calls of the operating system, the clock,
  the address conversions of the C library, the interprocess message queue of Boost, the contents
  of freshly allocated memory, the iteration order of the hash tables, the number of hardware
  threads and what the compiler makes of a function that flows off its end. All of it is one record of functions over an opaque state \<open>'k\<close> that every definition
  takes as an argument; nothing is fixed about it. \<open>sockets_ok\<close> states the documented behaviour of
  the descriptor calls for the theorems that need it.
\<close>

record 'k env =
  fresh_addr :: "nat \<Rightarrow> 'k \<Rightarrow> sockaddr_in"   \<comment> \<open>bytes of the nth object a call allocates\<close>
  inet_aton :: "string \<Rightarrow> 32 word option"
  inet_ntoa :: "32 word \<Rightarrow> string"
  sys_socket :: "'k \<Rightarrow> int \<times> 'k"
  sys_bind :: "int \<Rightarrow> sockaddr_in \<Rightarrow> 'k \<Rightarrow> int \<times> 'k"
  sys_close :: "int \<Rightarrow> 'k \<Rightarrow> 'k"
  sys_select :: "int \<Rightarrow> int list \<Rightarrow> int \<times> int \<Rightarrow> 'k \<Rightarrow> (int \<times> int list) \<times> 'k"
  sys_recvfrom :: "int \<Rightarrow> 'k \<Rightarrow> (int \<times> 8 word list \<times> sockaddr_in) \<times> 'k"
  sys_sendto :: "int \<Rightarrow> 8 word list \<Rightarrow> 32 word \<Rightarrow> sockaddr_in \<Rightarrow> 'k \<Rightarrow> 'k"
  sys_time :: "'k \<Rightarrow> int \<times> 'k"
  sys_sleep :: "int \<Rightarrow> 'k \<Rightarrow> 'k"
  mq_send :: "message \<Rightarrow> 'k \<Rightarrow> bool \<times> 'k"
  mq_receive :: "'k \<Rightarrow> message option \<times> 'k"
  mq_remove :: "'k \<Rightarrow> 'k"
  key_order :: "int list \<Rightarrow> int list"
  addr_order :: "sockaddr_in list \<Rightarrow> sockaddr_in list"
  hw_threads :: int
  falls_through :: bool   \<comment> \<open>what the compiler makes of a \<^verbatim>\<open>bool\<close> function without a return\<close>

text \<open>
  Documented behaviour of the descriptor calls, \<open>opn\<close> giving the descriptors open in a state: a
  new socket has a nonnegative descriptor that was not open, failure is -1 and opens nothing,
  \<open>close\<close> closes its argument, and no other call opens or closes a descriptor for good.
\<close>

definition descriptors_ok :: "'k env \<Rightarrow> ('k \<Rightarrow> int set) \<Rightarrow> bool" where
  "descriptors_ok E opn \<longleftrightarrow>
     (\<forall>k. case sys_socket E k of (fd, k') \<Rightarrow>
        (if 0 \<le> fd then fd \<notin> opn k \<and> opn k' = insert fd (opn k)
         else fd = -1 \<and> opn k' = opn k)) \<and>
     (\<forall>fd k. opn (sys_close E fd k) = opn k - {fd})"

definition descriptor_neutral :: "'k env \<Rightarrow> ('k \<Rightarrow> int set) \<Rightarrow> bool" where
  "descriptor_neutral E opn \<longleftrightarrow>
     (\<forall>fd a k. opn (snd (sys_bind E fd a k)) = opn k) \<and>
     (\<forall>n fds tv k. opn (snd (sys_select E n fds tv k)) = opn k) \<and>
     (\<forall>fd k. opn (snd (sys_recvfrom E fd k)) = opn k) \<and>
     (\<forall>fd buf len a k. opn (sys_sendto E fd buf len a k) = opn k) \<and>
     (\<forall>k. opn (snd (sys_time E k)) = opn k) \<and>
     (\<forall>s k. opn (sys_sleep E s k) = opn k) \<and>
     (\<forall>m k. opn (snd (mq_send E m k)) = opn k) \<and>
     (\<forall>k. opn (snd (mq_receive E k)) = opn k) \<and>
     (\<forall>k. opn (mq_remove E k) = opn k)"

text \<open>The descriptors of a process stay below the size of an \<^verbatim>\<open>fd_set\<close>.\<close>

definition descriptor_limit :: "('k \<Rightarrow> int set) \<Rightarrow> bool" where
  "descriptor_limit opn \<longleftrightarrow> (\<forall>k. opn k \<subseteq> {0..<1024})"

definition sockets_ok :: "'k env \<Rightarrow> ('k \<Rightarrow> int set) \<Rightarrow> bool" where
  "sockets_ok E opn \<longleftrightarrow> descriptors_ok E opn \<and> descriptor_neutral E opn"

lemma sockets_ok_socket:
  assumes "sockets_ok E opn" and "sys_socket E k = (fd, k')"
  shows "if 0 \<le> fd then fd \<notin> opn k \<and> opn k' = insert fd (opn k) else fd = -1 \<and> opn k' = opn k"
proof -
  have "case sys_socket E k of (fd, k') \<Rightarrow>
      if 0 \<le> fd then fd \<notin> opn k \<and> opn k' = insert fd (opn k) else fd = -1 \<and> opn k' = opn k"
    using assms(1) unfolding sockets_ok_def descriptors_ok_def by (elim conjE) (erule spec)
  then show ?thesis unfolding assms(2) by simp
qed

lemma sockets_ok_close: "sockets_ok E opn \<Longrightarrow> opn (sys_close E fd k) = opn k - {fd}"
  unfolding sockets_ok_def descriptors_ok_def by (elim conjE allE)

lemma sockets_ok_neutral:
  assumes "sockets_ok E opn"
  shows "opn (snd (sys_bind E fd a k)) = opn k"
    and "opn (snd (sys_select E n fds tv k)) = opn k"
    and "opn (snd (sys_recvfrom E fd k)) = opn k"
    and "opn (sys_sendto E fd buf len a k) = opn k"
    and "opn (snd (sys_time E k)) = opn k"
    and "opn (snd (mq_send E m k)) = opn k"
    and "opn (snd (mq_receive E k)) = opn k"
    and "opn (mq_remove E k) = opn k"
    and "opn (sys_sleep E s k) = opn k"
  using assms by (cases tv, simp_all add: sockets_ok_def descriptor_neutral_def)+

lemma sockets_ok_bind:
  assumes "sockets_ok E opn" and "sys_bind E fd a k = (r, k')"
  shows "opn k' = opn k"
  using sockets_ok_neutral(1) [OF assms(1), of fd a k] assms(2) by simp

text \<open>
  A \<^verbatim>\<open>recvfrom\<close> that succeeds returns the number of bytes it has put into the buffer, at most its size; one
  that fails returns a negative number and writes no sender: the code that goes on reads
  a \<^verbatim>\<open>sockaddr_in\<close> that nothing has written.
\<close>

definition sender_of :: "int \<Rightarrow> sockaddr_in \<Rightarrow> sockaddr_in res" where
  "sender_of ret sender = (if ret < 0 then Inl UninitRead else Inr sender)"

lemma bindE_sender_of [simp]: "bindE (sender_of ret sender) f = (if ret < 0 then Inl UninitRead else f sender)"
  by (simp add: sender_of_def)

definition receives :: "'k env \<Rightarrow> bool" where
  "receives E \<longleftrightarrow> (\<forall>fd k. 0 \<le> fst (fst (sys_recvfrom E fd k)))"

definition recv_errs :: "'k env \<Rightarrow> ub set" where
  "recv_errs E = (if receives E then {} else {UninitRead})"

lemma recv_errsD:
  "e \<in> recv_errs E \<Longrightarrow> e = UninitRead \<and> (\<exists>fd k. fst (fst (sys_recvfrom E fd k)) < 0)"
  by (auto simp: recv_errs_def receives_def not_le split: if_splits)

lemma recv_errsI: "sys_recvfrom E fd k = ((ret, buf, sender), k1) \<Longrightarrow> ret < 0 \<Longrightarrow> UninitRead \<in> recv_errs E"
  unfolding recv_errs_def receives_def by (metis fst_conv insertI1 not_less)

text \<open>
  A function that is declared \<^verbatim>\<open>bool\<close> and flows off its end: undefined in C++, although a compiler that
  lets it return to a caller that reads no result makes it harmless.
\<close>

definition off_end :: "'k env \<Rightarrow> 'a \<Rightarrow> 'a res" where
  "off_end E x = (if falls_through E then Inr x else Inl MissingReturn)"

definition end_errs :: "'k env \<Rightarrow> ub set" where
  "end_errs E = (if falls_through E then {} else {MissingReturn})"

section \<open>A small concrete platform\<close>

text \<open>
  An instance to evaluate the program on: descriptors are handed out in increasing order, a port
  can be bound once at a time, sent datagrams are logged, the clock is a number, the queue is
  first-in first-out; there are 1021 descriptors. The witnesses run the model on it; no definition of the program mentions it.
\<close>

record sim =
  sim_fds :: "(int \<times> 16 word option) list"
  sim_next :: nat
  sim_in :: "(int \<times> 8 word list \<times> sockaddr_in) list"
  sim_out :: "(8 word list \<times> sockaddr_in) list"
  sim_clock :: int
  sim_mq :: "message list"

definition sim_init :: sim where
  "sim_init = \<lparr>sim_fds = [], sim_next = 3, sim_in = [], sim_out = [], sim_clock = 1000, sim_mq = []\<rparr>"

definition sim_socket :: "sim \<Rightarrow> int \<times> sim" where
  "sim_socket s =
     (if sim_next s < 1024 then
        (int (sim_next s),
         s\<lparr>sim_fds := (int (sim_next s), None) # sim_fds s, sim_next := Suc (sim_next s)\<rparr>)
      else (-1, s))"

definition sim_bind :: "int \<Rightarrow> sockaddr_in \<Rightarrow> sim \<Rightarrow> int \<times> sim" where
  "sim_bind fd a s =
     (if list_ex (\<lambda>(f, p). p = Some (sin_port a)) (sim_fds s) then (-1, s)
      else (0, s\<lparr>sim_fds := map (\<lambda>(f, p). if f = fd then (f, Some (sin_port a)) else (f, p)) (sim_fds s)\<rparr>))"

definition sim_close :: "int \<Rightarrow> sim \<Rightarrow> sim" where
  "sim_close fd s = s\<lparr>sim_fds := filter (\<lambda>(f, _). f \<noteq> fd) (sim_fds s)\<rparr>"

definition sim_select :: "int \<Rightarrow> int list \<Rightarrow> int \<times> int \<Rightarrow> sim \<Rightarrow> (int \<times> int list) \<times> sim" where
  "sim_select n fds tv s =
     (let ready = filter (\<lambda>fd. fd < n \<and> list_ex (\<lambda>(f, _). f = fd) (sim_in s)) fds
      in ((int (length ready), ready), s))"

fun sim_take :: "int \<Rightarrow> (int \<times> 8 word list \<times> sockaddr_in) list \<Rightarrow>
    (8 word list \<times> sockaddr_in) option \<times> (int \<times> 8 word list \<times> sockaddr_in) list" where
  "sim_take fd [] = (None, [])"
| "sim_take fd ((f, d) # q) =
     (if f = fd then (Some d, q) else (case sim_take fd q of (r, q') \<Rightarrow> (r, (f, d) # q')))"

definition zero_addr :: sockaddr_in where
  "zero_addr = \<lparr>sin_family = 0, sin_port = 0, sin_addr = 0\<rparr>"

definition sim_recvfrom :: "int \<Rightarrow> sim \<Rightarrow> (int \<times> 8 word list \<times> sockaddr_in) \<times> sim" where
  "sim_recvfrom fd s =
     (case sim_take fd (sim_in s) of
        (None, _) \<Rightarrow> ((-1, [], zero_addr), s)
      | (Some (d, a), q) \<Rightarrow> ((int (length d), d, a), s\<lparr>sim_in := q\<rparr>))"

definition sim_sendto :: "int \<Rightarrow> 8 word list \<Rightarrow> 32 word \<Rightarrow> sockaddr_in \<Rightarrow> sim \<Rightarrow> sim" where
  "sim_sendto fd buf len a s = s\<lparr>sim_out := sim_out s @ [(take (unat len) buf, a)]\<rparr>"

text \<open>Addresses are written as one decimal digit here, so that examples stay readable.\<close>

definition sim_aton :: "string \<Rightarrow> 32 word option" where
  "sim_aton s =
     (case s of
        [c] \<Rightarrow> (let d = of_char c :: nat in if 48 \<le> d \<and> d < 58 then Some (of_nat (d - 48)) else None)
      | _ \<Rightarrow> None)"

definition sim_env :: "sim env" where
  "sim_env = \<lparr>
     fresh_addr = (\<lambda>_ _. zero_addr),
     inet_aton = sim_aton,
     inet_ntoa = (\<lambda>w. show_nat (unat w)),
     sys_socket = sim_socket,
     sys_bind = sim_bind,
     sys_close = sim_close,
     sys_select = sim_select,
     sys_recvfrom = sim_recvfrom,
     sys_sendto = sim_sendto,
     sys_time = (\<lambda>s. (sim_clock s mod 2147483648, s)),
     sys_sleep = (\<lambda>t s. s\<lparr>sim_clock := sim_clock s + t\<rparr>),
     mq_send = (\<lambda>m s. (True, s\<lparr>sim_mq := sim_mq s @ [m]\<rparr>)),
     mq_receive = (\<lambda>s. case sim_mq s of [] \<Rightarrow> (None, s) | m # q \<Rightarrow> (Some m, s\<lparr>sim_mq := q\<rparr>)),
     mq_remove = (\<lambda>s. s\<lparr>sim_mq := []\<rparr>),
     key_order = (\<lambda>ks. ks),
     addr_order = (\<lambda>ks. ks),
     hw_threads = 2,
     falls_through = True\<rparr>"

lemmas sim_defs =
  sim_env_def sim_init_def sim_socket_def sim_bind_def sim_close_def sim_select_def
  sim_recvfrom_def sim_sendto_def sim_aton_def zero_addr_def

text \<open>Descriptors open in a simulated state; \<open>sim_next\<close> is above all of them in every run.\<close>

definition sim_open :: "sim \<Rightarrow> int set" where
  "sim_open s =
     {fd. 0 \<le> fd \<and> fd < int (sim_next s) \<and> fd < 1024 \<and> fd \<in> fst ` set (sim_fds s)}"

lemma sim_bind_fst: "fst ` set (sim_fds (snd (sim_bind fd a s))) = fst ` set (sim_fds s)"
  by (force simp: sim_bind_def)

lemma sim_socket_open:
  "case sys_socket sim_env k of (fd, k') \<Rightarrow>
     if 0 \<le> fd then fd \<notin> sim_open k \<and> sim_open k' = insert fd (sim_open k)
     else fd = - 1 \<and> sim_open k' = sim_open k"
  by (cases "sim_next k < 1024") (auto simp: sim_env_def sim_socket_def sim_open_def)

lemma sim_close_open: "sim_open (sys_close sim_env fd k) = sim_open k - {fd}"
  by (force simp: sim_env_def sim_close_def sim_open_def)

lemma sim_bind_open: "sim_open (snd (sys_bind sim_env fd a k)) = sim_open k"
proof -
  have "sim_next (snd (sim_bind fd a k)) = sim_next k" by (simp add: sim_bind_def)
  then show ?thesis by (simp add: sim_env_def sim_open_def sim_bind_fst)
qed

lemma sim_neutral_open:
  "sim_open (snd (sys_select sim_env n fds tv k)) = sim_open k"
  "sim_open (snd (sys_recvfrom sim_env fd k)) = sim_open k"
  "sim_open (sys_sendto sim_env fd buf len a k) = sim_open k"
  "sim_open (snd (sys_time sim_env k)) = sim_open k"
  "sim_open (snd (mq_send sim_env m k)) = sim_open k"
  "sim_open (snd (mq_receive sim_env k)) = sim_open k"
  "sim_open (mq_remove sim_env k) = sim_open k"
  "sim_open (sys_sleep sim_env t k) = sim_open k"
  by (simp_all add: sim_env_def sim_select_def sim_recvfrom_def sim_sendto_def sim_open_def Let_def
      split: prod.splits option.splits list.splits)

lemma sim_limit: "descriptor_limit sim_open"
  by (auto simp: descriptor_limit_def sim_open_def)

lemma sim_sockets_ok: "sockets_ok sim_env sim_open"
  unfolding sockets_ok_def descriptors_ok_def descriptor_neutral_def
  by (intro conjI allI sim_socket_open sim_close_open sim_bind_open sim_neutral_open)

end
