(* ===== verification/Streams.thy ===== *)
theory Streams
  imports Platform
begin

text \<open>
  The data objects of the library: \<^verbatim>\<open>UdpStream\<close> (\<^verbatim>\<open>src/streams/UdpStream.cpp\<close>), \<^verbatim>\<open>StreamList\<close> and
  its subclass \<^verbatim>\<open>StatsStreamList\<close> (\<^verbatim>\<open>src/streamlists/\<close>). An object is a record; a
  \<^verbatim>\<open>StatsStreamList\<close> is a \<^verbatim>\<open>StreamList\<close> whose \<open>stats\<close> part is present, so that
  \<^verbatim>\<open>dynamic_pointer_cast\<close> is the test of that field. \<^verbatim>\<open>UdpStream\<close> objects are not changed once a
  list holds them, so lists hold them by value. Byte counters are 32-bit words read as signed.
\<close>

section \<open>UdpStream\<close>

record udp_stream =
  stream_id :: int
  addr :: sockaddr_in

definition setId :: "int \<Rightarrow> udp_stream \<Rightarrow> udp_stream" where
  "setId i u = u\<lparr>stream_id := i\<rparr>"

definition getId :: "udp_stream \<Rightarrow> int" where
  "getId u = stream_id u"

definition setAddr_sock :: "sockaddr_in \<Rightarrow> udp_stream \<Rightarrow> udp_stream" where
  "setAddr_sock a u = u\<lparr>addr := a\<rparr>"

text \<open>The result of \<^verbatim>\<open>inet_aton\<close> is not looked at: on failure the old address bytes stay.\<close>

definition setAddr :: "'k env \<Rightarrow> string \<Rightarrow> int \<Rightarrow> udp_stream \<Rightarrow> udp_stream" where
  "setAddr E ip port u =
     (let a1 = (addr u)\<lparr>sin_family := AF_INET\<rparr>;
          a2 = a1\<lparr>sin_port := htons (word_of_int port)\<rparr>;
          a3 = (case inet_aton E ip of None \<Rightarrow> a2 | Some x \<Rightarrow> a2\<lparr>sin_addr := x\<rparr>)
      in u\<lparr>addr := a3\<rparr>)"

definition getAddr :: "udp_stream \<Rightarrow> sockaddr_in" where
  "getAddr u = addr u"

definition UdpStream_new :: "'k env \<Rightarrow> nat \<Rightarrow> 'k \<Rightarrow> udp_stream" where
  "UdpStream_new E n k = setId 0 \<lparr>stream_id = 0, addr = fresh_addr E n k\<rparr>"

definition UdpStream_new3 :: "'k env \<Rightarrow> int \<Rightarrow> string \<Rightarrow> int \<Rightarrow> 'k \<Rightarrow> udp_stream" where
  "UdpStream_new3 E i ip port k =
     setAddr E ip port (setId i \<lparr>stream_id = 0, addr = fresh_addr E 0 k\<rparr>)"

definition printStream :: "'k env \<Rightarrow> udp_stream \<Rightarrow> string" where
  "printStream E u =
     ''udpStream: '' @ show_int (getId u) @ '' '' @ inet_ntoa E (sin_addr (addr u)) @ '':'' @
     show_int (uint (ntohs (sin_port (addr u)))) @ newline"

definition udp_clear :: "udp_stream \<Rightarrow> udp_stream" where
  "udp_clear u = u"

lemma getId_simps [simp]: "getId (setId i u) = i" "getId (setAddr E ip p u) = getId u"
  by (simp_all add: getId_def setId_def setAddr_def Let_def)

lemma setAddr_port [simp]: "sin_port (addr (setAddr E ip p u)) = htons (word_of_int p)"
  by (simp add: setAddr_def Let_def split: option.splits)

lemma setAddr_addr: "inet_aton E ip = Some x \<Longrightarrow> sin_addr (addr (setAddr E ip p u)) = x"
  by (simp add: setAddr_def Let_def)

section \<open>StreamList\<close>

record stats_part =
  actualRate :: int
  limitRate :: int
  list_inputBytes :: "32 word"

record stream_list =
  listId :: int
  source :: "udp_stream option"       \<comment> \<open>\<^verbatim>\<open>None\<close> is the null pointer\<close>
  destinations :: "udp_stream list"
  timeStamp :: "int option"           \<comment> \<open>\<^verbatim>\<open>None\<close> until first written\<close>
  stats :: "stats_part option"

definition setListId :: "int \<Rightarrow> stream_list \<Rightarrow> stream_list" where
  "setListId i l = l\<lparr>listId := i\<rparr>"

definition getListId :: "stream_list \<Rightarrow> int" where
  "getListId l = listId l"

definition clear :: "stream_list \<Rightarrow> stream_list" where
  "clear l = (setListId 0 l)\<lparr>destinations := []\<rparr>"

definition StreamList_new :: stream_list where
  "StreamList_new =
     clear \<lparr>listId = 0, source = None, destinations = [], timeStamp = None, stats = None\<rparr>"

definition setSource :: "udp_stream \<Rightarrow> stream_list \<Rightarrow> stream_list" where
  "setSource u l = l\<lparr>source := Some u\<rparr>"

definition remSource :: "stream_list \<Rightarrow> stream_list" where
  "remSource l = l\<lparr>source := None\<rparr>"

definition getSource :: "stream_list \<Rightarrow> udp_stream option" where
  "getSource l = source l"

definition getSourcePort :: "stream_list \<Rightarrow> int res" where
  "getSourcePort l =
     (case source l of None \<Rightarrow> Inl NullDeref
      | Some u \<Rightarrow> Inr (uint (ntohs (sin_port (getAddr u)))))"

definition getSourceSockAddr :: "stream_list \<Rightarrow> sockaddr_in res" where
  "getSourceSockAddr l =
     (case source l of None \<Rightarrow> Inl NullDeref | Some u \<Rightarrow> Inr (getAddr u))"

text \<open>
  The search loops walk the list with an iterator. \<open>findDestination\<close> returns the position,
  the length of the list being \<^verbatim>\<open>end()\<close>.
\<close>

fun find_from :: "udp_stream list \<Rightarrow> int \<Rightarrow> nat" where
  "find_from [] i = 0"
| "find_from (d # ds) i = (if getId d = i then 0 else Suc (find_from ds i))"

definition findDestination :: "int \<Rightarrow> stream_list \<Rightarrow> nat" where
  "findDestination i l = find_from (destinations l) i"

fun exists_from :: "udp_stream list \<Rightarrow> int \<Rightarrow> bool" where
  "exists_from [] i = False"
| "exists_from (d # ds) i = (if getId d = i then True else exists_from ds i)"

definition existDestination :: "int \<Rightarrow> stream_list \<Rightarrow> bool" where
  "existDestination i l = exists_from (destinations l) i"

definition addDestination_list :: "udp_stream \<Rightarrow> stream_list \<Rightarrow> bool \<times> stream_list" where
  "addDestination_list d l =
     (if existDestination (getId d) l then (False, l)
      else (True, l\<lparr>destinations := destinations l @ [d]\<rparr>))"

text \<open>\<open>*it\<close> at a position: undefined at \<^verbatim>\<open>end()\<close>.\<close>

definition at_it :: "stream_list \<Rightarrow> nat \<Rightarrow> udp_stream res" where
  "at_it l n = (if n < length (destinations l) then Inr (destinations l ! n) else Inl EndDeref)"

definition erase_it :: "nat \<Rightarrow> stream_list \<Rightarrow> stream_list" where
  "erase_it n l = l\<lparr>destinations := take n (destinations l) @ drop (Suc n) (destinations l)\<rparr>"

definition getDestination :: "int \<Rightarrow> stream_list \<Rightarrow> udp_stream option res" where
  "getDestination i l =
     (let it = findDestination i l in
      bindE (at_it l it) (\<lambda>d. if getId d = i then Inr (Some d) else Inr None))"

definition popDestination :: "int \<Rightarrow> stream_list \<Rightarrow> (udp_stream option \<times> stream_list) res" where
  "popDestination i l =
     (let it = findDestination i l in
      bindE (at_it l it) (\<lambda>d. if getId d = i then Inr (Some d, erase_it it l) else Inr (None, l)))"

definition remDestination :: "int \<Rightarrow> stream_list \<Rightarrow> (bool \<times> stream_list) res" where
  "remDestination i l =
     (let it = findDestination i l in
      bindE (at_it l it) (\<lambda>d. if getId d = i then Inr (True, erase_it it l) else Inr (False, l)))"

definition getDestinations :: "stream_list \<Rightarrow> udp_stream list" where
  "getDestinations l = destinations l"

definition setDestinations :: "udp_stream list \<Rightarrow> stream_list \<Rightarrow> stream_list" where
  "setDestinations ds l = l\<lparr>destinations := ds\<rparr>"

definition clearDestinations :: "stream_list \<Rightarrow> stream_list" where
  "clearDestinations l = l\<lparr>destinations := []\<rparr>"

definition updateTimeStamp :: "'k env \<Rightarrow> stream_list \<Rightarrow> 'k \<Rightarrow> stream_list \<times> 'k" where
  "updateTimeStamp E l k = (case sys_time E k of (t, k') \<Rightarrow> (l\<lparr>timeStamp := Some t\<rparr>, k'))"

definition getTimeStamp :: "stream_list \<Rightarrow> int option" where
  "getTimeStamp l = timeStamp l"

definition printList_of :: "'k env \<Rightarrow> stream_list \<Rightarrow> string res" where
  "printList_of E l =
     (case source l of None \<Rightarrow> Inl NullDeref
      | Some u \<Rightarrow> Inr (
          ''Printing streamList '' @ show_int (getListId l) @ newline @ ''Source:'' @ newline @
          printStream E u @ newline @ ''Destinations:'' @ newline @
          concat (map (\<lambda>d. printStream E d @ newline) (destinations l))))"

section \<open>StatsStreamList\<close>

definition StatsStreamList_new :: "'k env \<Rightarrow> 'k \<Rightarrow> stream_list \<times> 'k" where
  "StatsStreamList_new E k =
     (case sys_time E k of (t, k') \<Rightarrow>
       (StreamList_new\<lparr>stats := Some \<lparr>actualRate = 0, limitRate = 0, list_inputBytes = 0\<rparr>,
                       timeStamp := Some t\<rparr>, k'))"

definition fits_int :: "int \<Rightarrow> bool" where
  "fits_int x \<longleftrightarrow> - 2147483648 \<le> x \<and> x \<le> 2147483647"

text \<open>\<open>actualRate = (inputBytes/125) / diff\<close> with C's division, then the counter is reset.\<close>

definition calculateRate :: "int \<Rightarrow> stats_part \<Rightarrow> stats_part res" where
  "calculateRate diff s =
     (if diff = 0 then Inl DivByZero
      else Inr (s\<lparr>actualRate := (sint (list_inputBytes s) sdiv 125) sdiv diff,
                  list_inputBytes := 0\<rparr>))"

text \<open>A sum of two \<^verbatim>\<open>int\<close> values, undefined when it leaves the range of the type.\<close>

definition updateInputBytes :: "32 word \<Rightarrow> stats_part \<Rightarrow> stats_part res" where
  "updateInputBytes n s =
     (if fits_int (sint (list_inputBytes s) + sint n)
      then Inr (s\<lparr>list_inputBytes := list_inputBytes s + n\<rparr>) else Inl SignedOverflow)"

text \<open>
  \<open>update\<close>: the rate is recomputed when more than ten seconds have passed. The second component
  is the line written to standard output. The function is declared \<^verbatim>\<open>bool\<close> and has no return.
\<close>

definition update_stats :: "'k env \<Rightarrow> stream_list \<Rightarrow> 'k \<Rightarrow> (stream_list \<times> string \<times> 'k) res" where
  "update_stats E l k =
     (case stats l of None \<Rightarrow> Inl NullDeref | Some s \<Rightarrow>
      case sys_time E k of (now, k1) \<Rightarrow>
      case timeStamp l of None \<Rightarrow> Inl UninitRead | Some t0 \<Rightarrow>
        (let diff = now - t0 in
         if \<not> fits_int diff then Inl SignedOverflow
         else if diff > 10 then
           bindE (calculateRate diff s) (\<lambda>s'.
             (case updateTimeStamp E (l\<lparr>stats := Some s'\<rparr>) k1 of (l', k2) \<Rightarrow>
               off_end E (l', ''list_id '' @ show_int (getListId l) @ '' rate= '' @
                        show_int (actualRate s') @ newline, k2)))
         else off_end E (l, [], k1)))"

section \<open>Searching a destination list\<close>

lemma exists_from_iff: "exists_from ds i \<longleftrightarrow> i \<in> getId ` set ds"
  by (induction ds) auto

lemma find_from_le: "find_from ds i \<le> length ds"
  by (induction ds) auto

lemma find_from_less: "find_from ds i < length ds \<longleftrightarrow> i \<in> getId ` set ds"
  by (induction ds) auto

lemma find_from_nth: "i \<in> getId ` set ds \<Longrightarrow> getId (ds ! find_from ds i) = i"
  by (induction ds) auto

lemma find_from_first: "j < find_from ds i \<Longrightarrow> getId (ds ! j) \<noteq> i"
proof (induction ds arbitrary: j)
  case (Cons d ds)
  then show ?case by (cases j) (auto split: if_splits)
qed simp

lemma find_from_end: "i \<notin> getId ` set ds \<Longrightarrow> find_from ds i = length ds"
  by (induction ds) auto

lemma existDestination_iff: "existDestination i l \<longleftrightarrow> i \<in> getId ` set (destinations l)"
  by (simp add: existDestination_def exists_from_iff)

lemma found_id:
  "existDestination i l \<Longrightarrow> getId (destinations l ! find_from (destinations l) i) = i"
  by (simp add: existDestination_iff find_from_nth)

lemma at_it_find:
  "at_it l (findDestination i l) =
     (if existDestination i l then Inr (destinations l ! find_from (destinations l) i)
      else Inl EndDeref)"
  by (simp add: at_it_def findDestination_def find_from_less existDestination_iff)

text \<open>What the iterator based operations amount to, on both branches.\<close>

lemma getDestination_eq:
  "getDestination i l =
     (if existDestination i l then Inr (Some (destinations l ! findDestination i l))
      else Inl EndDeref)"
  by (simp add: getDestination_def Let_def at_it_find found_id) (simp add: findDestination_def)

lemma remDestination_eq:
  "remDestination i l =
     (if existDestination i l then Inr (True, erase_it (findDestination i l) l)
      else Inl EndDeref)"
  by (simp add: remDestination_def Let_def at_it_find found_id)

lemma popDestination_eq:
  "popDestination i l =
     (if existDestination i l
      then Inr (Some (destinations l ! findDestination i l), erase_it (findDestination i l) l)
      else Inl EndDeref)"
  by (simp add: popDestination_def Let_def at_it_find found_id) (simp add: findDestination_def)

lemma erase_found:
  "distinct (map getId ds) \<Longrightarrow> i \<in> getId ` set ds \<Longrightarrow>
     take (find_from ds i) ds @ drop (Suc (find_from ds i)) ds = filter (\<lambda>d. getId d \<noteq> i) ds"
proof (induction ds)
  case (Cons d ds)
  show ?case
  proof (cases "getId d = i")
    case True
    with Cons.prems have "i \<notin> getId ` set ds" by auto
    then have "\<forall>x \<in> set ds. getId x \<noteq> i" by (metis imageI)
    with True show ?thesis by simp
  next
    case False
    with Cons show ?thesis by simp
  qed
qed simp

section \<open>A destination list as a finite map\<close>

text \<open>
  The promise of a stream list to the worker: it is a map from destination identifiers to
  addresses. \<open>dest_ok\<close> is the representation invariant, \<open>dest_map\<close> the abstraction.
\<close>

definition dest_ok :: "stream_list \<Rightarrow> bool" where
  "dest_ok l \<longleftrightarrow> distinct (map getId (destinations l))"

definition dest_map :: "stream_list \<Rightarrow> int \<Rightarrow> sockaddr_in option" where
  "dest_map l = map_of (map (\<lambda>d. (getId d, getAddr d)) (destinations l))"

lemma dest_map_None: "dest_map l i = None \<longleftrightarrow> \<not> existDestination i l"
  by (force simp: dest_map_def existDestination_iff map_of_eq_None_iff image_image)

lemma map_of_filter_id:
  "map_of (map (\<lambda>d. (getId d, getAddr d)) (filter (\<lambda>d. getId d \<noteq> i) ds)) =
     (map_of (map (\<lambda>d. (getId d, getAddr d)) ds))(i := None)"
  by (induction ds) (auto simp: fun_eq_iff)

lemma dest_map_erase:
  "dest_ok l \<Longrightarrow> existDestination i l \<Longrightarrow>
     dest_map (erase_it (findDestination i l) l) = (dest_map l)(i := None)"
  by (simp add: dest_map_def erase_it_def findDestination_def existDestination_iff dest_ok_def
      erase_found map_of_filter_id)

lemma dest_ok_erase:
  "dest_ok l \<Longrightarrow> existDestination i l \<Longrightarrow> dest_ok (erase_it (findDestination i l) l)"
  by (simp add: erase_it_def findDestination_def existDestination_iff dest_ok_def erase_found
      distinct_map_filter)

lemma dest_map_add:
  "\<not> existDestination (getId d) l \<Longrightarrow>
     dest_map (l\<lparr>destinations := destinations l @ [d]\<rparr>) = (dest_map l)(getId d \<mapsto> getAddr d)"
proof (rule ext)
  fix j
  assume "\<not> existDestination (getId d) l"
  then have "dest_map l (getId d) = None" by (simp add: dest_map_None)
  then show "dest_map (l\<lparr>destinations := destinations l @ [d]\<rparr>) j =
      ((dest_map l)(getId d \<mapsto> getAddr d)) j"
    by (simp add: dest_map_def map_add_def split: option.splits)
qed

lemma dest_ok_add:
  "dest_ok l \<Longrightarrow> \<not> existDestination (getId d) l \<Longrightarrow>
     dest_ok (l\<lparr>destinations := destinations l @ [d]\<rparr>)"
  by (simp add: dest_ok_def existDestination_iff)

locale destination_store =
  fixes ok :: "'l \<Rightarrow> bool"
    and look :: "'l \<Rightarrow> int \<Rightarrow> sockaddr_in option"
    and exist :: "int \<Rightarrow> 'l \<Rightarrow> bool"
    and add :: "udp_stream \<Rightarrow> 'l \<Rightarrow> bool \<times> 'l"
    and rem :: "int \<Rightarrow> 'l \<Rightarrow> (bool \<times> 'l) res"
  assumes exist_look: "exist i l \<longleftrightarrow> look l i \<noteq> None"
    and add_dup: "exist (getId d) l \<Longrightarrow> add d l = (False, l)"
    and add_new: "\<not> exist (getId d) l \<Longrightarrow>
      fst (add d l) \<and> look (snd (add d l)) = (look l)(getId d \<mapsto> getAddr d)"
    and add_ok: "ok l \<Longrightarrow> ok (snd (add d l))"
    and rem_present: "ok l \<Longrightarrow> exist i l \<Longrightarrow>
      \<exists>l'. rem i l = Inr (True, l') \<and> ok l' \<and> look l' = (look l)(i := None)"
    and rem_absent: "\<not> exist i l \<Longrightarrow> rem i l = Inl EndDeref"
begin

lemma look_add:
  "look (snd (add d l)) j =
     (if j = getId d \<and> \<not> exist j l then Some (getAddr d) else look l j)"
proof (cases "exist (getId d) l")
  case True
  then show ?thesis using add_dup by auto
next
  case False
  then show ?thesis using add_new by auto
qed

lemma add_flag: "fst (add d l) \<longleftrightarrow> \<not> exist (getId d) l"
  using add_dup [of d l] add_new [of d l] by auto

lemma rem_defined: "ok l \<Longrightarrow> (\<exists>x. rem i l = Inr x) \<longleftrightarrow> exist i l"
  using rem_present [of l i] rem_absent [of i l] by (cases "exist i l") auto

lemma add_rem:
  assumes "ok l" and "\<not> exist (getId d) l"
  shows "\<exists>l'. rem (getId d) (snd (add d l)) = Inr (True, l') \<and> ok l' \<and> look l' = look l"
proof -
  have "exist (getId d) (snd (add d l))"
    using assms(2) by (simp add: exist_look look_add)
  then obtain l' where l': "rem (getId d) (snd (add d l)) = Inr (True, l')" "ok l'"
      "look l' = (look (snd (add d l)))(getId d := None)"
    using rem_present [OF add_ok [OF assms(1)]] by blast
  have "look l (getId d) = None" using assms(2) by (simp add: exist_look)
  then have "look l' = look l" using l'(3) add_new [OF assms(2)] by auto
  with l' show ?thesis by blast
qed

end

interpretation dl: destination_store dest_ok dest_map existDestination addDestination_list remDestination
proof unfold_locales
  fix i l d
  show "existDestination i l = (dest_map l i \<noteq> None)" by (simp add: dest_map_None)
  show "existDestination (getId d) l \<Longrightarrow> addDestination_list d l = (False, l)"
    by (simp add: addDestination_list_def)
  show "\<not> existDestination (getId d) l \<Longrightarrow> fst (addDestination_list d l) \<and>
      dest_map (snd (addDestination_list d l)) = (dest_map l)(getId d \<mapsto> getAddr d)"
    by (simp add: addDestination_list_def dest_map_add)
  show "dest_ok l \<Longrightarrow> dest_ok (snd (addDestination_list d l))"
    by (simp add: addDestination_list_def dest_ok_add)
  show "dest_ok l \<Longrightarrow> existDestination i l \<Longrightarrow> \<exists>l'. remDestination i l = Inr (True, l') \<and>
      dest_ok l' \<and> dest_map l' = (dest_map l)(i := None)"
    by (simp add: remDestination_eq dest_ok_erase dest_map_erase)
  show "\<not> existDestination i l \<Longrightarrow> remDestination i l = Inl EndDeref"
    by (simp add: remDestination_eq)
qed

text \<open>Fetching a destination, in terms of the map.\<close>

lemma destinations_at:
  assumes "dest_ok l"
  shows "case dest_map l i of
      None \<Rightarrow> getDestination i l = Inl EndDeref
    | Some a \<Rightarrow> \<exists>d. getId d = i \<and> getAddr d = a \<and> getDestination i l = Inr (Some d) \<and>
        d = destinations l ! findDestination i l"
proof (cases "existDestination i l")
  case False
  then show ?thesis using dest_map_None [of l i] by (simp add: getDestination_eq)
next
  case True
  define d where "d = destinations l ! findDestination i l"
  have d: "d \<in> set (destinations l)" "getId d = i"
    using True found_id [OF True] find_from_less [of "destinations l" i]
    by (auto simp: d_def findDestination_def existDestination_iff)
  have "dest_map l i = Some (getAddr d)"
    unfolding dest_map_def using assms d
    by (intro map_of_is_SomeI) (auto simp: dest_ok_def comp_def)
  then show ?thesis using True d(2) by (simp add: getDestination_eq d_def [symmetric])
qed

section \<open>Properties\<close>

text \<open>
  C25. A stream list is a finite map from destination identifiers to addresses. Adding a destination
  binds its identifier exactly when it is free and reports that, an identifier in use keeps its
  old address, and identifiers stay distinct.
\<close>

theorem destinations_add:
  "fst (addDestination_list d l) = (dest_map l (getId d) = None) \<and>
   dest_map (snd (addDestination_list d l)) =
     (if dest_map l (getId d) = None then (dest_map l)(getId d \<mapsto> getAddr d) else dest_map l) \<and>
   dest_ok (snd (addDestination_list d l)) = dest_ok l"
proof -
  have "dest_ok (l\<lparr>destinations := destinations l @ [d]\<rparr>) \<longleftrightarrow> dest_ok l \<and> \<not> existDestination (getId d) l"
    by (auto simp: dest_ok_def existDestination_iff)
  then show ?thesis
    by (auto simp: dl.add_flag dest_map_None addDestination_list_def dest_map_add)
qed

text \<open>
  C26. Removing, popping and fetching a destination on both branches: a bound identifier is found
  and, for the first two, unbound, nothing else changing; for an identifier that is not in the list
  all three dereference the end iterator of the list before they compare anything.
\<close>

theorem destinations_remove:
  assumes "dest_ok l"
  shows "(case dest_map l i of
      None \<Rightarrow> remDestination i l = Inl EndDeref \<and> popDestination i l = Inl EndDeref \<and>
        getDestination i l = Inl EndDeref
    | Some a \<Rightarrow> \<exists>d l'. getId d = i \<and> getAddr d = a \<and> getDestination i l = Inr (Some d) \<and>
        popDestination i l = Inr (Some d, l') \<and> remDestination i l = Inr (True, l') \<and>
        dest_ok l' \<and> dest_map l' = (dest_map l)(i := None))"
proof (cases "existDestination i l")
  case False
  then show ?thesis
    using dest_map_None [of l i] by (simp add: remDestination_eq popDestination_eq getDestination_eq)
next
  case True
  then obtain a d where "dest_map l i = Some a" "getId d = i" "getAddr d = a"
      "getDestination i l = Inr (Some d)" "d = destinations l ! findDestination i l"
    using destinations_at [OF assms, of i] dest_map_None [of l i] by (auto split: option.splits)
  then show ?thesis
    using True dest_ok_erase [OF assms True] dest_map_erase [OF assms True]
    by (simp add: remDestination_eq popDestination_eq)
qed

definition two_destinations :: stream_list where
  "two_destinations = snd (addDestination_list \<lparr>stream_id = 2, addr = \<lparr>sin_family = 2, sin_port = 20, sin_addr = 2\<rparr>\<rparr>
     (snd (addDestination_list \<lparr>stream_id = 1, addr = \<lparr>sin_family = 2, sin_port = 10, sin_addr = 1\<rparr>\<rparr>
        StreamList_new)))"

lemmas two_destinations_eval =
  two_destinations_def addDestination_list_def existDestination_def StreamList_new_def clear_def
  setListId_def getId_def getAddr_def dest_ok_def dest_map_def

theorem destinations_remove_witness:
  "dest_ok two_destinations \<and> dest_map two_destinations 2 \<noteq> None \<and>
   (\<exists>x. remDestination 2 two_destinations = Inr x) \<and> remDestination 7 two_destinations = Inl EndDeref"
proof -
  have ok: "dest_ok two_destinations" by (simp add: two_destinations_eval)
  have m: "dest_map two_destinations 2 \<noteq> None" "dest_map two_destinations 7 = None"
    by (simp_all add: two_destinations_eval)
  show ?thesis
    using ok m destinations_remove [OF ok, of 2] destinations_remove [OF ok, of 7]
    by (auto split: option.splits)
qed

end
