(* ===== verification/Worker_Core.thy ===== *)
theory Worker_Core
  imports Streams
begin

text \<open>
  \<^verbatim>\<open>class Worker\<close> (\<^verbatim>\<open>include/libstrmanager/Worker.h\<close>, \<^verbatim>\<open>src/workers/Worker.cpp\<close>): the state of a
  worker, its socket table, its stream tables and its select loop, one definition per member
  function. An operation takes the worker and the state of the platform and returns both; a call
  that dereferences a pointer returns a \<open>res\<close>.

  \<^verbatim>\<open>StreamList\<close> objects live behind shared pointers that the code aliases, so a worker carries a
  \<open>store\<close> from references to objects; a \<^verbatim>\<open>shared_ptr\<close> is a \<open>nat option\<close>, \<open>None\<close> the null
  pointer. The two byte counters of \<^verbatim>\<open>StatsWorker\<close> are fields of the same record. Identifiers,
  ports, descriptors and listener counts are integers; the mutex makes each operation one step.
\<close>

section \<open>State\<close>

datatype worker_class = BaseClass | ForwardClass | StatsClass | RtcpClass

definition DEF_WORKER_TYPE :: int where "DEF_WORKER_TYPE = -1"
definition FWD_WORKER_TYPE :: int where "FWD_WORKER_TYPE = 1"
definition STATS_WORKER_TYPE :: int where "STATS_WORKER_TYPE = 2"
definition TST_WORKER_TYPE :: int where "TST_WORKER_TYPE = 3"
definition RTCP_WORKER_TYPE :: int where "RTCP_WORKER_TYPE = 4"

lemmas worker_type_defs =
  DEF_WORKER_TYPE_def FWD_WORKER_TYPE_def STATS_WORKER_TYPE_def TST_WORKER_TYPE_def
  RTCP_WORKER_TYPE_def

record worker =
  wclass :: worker_class
  fdPort :: "(int, int) umap"
  portFd :: "(int, int) umap"
  portListener :: "(int, int) umap"
  management :: "(int, nat option) umap"
  forwarding :: "(sockaddr_in, int) umap"
  working :: bool
  launched :: bool                 \<comment> \<open>\<^verbatim>\<open>m_thread\<close> has been set\<close>
  worker_id :: int
  worker_type :: int
  highsock :: int
  fdset :: "int list"
  timeout :: "int \<times> int"
  store :: "nat \<Rightarrow> stream_list"
  next_ref :: nat
  inputBytes :: "32 word"
  outputBytes :: "32 word"

definition Worker_new :: "worker_class \<Rightarrow> int \<Rightarrow> worker" where
  "Worker_new c i = \<lparr>
     wclass = c, fdPort = [], portFd = [], portListener = [], management = [], forwarding = [],
     working = True, launched = False, worker_id = i, worker_type = DEF_WORKER_TYPE,
     highsock = 0, fdset = [], timeout = (0, 0), store = (\<lambda>_. StreamList_new), next_ref = 0,
     inputBytes = 0, outputBytes = 0\<rparr>"

definition launch :: "worker \<Rightarrow> worker" where
  "launch w = w\<lparr>launched := True\<rparr>"

text \<open>\<open>stop\<close> clears the flag and joins the thread; the pointer must have been set by \<open>launch\<close>.\<close>

definition stop :: "worker \<Rightarrow> worker res" where
  "stop w = (let w1 = w\<lparr>working := False\<rparr> in if launched w1 then Inr w1 else Inl NoThread)"

definition isWorking :: "worker \<Rightarrow> bool" where
  "isWorking w = working w"

definition getWorkerId :: "worker \<Rightarrow> int" where
  "getWorkerId w = worker_id w"

definition getWorkerType :: "worker \<Rightarrow> int" where
  "getWorkerType w = worker_type w"

definition setWorkerType :: "int \<Rightarrow> worker \<Rightarrow> worker" where
  "setWorkerType t w = w\<lparr>worker_type := t\<rparr>"

definition isWorkerType :: "int \<Rightarrow> worker \<Rightarrow> bool" where
  "isWorkerType t w = (if worker_type w = t then True else False)"

definition hasPort :: "int \<Rightarrow> worker \<Rightarrow> bool" where
  "hasPort port w = (if icount (portFd w) port > 0 then True else False)"

definition isEmpty :: "worker \<Rightarrow> bool" where
  "isEmpty w = (if length (management w) \<noteq> 0 then False else True)"

text \<open>Storing a new object and changing one in place.\<close>

definition new_list :: "stream_list \<Rightarrow> worker \<Rightarrow> nat \<times> worker" where
  "new_list l w = (next_ref w, w\<lparr>store := (store w)(next_ref w := l), next_ref := Suc (next_ref w)\<rparr>)"

definition set_list :: "nat \<Rightarrow> stream_list \<Rightarrow> worker \<Rightarrow> worker" where
  "set_list r l w = w\<lparr>store := (store w)(r := l)\<rparr>"

fun deref :: "nat option \<Rightarrow> nat res" where
  "deref None = Inl NullDeref"
| "deref (Some r) = Inr r"

section \<open>Messages to the manager\<close>

definition sendMessage :: "'k env \<Rightarrow> message \<Rightarrow> 'k \<Rightarrow> 'k" where
  "sendMessage E m k = (case mq_send E m k of (ok, k1) \<Rightarrow> if ok then k1 else mq_remove E k1)"

section \<open>Listening sockets\<close>

definition init_socket :: "'k env \<Rightarrow> int \<Rightarrow> 'k \<Rightarrow> int \<times> 'k" where
  "init_socket E port k =
     (let address = \<lparr>sin_family = AF_INET, sin_port = htons (word_of_int port),
                     sin_addr = INADDR_ANY\<rparr> in
      case sys_socket E k of (sock, k1) \<Rightarrow>
        if sock < 0 then (-1, k1)
        else case sys_bind E sock address k1 of (result, k2) \<Rightarrow>
          if result < 0 then (-1, k2) else (sock, k2))"

definition add_socket :: "'k env \<Rightarrow> int \<Rightarrow> worker \<Rightarrow> 'k \<Rightarrow> int \<times> worker \<times> 'k" where
  "add_socket E port w k =
     (case iindex 0 (portListener w) port of (n, pl) \<Rightarrow>
       let w1 = w\<lparr>portListener := pl\<rparr> in
       if n \<noteq> 0 then (0, w1\<lparr>portListener := iput pl port (n + 1)\<rparr>, k)
       else case init_socket E port k of (fd, k1) \<Rightarrow>
         if fd = -1 then (-1, w1, k1)
         else (1, w1\<lparr>portFd := iput (portFd w1) port fd,
                     fdPort := iput (fdPort w1) fd port,
                     portListener := iput pl port 1\<rparr>, k1))"

definition remove_socket :: "'k env \<Rightarrow> int \<Rightarrow> worker \<Rightarrow> 'k \<Rightarrow> bool \<times> worker \<times> 'k" where
  "remove_socket E port w k =
     (case iindex 0 (portListener w) port of (n, pl) \<Rightarrow>
       let w1 = w\<lparr>portListener := iput pl port (n - 1)\<rparr> in
       if n - 1 = 0 then
         (case iindex 0 (portFd w1) port of (fd, pf) \<Rightarrow>
           (True, w1\<lparr>portFd := ierase pf port,
                     fdPort := ierase (fdPort w1) fd,
                     portListener := ierase (portListener w1) port\<rparr>, sys_close E fd k))
       else (False, w1, k))"

section \<open>Stream tables\<close>

definition getStreamList :: "int \<Rightarrow> worker \<Rightarrow> nat option \<times> worker" where
  "getStreamList i w =
     (case iindex None (management w) i of (p, m) \<Rightarrow> (p, w\<lparr>management := m\<rparr>))"

definition getListIdBySocket :: "sockaddr_in \<Rightarrow> worker \<Rightarrow> int \<times> worker" where
  "getListIdBySocket a w =
     (case aindex 0 (forwarding w) a of (i, f) \<Rightarrow> (i, w\<lparr>forwarding := f\<rparr>))"

definition getStreamListBySocket :: "sockaddr_in \<Rightarrow> worker \<Rightarrow> nat option \<times> worker" where
  "getStreamListBySocket a w = (case getListIdBySocket a w of (i, w1) \<Rightarrow> getStreamList i w1)"

definition addStreamList :: "int \<Rightarrow> nat option \<Rightarrow> worker \<Rightarrow> worker res" where
  "addStreamList i p w =
     (let w1 = w\<lparr>management := iput (management w) i p\<rparr> in
      bindE (deref p) (\<lambda>r. bindE (getSourceSockAddr (store w1 r)) (\<lambda>a.
        Inr (w1\<lparr>forwarding := aput (forwarding w1) a i\<rparr>))))"

definition removeStreamList :: "int \<Rightarrow> worker \<Rightarrow> worker res" where
  "removeStreamList i w =
     (case getStreamList i w of (tmp, w1) \<Rightarrow>
       bindE (deref tmp) (\<lambda>r. bindE (getSourceSockAddr (store w1 r)) (\<lambda>a.
         let w2 = w1\<lparr>forwarding := aerase (forwarding w1) a\<rparr> in
         Inr (w2\<lparr>management := ierase (management w2) i\<rparr>))))"

definition conmuteStreamList :: "int \<Rightarrow> int \<Rightarrow> worker \<Rightarrow> worker res" where
  "conmuteStreamList from to w =
     (case getStreamList from w of (a, w1) \<Rightarrow>
      case getStreamList to w1 of (b, w2) \<Rightarrow>
       bindE (deref b) (\<lambda>rb. bindE (deref a) (\<lambda>ra.
         let w3 = set_list rb (setDestinations (getDestinations (store w2 ra)) (store w2 rb)) w2;
             w4 = set_list ra (clearDestinations (store w3 ra)) w3;
             w5 = w4\<lparr>management := iput (management w4) from a\<rparr>
         in Inr (w5\<lparr>management := iput (management w5) to b\<rparr>))))"

definition conmuteUdpStream :: "int \<Rightarrow> int \<Rightarrow> int \<Rightarrow> worker \<Rightarrow> worker res" where
  "conmuteUdpStream i from to w =
     (case getStreamList from w of (a, w1) \<Rightarrow>
      case getStreamList to w1 of (b, w2) \<Rightarrow>
       bindE (deref b) (\<lambda>rb. bindE (deref a) (\<lambda>ra.
       bindE (getDestination i (store w2 ra)) (\<lambda>d. case d of None \<Rightarrow> Inl NullDeref | Some u \<Rightarrow>
         let w3 = set_list rb (snd (addDestination_list u (store w2 rb))) w2;
             w4 = w3\<lparr>management := iput (management w3) from a\<rparr>
         in Inr (w4\<lparr>management := iput (management w4) to b\<rparr>)))))"

section \<open>Sources and destinations\<close>

definition addSource :: "'k env \<Rightarrow> int \<Rightarrow> string \<Rightarrow> int \<Rightarrow> worker \<Rightarrow> 'k \<Rightarrow> (bool \<times> worker \<times> 'k) res" where
  "addSource E src_id ip port w k =
     (let udpstream = setAddr E ip port (setId src_id (UdpStream_new E 0 k)) in
      case getListIdBySocket (getAddr udpstream) w of (i, w1) \<Rightarrow>
        if i \<noteq> 0 then Inr (False, w1, k)
        else let streamlist = setSource udpstream (setListId src_id StreamList_new) in
          case add_socket E port w1 k of (ret, w2, k1) \<Rightarrow>
            if ret \<noteq> -1 then
              (case new_list streamlist w2 of (r, w3) \<Rightarrow>
                bindE (addStreamList src_id (Some r) w3) (\<lambda>w4. Inr (True, w4, k1)))
            else Inr (False, w2, k1))"

definition removeSource :: "'k env \<Rightarrow> int \<Rightarrow> worker \<Rightarrow> 'k \<Rightarrow> (worker \<times> 'k) res" where
  "removeSource E src_id w k =
     (case getStreamList src_id w of (p, w1) \<Rightarrow>
      bindE (deref p) (\<lambda>r. bindE (getSourcePort (store w1 r)) (\<lambda>port.
        case remove_socket E port w1 k of (_, w2, k1) \<Rightarrow>
        bindE (removeStreamList src_id w2) (\<lambda>w3.
          if isEmpty w3 then
            bindE (mk_message 100 (getWorkerId w3) no_job_body) (\<lambda>m.
              let k2 = sendMessage E m k1 in bindE (stop w3) (\<lambda>w4. Inr (w4, k2)))
          else Inr (w3, k1)))))"

definition addDestination ::
    "'k env \<Rightarrow> int \<Rightarrow> int \<Rightarrow> string \<Rightarrow> int \<Rightarrow> worker \<Rightarrow> 'k \<Rightarrow> (worker \<times> 'k) res" where
  "addDestination E src_id dest_id ip port w k =
     (let udpstream = setAddr E ip port (setId dest_id (UdpStream_new E 0 k)) in
      case getStreamList src_id w of (p, w1) \<Rightarrow>
      bindE (deref p) (\<lambda>r.
        case addDestination_list udpstream (store w1 r) of (added, l) \<Rightarrow>
          let w2 = set_list r l w1 in
          if added then bindE (addStreamList src_id p w2) (\<lambda>w3. Inr (w3, k))
          else Inr (w2, k)))"

definition removeDestination ::
    "'k env \<Rightarrow> int \<Rightarrow> int \<Rightarrow> worker \<Rightarrow> 'k \<Rightarrow> (worker \<times> 'k) res" where
  "removeDestination E src_id dest_id w k =
     (case getStreamList src_id w of (p, w1) \<Rightarrow>
      bindE (deref p) (\<lambda>r.
        if existDestination dest_id (store w1 r) then
          bindE (remDestination dest_id (store w1 r)) (\<lambda>(_, l).
            let w2 = set_list r l w1 in
            bindE (addStreamList src_id p w2) (\<lambda>w3. Inr (w3, k)))
        else Inr (w1, k)))"

definition readTimeStamp :: "int \<Rightarrow> worker \<Rightarrow> (int option \<times> worker) res" where
  "readTimeStamp src_id w =
     (case getStreamList src_id w of (p, w1) \<Rightarrow>
      bindE (deref p) (\<lambda>r. Inr (getTimeStamp (store w1 r), w1)))"

section \<open>The select loop\<close>

definition FD_SETSIZE :: int where
  "FD_SETSIZE = 1024"

fun set_fds :: "(int, int) umap \<Rightarrow> worker \<Rightarrow> worker res" where
  "set_fds [] w = Inr w"
| "set_fds ((port, fd) # es) w =
     (if 0 \<le> fd \<and> fd < FD_SETSIZE then
        set_fds es (w\<lparr>fdset := List.insert fd (fdset w),
                      highsock := (if fd > highsock w then fd else highsock w)\<rparr>)
      else Inl FdSetRange)"

definition build_select_list :: "'k env \<Rightarrow> worker \<Rightarrow> worker res" where
  "build_select_list E w =
     (let w1 = w\<lparr>highsock := -1, timeout := (15, 0), fdset := []\<rparr> in
      bindE (set_fds (iiter (key_order E) (portFd w1)) w1) (\<lambda>w2.
        Inr (w2\<lparr>highsock := highsock w2 + 1\<rparr>)))"

text \<open>The virtual \<^verbatim>\<open>process\<close> is an argument here; \<^verbatim>\<open>Worker::process\<close> itself does nothing.\<close>

type_synonym 'k proc = "int \<Rightarrow> worker \<Rightarrow> 'k \<Rightarrow> (worker \<times> 'k) res"

definition process_base :: "'k proc" where
  "process_base fd w k = Inr (w, k)"

fun check_fds :: "'k proc \<Rightarrow> (int, int) umap \<Rightarrow> worker \<Rightarrow> 'k \<Rightarrow> (worker \<times> 'k) res" where
  "check_fds proc [] w k = Inr (w, k)"
| "check_fds proc ((port, fd) # es) w k =
     (if fd \<in> set (fdset w) then bindE (proc fd w k) (\<lambda>(w1, k1). check_fds proc es w1 k1)
      else check_fds proc es w k)"

definition check_select_list :: "'k env \<Rightarrow> 'k proc \<Rightarrow> worker \<Rightarrow> 'k \<Rightarrow> (worker \<times> 'k) res" where
  "check_select_list E proc w k = check_fds proc (iiter (key_order E) (portFd w)) w k"

definition run_body :: "'k env \<Rightarrow> 'k proc \<Rightarrow> worker \<Rightarrow> 'k \<Rightarrow> (worker \<times> 'k) res" where
  "run_body E proc w k =
     (if length (portFd w) > 0 then
        bindE (build_select_list E w) (\<lambda>w1.
          case sys_select E (highsock w1 + 1) (fdset w1) (timeout w1) k of ((readsocks, ready), k1) \<Rightarrow>
            let w2 = w1\<lparr>fdset := ready\<rparr> in
            if readsocks > 0 then check_select_list E proc w2 k1
            else bindE (mk_message 0 (worker_id w2) idle_body) (\<lambda>m. Inr (w2, sendMessage E m k1)))
      else Inr (w, k))"

text \<open>\<^verbatim>\<open>while (working)\<close>, cut off after a number of rounds: nothing inside the loop ends it.\<close>

fun run :: "nat \<Rightarrow> 'k env \<Rightarrow> 'k proc \<Rightarrow> worker \<Rightarrow> 'k \<Rightarrow> (worker \<times> 'k) res" where
  "run 0 E proc w k = Inr (w, k)"
| "run (Suc n) E proc w k =
     (if working w then bindE (run_body E proc w k) (\<lambda>(w1, k1). run n E proc w1 k1)
      else Inr (w, k))"

section \<open>Printing the tables\<close>

fun print_lists :: "'k env \<Rightarrow> worker \<Rightarrow> (int, nat option) umap \<Rightarrow> string res" where
  "print_lists E w [] = Inr []"
| "print_lists E w ((i, b) # es) =
     (case b of None \<Rightarrow> print_lists E w es
      | Some r \<Rightarrow> bindE (printList_of E (store w r)) (\<lambda>s.
          bindE (print_lists E w es) (\<lambda>rest. Inr (s @ newline @ rest))))"

definition printManagement :: "'k env \<Rightarrow> worker \<Rightarrow> string res" where
  "printManagement E w =
     bindE (print_lists E w (iiter (key_order E) (management w))) (\<lambda>s.
       Inr (''Replication lists of worker '' @ show_int (getWorkerId w) @ newline @ s))"

definition printList :: "'k env \<Rightarrow> int \<Rightarrow> worker \<Rightarrow> (string \<times> worker) res" where
  "printList E src_id w =
     (case getStreamList src_id w of (b, w1) \<Rightarrow>
       (case b of None \<Rightarrow> Inl MissingReturn
        | Some r \<Rightarrow> bindE (printList_of E (store w1 r)) (\<lambda>s. Inr (s @ newline, w1))))"

definition printForwarding :: "'k env \<Rightarrow> worker \<Rightarrow> string" where
  "printForwarding E w =
     ''Sources of: '' @ show_int (getWorkerId w) @ newline @
     concat (map (\<lambda>(a, i). ''ListID: '' @ show_int i @ newline)
       (um_iter (addr_order E) sock_addr_cmp (forwarding w)))"

text \<open>
  \<^verbatim>\<open>workerId + "\n"\<close> adds an integer to a pointer to the two-character array of the literal: at
  offset 0 it reads as a line feed, at offset 1 as the empty string.
\<close>

definition literal_at :: "int \<Rightarrow> string \<Rightarrow> string res" where
  "literal_at n s = (if 0 \<le> n \<and> n \<le> int (length s) then Inr (drop (nat n) s) else Inl OutOfBounds)"

fun print_ports :: "int \<Rightarrow> (int, int) umap \<Rightarrow> string res" where
  "print_ports i [] = Inr []"
| "print_ports i ((port, fd) # es) =
     bindE (literal_at i newline) (\<lambda>t. bindE (print_ports i es) (\<lambda>rest.
       Inr (show_int port @ '' '' @ show_int fd @ '' in socketWoker '' @ t @ rest)))"

definition printPortFd :: "'k env \<Rightarrow> worker \<Rightarrow> string res" where
  "printPortFd E w =
     bindE (print_ports (worker_id w) (iiter (key_order E) (portFd w))) (\<lambda>s.
       Inr (''portFd size = '' @ show_int (int (length (portFd w))) @ '' in socketWoker '' @
            show_int (worker_id w) @ newline @ s))"

end
