(* ===== verification/Worker_Inv.thy ===== *)
theory Worker_Inv
  imports Worker_Core
begin

text \<open>
  The consistency of a worker's tables and the abstract view they implement.
  \<^item> \<open>routes_inv\<close>: \<open>management\<close> and \<open>forwarding\<close> are two indexes of one set of sources. Every
    list is registered under its own identifier and its own address, distinct sources have distinct
    objects and addresses, and an entry of the forwarding table is either the 0 that a failed look
    up leaves behind or the identifier of a live source.
  \<^item> \<open>sockets_inv\<close>: \<open>portFd\<close> and \<open>fdPort\<close> are inverse to each other, the listener count of a
    port is the number of sources on it, and a socket is open exactly while the count is positive.
  \<^item> \<open>worker_abs\<close>: the contract, a map from source identifiers to the source address and the
    destinations.
\<close>

section \<open>Invariants\<close>

definition source_entry :: "worker \<Rightarrow> int \<Rightarrow> nat \<Rightarrow> udp_stream \<Rightarrow> bool" where
  "source_entry w i r u \<longleftrightarrow>
     ifind (management w) i = Some (Some r) \<and> source (store w r) = Some u"

definition list_conforms :: "worker \<Rightarrow> int \<Rightarrow> nat \<Rightarrow> bool" where
  "list_conforms w i r \<longleftrightarrow>
     i \<noteq> 0 \<and> r < next_ref w \<and> listId (store w r) = i \<and> dest_ok (store w r) \<and>
     (\<exists>u. source (store w r) = Some u \<and> getId u = i \<and> afind (forwarding w) (addr u) = Some i)"

definition routes_inv :: "worker \<Rightarrow> bool" where
  "routes_inv w \<longleftrightarrow>
     iwf (management w) \<and> awf (forwarding w) \<and>
     (\<forall>i. ifind (management w) i = Some None \<longrightarrow> i = 0) \<and>
     (\<forall>i r. ifind (management w) i = Some (Some r) \<longrightarrow> list_conforms w i r) \<and>
     (\<forall>i j r. ifind (management w) i = Some (Some r) \<longrightarrow>
        ifind (management w) j = Some (Some r) \<longrightarrow> i = j) \<and>
     (\<forall>a i. afind (forwarding w) a = Some i \<longrightarrow>
        i = 0 \<or> (\<exists>r u. source_entry w i r u \<and> sock_addr_cmp (addr u) a))"

definition listeners :: "worker \<Rightarrow> int \<Rightarrow> int" where
  "listeners w p = (case ifind (portListener w) p of None \<Rightarrow> 0 | Some n \<Rightarrow> n)"

definition source_port :: "udp_stream \<Rightarrow> int" where
  "source_port u = uint (ntohs (sin_port (addr u)))"

definition on_port :: "worker \<Rightarrow> int \<Rightarrow> nat option \<Rightarrow> bool" where
  "on_port w p q \<longleftrightarrow>
     (case q of None \<Rightarrow> False | Some r \<Rightarrow> map_option source_port (source (store w r)) = Some p)"

definition n_sources :: "worker \<Rightarrow> int \<Rightarrow> nat" where
  "n_sources w p = length (filter (\<lambda>(_, q). on_port w p q) (management w))"

definition fds_inverse :: "worker \<Rightarrow> bool" where
  "fds_inverse w \<longleftrightarrow>
     iwf (portFd w) \<and> iwf (fdPort w) \<and>
     (\<forall>p fd. ifind (portFd w) p = Some fd \<longleftrightarrow> ifind (fdPort w) fd = Some p)"

definition sockets_inv :: "worker \<Rightarrow> bool" where
  "sockets_inv w \<longleftrightarrow>
     fds_inverse w \<and> iwf (portListener w) \<and>
     (\<forall>p. listeners w p = int (n_sources w p)) \<and>
     (\<forall>p. ifind (portFd w) p = None \<longleftrightarrow> listeners w p = 0)"

definition worker_ok :: "worker \<Rightarrow> bool" where
  "worker_ok w \<longleftrightarrow> routes_inv w \<and> sockets_inv w"

definition worker_abs :: "worker \<Rightarrow> int \<Rightarrow> (sockaddr_in \<times> (int \<Rightarrow> sockaddr_in option)) option" where
  "worker_abs w i =
     (case ifind (management w) i of
        Some (Some r) \<Rightarrow> map_option (\<lambda>u. (addr u, dest_map (store w r))) (source (store w r))
      | _ \<Rightarrow> None)"

lemma worker_abs_Some:
  "worker_abs w i = Some (a, D) \<longleftrightarrow>
     (\<exists>r u. source_entry w i r u \<and> addr u = a \<and> dest_map (store w r) = D)"
  by (auto simp: worker_abs_def source_entry_def split: option.splits)

section \<open>Consequences of the route invariant\<close>

lemma routes_entry:
  assumes "routes_inv w" and "ifind (management w) i = Some (Some r)"
  shows "list_conforms w i r"
  using assms by (auto simp: routes_inv_def)

lemma routes_null_zero: "routes_inv w \<Longrightarrow> ifind (management w) i = Some None \<Longrightarrow> i = 0"
  unfolding routes_inv_def by blast

lemma routes_entry_source:
  assumes "routes_inv w" and "ifind (management w) i = Some (Some r)"
  obtains u where "source_entry w i r u" and "getId u = i"
    and "afind (forwarding w) (addr u) = Some i" and "i \<noteq> 0"
  using routes_entry [OF assms] assms(2) by (auto simp: list_conforms_def source_entry_def)

lemma routes_forward:
  assumes "routes_inv w" and "afind (forwarding w) a = Some i" and "i \<noteq> 0"
  obtains r u where "source_entry w i r u" and "sock_addr_cmp (addr u) a"
  using assms unfolding routes_inv_def by blast

lemma routes_entry_fwd:
  assumes "routes_inv w" and "source_entry w i r u"
  shows "afind (forwarding w) (addr u) = Some i"
proof -
  have "list_conforms w i r"
    using assms by (auto simp: source_entry_def intro: routes_entry)
  then show ?thesis using assms(2) by (auto simp: list_conforms_def source_entry_def)
qed

text \<open>The address of a packet finds the identifier of the source registered for it, and only that.\<close>

lemma forwarding_lookup:
  assumes "routes_inv w" and "i \<noteq> 0"
  shows "afind (forwarding w) b = Some i \<longleftrightarrow>
    (\<exists>a D. worker_abs w i = Some (a, D) \<and> sock_addr_cmp a b)"
proof
  assume "afind (forwarding w) b = Some i"
  then obtain r u where "source_entry w i r u" and "sock_addr_cmp (addr u) b"
    using routes_forward [OF assms(1) _ assms(2)] by blast
  then show "\<exists>a D. worker_abs w i = Some (a, D) \<and> sock_addr_cmp a b"
    by (auto simp: worker_abs_Some)
next
  assume "\<exists>a D. worker_abs w i = Some (a, D) \<and> sock_addr_cmp a b"
  then obtain r u where e: "source_entry w i r u" and c: "sock_addr_cmp (addr u) b"
    by (auto simp: worker_abs_Some)
  have "afind (forwarding w) (addr u) = Some i" by (rule routes_entry_fwd [OF assms(1) e])
  then show "afind (forwarding w) b = Some i" using ak.find_cong [OF c] by metis
qed

lemma abs_address_unique:
  assumes "routes_inv w" and "worker_abs w i = Some (a, D)" and "worker_abs w j = Some (b, D')"
    and "sock_addr_cmp a b"
  shows "i = j"
proof -
  obtain r u where i: "source_entry w i r u" "addr u = a"
    using assms(2) by (auto simp: worker_abs_Some)
  obtain s v where j: "source_entry w j s v" "addr v = b"
    using assms(3) by (auto simp: worker_abs_Some)
  have "afind (forwarding w) a = Some i" using routes_entry_fwd [OF assms(1) i(1)] i(2) by simp
  moreover have "afind (forwarding w) b = Some j"
    using routes_entry_fwd [OF assms(1) j(1)] j(2) by simp
  ultimately show ?thesis using ak.find_cong [OF assms(4), of "forwarding w"] by simp
qed

lemma abs_id_nonzero: "routes_inv w \<Longrightarrow> worker_abs w i = Some x \<Longrightarrow> i \<noteq> 0"
  by (auto simp: worker_abs_def routes_inv_def list_conforms_def split: option.splits)

section \<open>The initial worker\<close>

lemma worker_ok_new: "worker_ok (Worker_new c i)"
  by (simp add: worker_ok_def Worker_new_def routes_inv_def sockets_inv_def fds_inverse_def
      listeners_def n_sources_def)

lemma worker_abs_new [simp]: "worker_abs (Worker_new c i) = Map.empty"
  by (simp add: Worker_new_def worker_abs_def fun_eq_iff)

text \<open>Fields the invariants do not read.\<close>

lemma routes_inv_frame:
  assumes "management w' = management w" "forwarding w' = forwarding w" "store w' = store w"
    "next_ref w' = next_ref w"
  shows "routes_inv w' = routes_inv w" "worker_abs w' = worker_abs w" "n_sources w' = n_sources w"
  by (simp_all add: assms routes_inv_def list_conforms_def source_entry_def worker_abs_def
      n_sources_def on_port_def fun_eq_iff cong: option.case_cong)

lemma sockets_inv_frame:
  assumes "portFd w' = portFd w" "fdPort w' = fdPort w" "portListener w' = portListener w"
    "n_sources w' = n_sources w"
  shows "sockets_inv w' = sockets_inv w"
  by (simp add: assms sockets_inv_def fds_inverse_def listeners_def)

section \<open>Look ups\<close>

lemma getStreamList_live:
  "ifind (management w) i = Some p \<Longrightarrow> getStreamList i w = (p, w)"
  by (simp add: getStreamList_def um_index_snd_find)

lemma getStreamList_absent:
  "ifind (management w) i = None \<Longrightarrow>
     getStreamList i w = (None, w\<lparr>management := management w @ [(i, None)]\<rparr>)"
  by (simp add: getStreamList_def um_index_none ik.put_absent)

lemma getListIdBySocket_eq:
  "getListIdBySocket a w =
     (case afind (forwarding w) a of
        Some i \<Rightarrow> (i, w)
      | None \<Rightarrow> (0, w\<lparr>forwarding := aput (forwarding w) a 0\<rparr>))"
  by (simp add: getListIdBySocket_def um_index_def split: option.splits)

text \<open>A failed look up leaves an entry 0 behind, which the invariant allows.\<close>

lemma routes_inv_miss:
  assumes "routes_inv w" and "afind (forwarding w) a = None"
  shows "routes_inv (w\<lparr>forwarding := aput (forwarding w) a 0\<rparr>)"
  unfolding routes_inv_def
proof (intro conjI allI impI)
  let ?w = "w\<lparr>forwarding := aput (forwarding w) a 0\<rparr>"
  note inv = assms(1) [unfolded routes_inv_def]
  show "iwf (management ?w)" "awf (forwarding ?w)" using inv by simp_all
  fix i j r
  show "ifind (management ?w) i = Some None \<Longrightarrow> i = 0" using inv by simp
  show "ifind (management ?w) i = Some (Some r) \<Longrightarrow> ifind (management ?w) j = Some (Some r) \<Longrightarrow> i = j"
    using inv by auto
  show "list_conforms ?w i r" if "ifind (management ?w) i = Some (Some r)"
  proof -
    have "list_conforms w i r" using routes_entry [OF assms(1)] that by simp
    then obtain u where u: "source (store w r) = Some u" "getId u = i"
        "afind (forwarding w) (addr u) = Some i"
      by (auto simp: list_conforms_def)
    have "\<not> sock_addr_cmp a (addr u)" using assms(2) u(3) ak.find_cong [of a _ "forwarding w"] by force
    with u \<open>list_conforms w i r\<close> show ?thesis by (simp add: list_conforms_def)
  qed
next
  fix b i
  assume "afind (forwarding (w\<lparr>forwarding := aput (forwarding w) a 0\<rparr>)) b = Some i"
  then have "i = 0 \<or> afind (forwarding w) b = Some i" by (auto split: if_splits)
  then show "i = 0 \<or> (\<exists>r u. source_entry (w\<lparr>forwarding := aput (forwarding w) a 0\<rparr>) i r u \<and>
      sock_addr_cmp (addr u) b)"
    using assms(1) by (auto simp: routes_inv_def source_entry_def)
qed

lemma getListIdBySocket_inv:
  assumes "routes_inv w" and "getListIdBySocket a w = (i, w')"
  shows "routes_inv w'" and "worker_abs w' = worker_abs w" and "n_sources w' = n_sources w"
    and "i = (case afind (forwarding w) a of Some i \<Rightarrow> i | None \<Rightarrow> 0)"
    and "\<And>b. afind (forwarding w') b = (if sock_addr_cmp a b \<and> afind (forwarding w) b = None
           then Some 0 else afind (forwarding w) b)"
    and "w' = w\<lparr>forwarding := forwarding w'\<rparr>"
proof -
  have w': "w' = (case afind (forwarding w) a of Some i \<Rightarrow> w
      | None \<Rightarrow> w\<lparr>forwarding := aput (forwarding w) a 0\<rparr>)"
    using assms(2) by (auto simp: getListIdBySocket_eq split: option.splits)
  then show "routes_inv w'" using assms(1) routes_inv_miss by (auto split: option.splits)
  show "worker_abs w' = worker_abs w" "n_sources w' = n_sources w"
    using w' by (auto simp: worker_abs_def n_sources_def on_port_def fun_eq_iff split: option.splits)
  show "i = (case afind (forwarding w) a of Some i \<Rightarrow> i | None \<Rightarrow> 0)"
    using assms(2) by (auto simp: getListIdBySocket_eq split: option.splits)
  have w_find: "afind (forwarding w') b = (if sock_addr_cmp a b \<and> afind (forwarding w) b = None
      then Some 0 else afind (forwarding w) b)" for b
    using w' ak.find_cong [of a b "forwarding w"] by (auto split: option.splits)
  show "w' = w\<lparr>forwarding := forwarding w'\<rparr>"
    using w' by (auto split: option.splits)
  show "\<And>b. afind (forwarding w') b = (if sock_addr_cmp a b \<and> afind (forwarding w) b = None
           then Some 0 else afind (forwarding w) b)"
    by (rule w_find)
qed

end
