(* ===== verification/Worker_Sockets.thy ===== *)
theory Worker_Sockets
  imports Worker_Inv
begin

text \<open>
  The socket table of a worker (\<^verbatim>\<open>add_socket\<close>, \<^verbatim>\<open>remove_socket\<close>, \<^verbatim>\<open>init_socket\<close>): reference
  counting of listening sockets. \<open>sockets_shape\<close> is the socket half of the worker invariant with
  the number of users of a port as a parameter, so that it can be stated between the moment a
  socket is counted and the moment its source is registered.
\<close>

definition sockets_shape :: "worker \<Rightarrow> (int \<Rightarrow> nat) \<Rightarrow> bool" where
  "sockets_shape w cnt \<longleftrightarrow>
     fds_inverse w \<and> iwf (portListener w) \<and>
     (\<forall>p. listeners w p = int (cnt p)) \<and>
     (\<forall>p. ifind (portFd w) p = None \<longleftrightarrow> cnt p = 0)"

lemma sockets_inv_shape: "sockets_inv w \<longleftrightarrow> sockets_shape w (n_sources w)"
  by (auto simp: sockets_inv_def sockets_shape_def)

definition fds_open :: "('k \<Rightarrow> int set) \<Rightarrow> worker \<Rightarrow> 'k \<Rightarrow> bool" where
  "fds_open opn w k \<longleftrightarrow> (\<forall>p fd. ifind (portFd w) p = Some fd \<longrightarrow> fd \<in> opn k)"

definition worker_fds :: "worker \<Rightarrow> int set" where
  "worker_fds w = {fd. \<exists>p. ifind (portFd w) p = Some fd}"

lemma fds_open_subset: "fds_open opn w k \<longleftrightarrow> worker_fds w \<subseteq> opn k"
  by (auto simp: fds_open_def worker_fds_def)

section \<open>Opening\<close>

lemma init_socket_ok:
  assumes "sockets_ok E opn" and "init_socket E port k = (fd, k')" and "fd \<noteq> -1"
  shows "0 \<le> fd" and "fd \<notin> opn k" and "opn k' = insert fd (opn k)"
proof -
  obtain s k1 where s: "sys_socket E k = (s, k1)" by (cases "sys_socket E k")
  obtain r k2 where r: "sys_bind E s \<lparr>sin_family = AF_INET, sin_port = htons (word_of_int port),
      sin_addr = INADDR_ANY\<rparr> k1 = (r, k2)" by fastforce
  have "\<not> s < 0" and "fd = s" and "k' = k2"
    using assms(2,3) by (auto simp: init_socket_def Let_def s r split: if_splits)
  then show "0 \<le> fd" and "fd \<notin> opn k" and "opn k' = insert fd (opn k)"
    using sockets_ok_socket [OF assms(1) s] sockets_ok_bind [OF assms(1) r] by auto
qed

text \<open>
  A failed \<open>init_socket\<close> closes nothing either: a descriptor that could not be bound stays open.
\<close>

lemma init_socket_fail:
  assumes "sockets_ok E opn" and "init_socket E port k = (-1, k')"
  shows "opn k \<subseteq> opn k'"
proof -
  obtain s k1 where s: "sys_socket E k = (s, k1)" by (cases "sys_socket E k")
  obtain r k2 where r: "sys_bind E s \<lparr>sin_family = AF_INET, sin_port = htons (word_of_int port),
      sin_addr = INADDR_ANY\<rparr> k1 = (r, k2)" by fastforce
  show ?thesis
  proof (cases "s < 0")
    case True
    then show ?thesis
      using assms sockets_ok_socket [OF assms(1) s] by (simp add: init_socket_def Let_def s)
  next
    case False
    then have "k' = k2" using assms(2) by (auto simp: init_socket_def Let_def s r split: if_splits)
    then show ?thesis
      using False sockets_ok_socket [OF assms(1) s] sockets_ok_bind [OF assms(1) r] by auto
  qed
qed

lemma add_socket_frame:
  assumes "add_socket E port w k = (ret, w', k')"
  shows "management w' = management w" "forwarding w' = forwarding w" "store w' = store w"
    "next_ref w' = next_ref w" "working w' = working w" "launched w' = launched w"
    "worker_id w' = worker_id w" "worker_type w' = worker_type w" "wclass w' = wclass w"
  using assms by (auto simp: add_socket_def Let_def split: prod.splits if_splits)

lemma shape_listeners: "sockets_shape w cnt \<Longrightarrow> listeners w p = int (cnt p)"
  by (simp add: sockets_shape_def)

lemma shape_portFd: "sockets_shape w cnt \<Longrightarrow> ifind (portFd w) p = None \<longleftrightarrow> cnt p = 0"
  by (simp add: sockets_shape_def)

lemma shape_inverse:
  "sockets_shape w cnt \<Longrightarrow> ifind (portFd w) p = Some fd \<longleftrightarrow> ifind (fdPort w) fd = Some p"
  by (simp add: sockets_shape_def fds_inverse_def)

lemma listeners_put [simp]:
  "listeners (w\<lparr>portListener := iput pl port n\<rparr>) p =
     (if port = p then n else listeners (w\<lparr>portListener := pl\<rparr>) p)"
  by (simp add: listeners_def)

lemma listeners_erase [simp]:
  "listeners (w\<lparr>portListener := ierase pl port\<rparr>) p =
     (if port = p then 0 else listeners (w\<lparr>portListener := pl\<rparr>) p)"
  by (simp add: listeners_def)

lemma listeners_touch [simp]:
  "listeners (w\<lparr>portListener := snd (iindex 0 (portListener w) port)\<rparr>) p = listeners w p"
  by (simp add: listeners_def split: option.splits)

lemma listeners_self [simp]: "listeners (w\<lparr>portListener := portListener w\<rparr>) p = listeners w p"
  by (simp add: listeners_def)

lemma listeners_fds [simp]:
  "listeners (w\<lparr>portFd := a\<rparr>) p = listeners w p" "listeners (w\<lparr>fdPort := b\<rparr>) p = listeners w p"
  by (simp_all add: listeners_def)

lemma sockets_shape_bump:
  assumes "sockets_shape w cnt" and "cnt port \<noteq> 0"
  shows "sockets_shape (w\<lparr>portListener := iput (portListener w) port (int (cnt port) + 1)\<rparr>)
       (cnt(port := Suc (cnt port)))"
  using assms by (auto simp: sockets_shape_def fds_inverse_def)

lemma sockets_shape_touch:
  assumes "sockets_shape w cnt"
  shows "sockets_shape (w\<lparr>portListener := snd (iindex 0 (portListener w) port)\<rparr>) cnt"
  using assms by (simp add: sockets_shape_def fds_inverse_def)

lemma sockets_shape_open:
  assumes shape: "sockets_shape w cnt" and c0: "cnt port = 0"
    and new: "\<And>p. ifind (portFd w) p \<noteq> Some fd"
    and pl: "iwf pl" "\<And>p. p \<noteq> port \<Longrightarrow> listeners (w\<lparr>portListener := pl\<rparr>) p = listeners w p"
  shows "sockets_shape (w\<lparr>portFd := iput (portFd w) port fd, fdPort := iput (fdPort w) fd port,
           portListener := iput pl port 1\<rparr>) (cnt(port := 1))"
proof -
  let ?w = "w\<lparr>portFd := iput (portFd w) port fd, fdPort := iput (fdPort w) fd port,
           portListener := iput pl port 1\<rparr>"
  have none: "ifind (portFd w) port = None" using shape_portFd [OF shape] c0 by simp
  have "ifind (fdPort w) f \<noteq> Some port" for f using none shape_inverse [OF shape] by force
  moreover have "ifind (fdPort w) fd \<noteq> Some p" for p using new shape_inverse [OF shape] by force
  ultimately have "fds_inverse ?w"
    using shape by (auto simp: sockets_shape_def fds_inverse_def)
  moreover have "listeners ?w p = int ((cnt(port := 1)) p)" for p
    using shape_listeners [OF shape, of p] pl(2) [of p] by (simp add: listeners_def)
  moreover have "ifind (portFd ?w) p = None \<longleftrightarrow> (cnt(port := 1)) p = 0" for p
    using shape_portFd [OF shape, of p] by simp
  ultimately show ?thesis using pl(1) by (simp add: sockets_shape_def)
qed

text \<open>The three ways through \<open>add_socket\<close>, and what the invariant makes of them.\<close>

lemma add_socket_cases:
  assumes shape: "sockets_shape w cnt" and run: "add_socket E port w k = (ret, w', k')"
  obtains
    (reuse) "cnt port \<noteq> 0" "ret = 0" "k' = k"
      "w' = w\<lparr>portListener := iput (portListener w) port (int (cnt port) + 1)\<rparr>"
  | (failed) "cnt port = 0" "ret = -1" "init_socket E port k = (-1, k')"
      "w' = w\<lparr>portListener := snd (iindex 0 (portListener w) port)\<rparr>"
  | (opened) fd where "cnt port = 0" "ret = 1" "init_socket E port k = (fd, k')" "fd \<noteq> -1"
      "w' = w\<lparr>portFd := iput (portFd w) port fd, fdPort := iput (fdPort w) fd port,
           portListener := iput (snd (iindex 0 (portListener w) port)) port 1\<rparr>"
proof -
  obtain n pl where i: "iindex 0 (portListener w) port = (n, pl)" by fastforce
  have n: "n = int (cnt port)"
    using shape_listeners [OF shape, of port] um_index_fst [of 0 "(=)" "portListener w" port] i
    by (simp add: listeners_def)
  obtain fd k1 where s: "init_socket E port k = (fd, k1)" by fastforce
  show thesis
  proof (cases "cnt port = 0")
    case False
    then have "ifind (portListener w) port \<noteq> None" using i n by (cases "ifind (portListener w) port") (auto simp: um_index_def)
    then have "pl = portListener w" using i by (auto simp: um_index_def)
    with False run i n show thesis by (intro reuse) (auto simp: add_socket_def)
  next
    case True
    show thesis
    proof (cases "fd = -1")
      case True
      with \<open>cnt port = 0\<close> run i n s show thesis by (intro failed) (auto simp: add_socket_def)
    next
      case False
      with \<open>cnt port = 0\<close> run i n s show thesis
        by (intro opened [of fd]) (auto simp: add_socket_def)
    qed
  qed
qed

lemma add_socket_shape:
  assumes shape: "sockets_shape w cnt" and os: "sockets_ok E opn" and fds: "fds_open opn w k"
    and run: "add_socket E port w k = (ret, w', k')"
  shows "opn k \<subseteq> opn k' \<and> fds_open opn w' k' \<and>
    (if ret = -1 then cnt port = 0 \<and> sockets_shape w' cnt \<and> portFd w' = portFd w
     else sockets_shape w' (cnt(port := Suc (cnt port))) \<and> hasPort port w' \<and>
       worker_fds w' - worker_fds w \<subseteq> opn k' - opn k)"
  using shape run
proof (cases rule: add_socket_cases)
  case reuse
  then have "icount (portFd w) port > 0" by (simp add: icount_pos shape_portFd [OF shape])
  with reuse sockets_shape_bump [OF shape] fds show ?thesis
    by (simp add: fds_open_def hasPort_def worker_fds_def)
next
  case failed
  have "opn k \<subseteq> opn k'" by (rule init_socket_fail [OF os failed(3)])
  with failed sockets_shape_touch [OF shape, of port] fds show ?thesis
    by (auto simp: fds_open_def)
next
  case (opened fd)
  note new = init_socket_ok [OF os opened(3,4)]
  have "ifind (portFd w) p \<noteq> Some fd" for p using fds new(2) by (auto simp: fds_open_def)
  moreover have "iwf (portListener w)" using shape by (simp add: sockets_shape_def)
  ultimately have "sockets_shape w' (cnt(port := 1))"
    unfolding opened(5) by (intro sockets_shape_open [OF shape opened(1)]) simp_all
  then show ?thesis
    using fds new opened
    by (auto simp: fds_open_def hasPort_def icount_pos worker_fds_def split: if_splits)
qed

section \<open>Closing\<close>

lemma remove_socket_frame:
  assumes "remove_socket E port w k = (b, w', k')"
  shows "management w' = management w" "forwarding w' = forwarding w" "store w' = store w"
    "next_ref w' = next_ref w" "working w' = working w" "launched w' = launched w"
    "worker_id w' = worker_id w" "worker_type w' = worker_type w" "wclass w' = wclass w"
  using assms by (auto simp: remove_socket_def Let_def split: prod.splits if_splits)

lemma sockets_shape_close:
  assumes shape: "sockets_shape w cnt" and one: "cnt port = 1"
    and fd: "ifind (portFd w) port = Some fd"
  shows "sockets_shape (w\<lparr>portFd := ierase (portFd w) port, fdPort := ierase (fdPort w) fd,
           portListener := ierase (iput (portListener w) port 0) port\<rparr>) (cnt(port := 0))"
    and "ifind (portFd w) p = Some fd \<Longrightarrow> p = port"
proof -
  note inv = shape_inverse [OF shape]
  have fd': "ifind (fdPort w) fd = Some port" using inv fd by simp
  then show uniq: "p = port" if "ifind (portFd w) p = Some fd" for p using inv that by simp
  let ?w = "w\<lparr>portFd := ierase (portFd w) port, fdPort := ierase (fdPort w) fd,
           portListener := ierase (iput (portListener w) port 0) port\<rparr>"
  have "ifind (fdPort w) f = Some port \<longleftrightarrow> f = fd" for f using inv [of port f] fd by auto
  with uniq have "fds_inverse ?w"
    using shape by (auto simp: sockets_shape_def fds_inverse_def)
  moreover have "listeners ?w p = int ((cnt(port := 0)) p)" for p
    using shape_listeners [OF shape, of p] by simp
  moreover have "ifind (portFd ?w) p = None \<longleftrightarrow> (cnt(port := 0)) p = 0" for p
    using shape_portFd [OF shape, of p] by simp
  ultimately show "sockets_shape ?w (cnt(port := 0))" using shape by (simp add: sockets_shape_def)
qed

lemma sockets_shape_drop:
  assumes "sockets_shape w cnt" and "cnt port = Suc (Suc n)"
  shows "sockets_shape (w\<lparr>portListener := iput (portListener w) port (int (Suc n))\<rparr>)
           (cnt(port := Suc n))"
  using assms by (auto simp: sockets_shape_def fds_inverse_def)

lemma remove_socket_cases:
  assumes shape: "sockets_shape w cnt" and used: "cnt port \<noteq> 0"
    and run: "remove_socket E port w k = (b, w', k')"
  obtains
    (closed) fd where "cnt port = 1" "b" "ifind (portFd w) port = Some fd" "k' = sys_close E fd k"
      "w' = w\<lparr>portFd := ierase (portFd w) port, fdPort := ierase (fdPort w) fd,
           portListener := ierase (iput (portListener w) port 0) port\<rparr>"
  | (kept) m where "cnt port = Suc (Suc m)" "\<not> b" "k' = k"
      "w' = w\<lparr>portListener := iput (portListener w) port (int (Suc m))\<rparr>"
proof -
  have "ifind (portListener w) port = Some (int (cnt port))"
    using shape_listeners [OF shape, of port] used by (auto simp: listeners_def split: option.splits)
  then have i: "iindex 0 (portListener w) port = (int (cnt port), portListener w)"
    by (simp add: um_index_def)
  obtain fd where fd: "ifind (portFd w) port = Some fd"
    using shape_portFd [OF shape, of port] used by auto
  show thesis
  proof (cases "cnt port = 1")
    case True
    with run i fd show thesis
      by (intro closed [of fd]) (auto simp: remove_socket_def Let_def um_index_snd_find)
  next
    case False
    then obtain m where "cnt port = Suc (Suc m)"
      using used by (metis One_nat_def not0_implies_Suc)
    with run i show thesis by (intro kept [of m]) (auto simp: remove_socket_def Let_def)
  qed
qed

lemma remove_socket_shape:
  assumes shape: "sockets_shape w cnt" and os: "sockets_ok E opn" and fds: "fds_open opn w k"
    and used: "cnt port \<noteq> 0" and run: "remove_socket E port w k = (b, w', k')"
  shows "sockets_shape w' (cnt(port := cnt port - 1)) \<and> (b \<longleftrightarrow> cnt port = 1) \<and>
    fds_open opn w' k' \<and>
    (if cnt port = 1
     then \<exists>fd. ifind (portFd w) port = Some fd \<and> opn k' = opn k - {fd} \<and> \<not> hasPort port w'
     else opn k' = opn k \<and> portFd w' = portFd w)"
  using shape used run
proof (cases rule: remove_socket_cases)
  case (closed fd)
  note close = sockets_shape_close [OF shape closed(1,3)]
  have "fds_open opn w' k'"
    using fds close(2) by (auto simp: fds_open_def closed sockets_ok_close [OF os] split: if_splits)
  with closed close(1) sockets_ok_close [OF os] show ?thesis
    by (simp add: hasPort_def um_count_def)
next
  case (kept m)
  with sockets_shape_drop [OF shape] fds show ?thesis by (auto simp: fds_open_def)
qed

text \<open>The descriptors of a worker after an operation, for the worker's neighbours.\<close>

lemma remove_socket_fds:
  assumes "remove_socket E port w k = (b, w', k')"
  shows "worker_fds w' \<subseteq> worker_fds w"
  using assms
  by (auto simp: remove_socket_def Let_def worker_fds_def um_index_def
      split: prod.splits if_splits option.splits)

end
