(* ===== verification/Worker_Ops.thy ===== *)
theory Worker_Ops
  imports Worker_Sockets
begin

text \<open>
  What the stream operations of \<^verbatim>\<open>Worker\<close> do to the contract \<open>worker_abs\<close> and to the invariants,
  on every branch: registering and unregistering a stream list, changing the destinations of a
  list in place, and \<^verbatim>\<open>addSource\<close>, \<^verbatim>\<open>removeSource\<close>, \<^verbatim>\<open>addDestination\<close>, \<^verbatim>\<open>removeDestination\<close>.
\<close>

section \<open>Registering a list\<close>

lemma addStreamList_again:
  assumes "routes_inv w" and "source_entry w i r u"
  shows "addStreamList i (Some r) w = Inr w"
proof -
  have m: "ifind (management w) i = Some (Some r)" and s: "source (store w r) = Some u"
    using assms(2) by (simp_all add: source_entry_def)
  have "afind (forwarding w) (addr u) = Some i" by (rule routes_entry_fwd [OF assms])
  then show ?thesis
    using m s by (simp add: addStreamList_def getSourceSockAddr_def getAddr_def um_put_same)
qed

definition register :: "int \<Rightarrow> stream_list \<Rightarrow> sockaddr_in \<Rightarrow> worker \<Rightarrow> worker" where
  "register i l a w = w\<lparr>store := (store w)(next_ref w := l), next_ref := Suc (next_ref w),
     management := iput (management w) i (Some (next_ref w)),
     forwarding := aput (forwarding w) a i\<rparr>"

lemma addStreamList_new:
  assumes "new_list l w = (r, w1)" and "source l = Some u"
  shows "addStreamList i (Some r) w1 = Inr (register i l (addr u) w)"
  using assms
  by (auto simp: new_list_def addStreamList_def register_def getSourceSockAddr_def getAddr_def)

text \<open>What a caller of \<open>register\<close> has checked: a new identifier and an address no source has.\<close>

definition fresh_source :: "worker \<Rightarrow> int \<Rightarrow> stream_list \<Rightarrow> udp_stream \<Rightarrow> bool" where
  "fresh_source w i l u \<longleftrightarrow>
     routes_inv w \<and> i \<noteq> 0 \<and> ifind (management w) i = None \<and>
     (\<forall>j. afind (forwarding w) (addr u) = Some j \<longrightarrow> j = 0) \<and>
     source l = Some u \<and> listId l = i \<and> getId u = i \<and> dest_ok l"

lemma fresh_sourceD:
  assumes "fresh_source w i l u"
  shows "routes_inv w" "i \<noteq> 0" "ifind (management w) i = None"
    "afind (forwarding w) (addr u) = Some j \<Longrightarrow> j = 0"
    "source l = Some u" "listId l = i" "getId u = i" "dest_ok l"
  using assms by (auto simp: fresh_source_def)

lemma store_old:
  "routes_inv w \<Longrightarrow> ifind (management w) j = Some (Some r) \<Longrightarrow> r \<noteq> next_ref w"
  using routes_entry by (fastforce simp: list_conforms_def)

lemma register_entry:
  assumes f: "fresh_source w i l u"
  shows "source_entry (register i l (addr u) w) j r v \<longleftrightarrow>
     (if j = i then r = next_ref w \<and> v = u else source_entry w j r v)"
  using store_old [OF fresh_sourceD(1) [OF f]] fresh_sourceD(5) [OF f]
  by (auto simp: source_entry_def register_def)

lemma register_conforms_old:
  assumes f: "fresh_source w i l u" and m: "ifind (management w) j = Some (Some r)"
  shows "list_conforms (register i l (addr u) w) j r"
proof -
  note inv = fresh_sourceD(1) [OF f]
  have old: "list_conforms w j r" by (rule routes_entry [OF inv m])
  then obtain v where v: "source (store w r) = Some v" "getId v = j"
      "afind (forwarding w) (addr v) = Some j" "j \<noteq> 0"
    by (auto simp: list_conforms_def)
  have "\<not> sock_addr_cmp (addr u) (addr v)"
    using fresh_sourceD(4) [OF f, of j] v(3,4) ak.find_cong [of "addr u" "addr v" "forwarding w"]
    by auto
  with old v store_old [OF inv m] show ?thesis
    by (simp add: list_conforms_def register_def)
qed

lemma register_conforms_new:
  "fresh_source w i l u \<Longrightarrow> list_conforms (register i l (addr u) w) i (next_ref w)"
  by (simp add: list_conforms_def register_def fresh_source_def)

lemma register_inv:
  assumes f: "fresh_source w i l u"
  shows "routes_inv (register i l (addr u) w)"
  unfolding routes_inv_def
proof (intro conjI allI impI)
  let ?w = "register i l (addr u) w"
  note inv = fresh_sourceD(1) [OF f]
  note old = inv [unfolded routes_inv_def]
  show "iwf (management ?w)" "awf (forwarding ?w)" using old by (simp_all add: register_def)
  fix j j' r
  show "ifind (management ?w) j = Some None \<Longrightarrow> j = 0"
    using old by (auto simp: register_def split: if_splits)
  show "ifind (management ?w) j = Some (Some r) \<Longrightarrow> ifind (management ?w) j' = Some (Some r) \<Longrightarrow> j = j'"
    using old store_old [OF inv] by (auto simp: register_def split: if_splits)
  show "list_conforms ?w j r" if "ifind (management ?w) j = Some (Some r)"
    using that register_conforms_old [OF f] register_conforms_new [OF f]
    by (cases "j = i") (auto simp: register_def)
next
  fix a j
  assume a: "afind (forwarding (register i l (addr u) w)) a = Some j"
  show "j = 0 \<or> (\<exists>r v. source_entry (register i l (addr u) w) j r v \<and> sock_addr_cmp (addr v) a)"
  proof (cases "sock_addr_cmp (addr u) a")
    case True
    then have "j = i" using a by (simp add: register_def)
    with True show ?thesis by (auto simp: register_entry [OF f])
  next
    case False
    then have "afind (forwarding w) a = Some j" using a by (simp add: register_def)
    then have "j = 0 \<or> (\<exists>r v. source_entry w j r v \<and> sock_addr_cmp (addr v) a)"
      using fresh_sourceD(1) [OF f] unfolding routes_inv_def by blast
    moreover have "\<not> source_entry w i r v" for r v
      using fresh_sourceD(3) [OF f] by (simp add: source_entry_def)
    ultimately show ?thesis by (auto simp: register_entry [OF f])
  qed
qed

lemma register_abs:
  assumes f: "fresh_source w i l u"
  shows "worker_abs (register i l (addr u) w) = (worker_abs w)(i \<mapsto> (addr u, dest_map l))"
proof
  fix j
  show "worker_abs (register i l (addr u) w) j = ((worker_abs w)(i \<mapsto> (addr u, dest_map l))) j"
    using store_old [OF fresh_sourceD(1) [OF f], of j] fresh_sourceD(5) [OF f]
    by (auto simp: worker_abs_def register_def split: option.splits)
qed

lemma on_port_register:
  "q \<noteq> Some (next_ref w) \<Longrightarrow> on_port (register i l a w) p q = on_port w p q"
  by (auto simp: on_port_def register_def split: option.splits)

lemma register_n_sources:
  assumes f: "fresh_source w i l u"
  shows "n_sources (register i l (addr u) w) =
     (n_sources w)(source_port u := Suc (n_sources w (source_port u)))"
proof
  fix p
  have wf: "iwf (management w)" using fresh_sourceD(1) [OF f] by (simp add: routes_inv_def)
  have "q \<noteq> Some (next_ref w)" if "(j, q) \<in> set (management w)" for j q
    using ik.wf_find_in [OF wf that] store_old [OF fresh_sourceD(1) [OF f], of j] by auto
  then have "filter (\<lambda>(_, q). on_port (register i l (addr u) w) p q) (management w) =
      filter (\<lambda>(_, q). on_port w p q) (management w)"
    by (intro filter_cong) (auto simp: on_port_register)
  moreover have "management (register i l (addr u) w) = management w @ [(i, Some (next_ref w))]"
    by (simp add: register_def ik.put_absent [OF fresh_sourceD(3) [OF f]])
  moreover have "on_port (register i l (addr u) w) p (Some (next_ref w)) \<longleftrightarrow> source_port u = p"
    by (simp add: on_port_def register_def fresh_sourceD(5) [OF f])
  ultimately show "n_sources (register i l (addr u) w) p =
      ((n_sources w)(source_port u := Suc (n_sources w (source_port u)))) p"
    by (simp add: n_sources_def)
qed

section \<open>Unregistering a list\<close>

definition unregister :: "int \<Rightarrow> sockaddr_in \<Rightarrow> worker \<Rightarrow> worker" where
  "unregister i a w = w\<lparr>forwarding := aerase (forwarding w) a, management := ierase (management w) i\<rparr>"

lemma removeStreamList_eq:
  assumes "source_entry w i r u"
  shows "removeStreamList i w = Inr (unregister i (addr u) w)"
  using assms
  by (simp add: removeStreamList_def getStreamList_live source_entry_def getSourceSockAddr_def
      getAddr_def unregister_def Let_def)

lemma unregister_entry:
  "source_entry (unregister i a w) j r v \<longleftrightarrow> j \<noteq> i \<and> source_entry w j r v"
  by (auto simp: source_entry_def unregister_def)

lemma unregister_inv:
  assumes inv: "routes_inv w" and e: "source_entry w i r u"
  shows "routes_inv (unregister i (addr u) w)"
  unfolding routes_inv_def
proof (intro conjI allI impI)
  let ?w = "unregister i (addr u) w"
  note old = inv [unfolded routes_inv_def]
  show "iwf (management ?w)" "awf (forwarding ?w)" using old by (simp_all add: unregister_def)
  fix j j' s
  show "ifind (management ?w) j = Some None \<Longrightarrow> j = 0"
    using old by (auto simp: unregister_def split: if_splits)
  show "ifind (management ?w) j = Some (Some s) \<Longrightarrow> ifind (management ?w) j' = Some (Some s) \<Longrightarrow> j = j'"
    using old by (auto simp: unregister_def split: if_splits)
  show "list_conforms ?w j s" if "ifind (management ?w) j = Some (Some s)"
  proof -
    have ji: "j \<noteq> i" and m: "ifind (management w) j = Some (Some s)"
      using that by (auto simp: unregister_def split: if_splits)
    have c: "list_conforms w j s" by (rule routes_entry [OF inv m])
    then obtain v where v: "source (store w s) = Some v" "afind (forwarding w) (addr v) = Some j"
      by (auto simp: list_conforms_def)
    have "afind (forwarding w) (addr u) = Some i" by (rule routes_entry_fwd [OF inv e])
    then have "\<not> sock_addr_cmp (addr u) (addr v)"
      using v(2) ji ak.find_cong [of "addr u" "addr v" "forwarding w"] by auto
    with c v show ?thesis by (simp add: list_conforms_def unregister_def)
  qed
next
  fix a j
  assume "afind (forwarding (unregister i (addr u) w)) a = Some j"
  then have nc: "\<not> sock_addr_cmp (addr u) a" and "afind (forwarding w) a = Some j"
    by (auto simp: unregister_def split: if_splits)
  then have "j = 0 \<or> (\<exists>s v. source_entry w j s v \<and> sock_addr_cmp (addr v) a)"
    using inv unfolding routes_inv_def by blast
  moreover have "j \<noteq> i" if "source_entry w j s v" "sock_addr_cmp (addr v) a" for s v
    using that e nc by (auto simp: source_entry_def)
  ultimately show "j = 0 \<or> (\<exists>s v. source_entry (unregister i (addr u) w) j s v \<and>
      sock_addr_cmp (addr v) a)"
    by (auto simp: unregister_entry)
qed

lemma unregister_abs: "worker_abs (unregister i a w) = (worker_abs w)(i := None)"
  by (auto simp: worker_abs_def unregister_def fun_eq_iff split: option.splits)

lemma on_port_unregister [simp]: "on_port (unregister i a w) p q = on_port w p q"
  by (simp add: on_port_def unregister_def split: option.splits)

lemma unregister_n_sources:
  assumes "routes_inv w" and "source_entry w i r u"
  shows "n_sources w (source_port u) \<noteq> 0" and
    "n_sources (unregister i a w) = (n_sources w)(source_port u := n_sources w (source_port u) - 1)"
proof -
  have wf: "iwf (management w)" and m: "ifind (management w) i = Some (Some r)"
    using assms by (simp_all add: routes_inv_def source_entry_def)
  have "on_port w p (Some r) \<longleftrightarrow> source_port u = p" for p
    using assms(2) by (simp add: on_port_def source_entry_def)
  then have "length (filter (\<lambda>(_, q). on_port w p q) (management w)) =
      length (filter (\<lambda>(_, q). on_port w p q) (ierase (management w) i)) +
      (if source_port u = p then 1 else 0)" for p
    using length_filter_erase [OF wf m, of "\<lambda>(_, q). on_port w p q"] by simp
  then have n: "n_sources w p = n_sources (unregister i a w) p + (if source_port u = p then 1 else 0)" for p
    by (simp add: n_sources_def) (simp add: unregister_def)
  show "n_sources w (source_port u) \<noteq> 0" by (simp add: n)
  show "n_sources (unregister i a w) = (n_sources w)(source_port u := n_sources w (source_port u) - 1)"
    by (rule ext) (simp add: n)
qed

section \<open>Changing a list in place\<close>

lemma set_list_inv:
  assumes inv: "routes_inv w" and e: "source_entry w i r u"
    and l: "source l = source (store w r)" "listId l = listId (store w r)" "dest_ok l"
  shows "routes_inv (set_list r l w)"
    and "worker_abs (set_list r l w) = (worker_abs w)(i \<mapsto> (addr u, dest_map l))"
    and "n_sources (set_list r l w) = n_sources w"
    and "source_entry (set_list r l w) j s v = source_entry w j s v"
proof -
  have ent: "source_entry (set_list r l w) j s v = source_entry w j s v" for j s v
    by (simp add: source_entry_def set_list_def l(1))
  then show "source_entry (set_list r l w) j s v = source_entry w j s v" .
  show "routes_inv (set_list r l w)"
  proof -
    have c: "list_conforms w j s \<Longrightarrow> list_conforms (set_list r l w) j s" for j s
      by (auto simp: set_list_def list_conforms_def l)
    have m: "management (set_list r l w) = management w" "forwarding (set_list r l w) = forwarding w"
      by (simp_all add: set_list_def)
    show ?thesis using inv c unfolding routes_inv_def ent m by blast
  qed
  show "n_sources (set_list r l w) = n_sources w"
  proof -
    have "on_port (set_list r l w) p q = on_port w p q" for p q
      by (auto simp: on_port_def set_list_def l(1) split: option.splits)
    then show ?thesis by (simp add: n_sources_def fun_eq_iff) (simp add: set_list_def)
  qed
  show "worker_abs (set_list r l w) = (worker_abs w)(i \<mapsto> (addr u, dest_map l))"
  proof
    fix j
    show "worker_abs (set_list r l w) j = ((worker_abs w)(i \<mapsto> (addr u, dest_map l))) j"
    proof (cases "j = i")
      case True
      with e show ?thesis by (simp add: worker_abs_def set_list_def source_entry_def l(1))
    next
      case False
      have "ifind (management w) j \<noteq> Some (Some r)"
        using inv e False unfolding routes_inv_def source_entry_def by blast
      then have "worker_abs (set_list r l w) j = worker_abs w j"
        by (cases "ifind (management w) j")
          (auto simp: worker_abs_def set_list_def split: option.split)
      with False show ?thesis by simp
    qed
  qed
qed

end
