(* ===== verification/Worker_Contract.thy ===== *)
theory Worker_Contract
  imports Worker_Ops
begin

text \<open>
  The contract of the four operations a manager calls on a \<^verbatim>\<open>Worker\<close>: each keeps the invariant
  and acts on the map of sources as the operation's name says. \<open>op_frame\<close> collects what no
  operation changes and what the operations may do to the descriptors of the process.
\<close>

definition source_addr :: "'k env \<Rightarrow> string \<Rightarrow> int \<Rightarrow> 'k \<Rightarrow> sockaddr_in" where
  "source_addr E ip port k = addr (setAddr E ip port (UdpStream_new E 0 k))"

lemma addr_setAddr_setId [simp]:
  "addr (setAddr E ip p (setId i (UdpStream_new E 0 k))) = source_addr E ip p k"
  by (simp add: setAddr_def setId_def source_addr_def Let_def)

lemma source_port_setAddr:
  "valid_port p \<Longrightarrow> source_port (setAddr E ip p u) = p"
  by (simp add: source_port_def uint_valid_port)

definition has_source :: "(int \<Rightarrow> (sockaddr_in \<times> (int \<Rightarrow> sockaddr_in option)) option) \<Rightarrow> sockaddr_in \<Rightarrow> bool" where
  "has_source A a \<longleftrightarrow> (\<exists>j c D. A j = Some (c, D) \<and> sock_addr_cmp c a)"

lemma has_source_forwarding:
  assumes "routes_inv w"
  shows "has_source (worker_abs w) a \<longleftrightarrow>
    (case afind (forwarding w) a of Some j \<Rightarrow> j | None \<Rightarrow> 0) \<noteq> 0"
proof
  assume "has_source (worker_abs w) a"
  then obtain j c D where h: "worker_abs w j = Some (c, D)" "sock_addr_cmp c a"
    by (auto simp: has_source_def)
  have "j \<noteq> 0" by (rule abs_id_nonzero [OF assms h(1)])
  moreover have "afind (forwarding w) a = Some j"
    using forwarding_lookup [OF assms \<open>j \<noteq> 0\<close>] h by blast
  ultimately show "(case afind (forwarding w) a of Some j \<Rightarrow> j | None \<Rightarrow> 0) \<noteq> 0" by simp
next
  assume "(case afind (forwarding w) a of Some j \<Rightarrow> j | None \<Rightarrow> 0) \<noteq> 0"
  then obtain j where "afind (forwarding w) a = Some j" "j \<noteq> 0"
    by (auto split: option.splits)
  then show "has_source (worker_abs w) a"
    using forwarding_lookup [OF assms] unfolding has_source_def by blast
qed

lemma fresh_id:
  assumes "routes_inv w" and "i \<noteq> 0" and "worker_abs w i = None"
  shows "ifind (management w) i = None"
proof (cases "ifind (management w) i")
  case (Some q)
  then have "q \<noteq> None" using routes_null_zero [OF assms(1)] assms(2) by (cases q) auto
  then obtain r where r: "ifind (management w) i = Some (Some r)" using Some by auto
  then have "list_conforms w i r" by (rule routes_entry [OF assms(1)])
  with r assms(3) show ?thesis by (auto simp: list_conforms_def worker_abs_def)
qed simp

lemma hasPort_iff: "hasPort p w \<longleftrightarrow> ifind (portFd w) p \<noteq> None"
  using icount_pos [of "portFd w" p] by (simp add: hasPort_def)

section \<open>Frames\<close>

definition same_worker :: "worker \<Rightarrow> worker \<Rightarrow> bool" where
  "same_worker w w' \<longleftrightarrow> wclass w' = wclass w \<and> worker_id w' = worker_id w \<and>
     worker_type w' = worker_type w \<and> launched w' = launched w"

definition op_frame :: "('k \<Rightarrow> int set) \<Rightarrow> worker \<Rightarrow> 'k \<Rightarrow> worker \<Rightarrow> 'k \<Rightarrow> bool" where
  "op_frame opn w k w' k' \<longleftrightarrow>
     same_worker w w' \<and> fds_open opn w' k' \<and>
     worker_fds w' - worker_fds w \<subseteq> opn k' - opn k \<and>
     opn k - opn k' \<subseteq> worker_fds w"

lemma op_frame_refl: "fds_open opn w k \<Longrightarrow> op_frame opn w k w k"
  by (simp add: op_frame_def same_worker_def)

lemma op_frame_cong:
  assumes "same_worker w w'" and "portFd w' = portFd w" and "fds_open opn w k" and "opn k' = opn k"
  shows "op_frame opn w k w' k'"
  using assms by (simp add: op_frame_def fds_open_def worker_fds_def)

lemma same_worker_refl [simp]: "same_worker w w"
  by (simp add: same_worker_def)

lemma sockets_shape_cong:
  "portFd w' = portFd w \<Longrightarrow> fdPort w' = fdPort w \<Longrightarrow> portListener w' = portListener w \<Longrightarrow>
     sockets_shape w' cnt = sockets_shape w cnt"
  by (simp add: sockets_shape_def fds_inverse_def listeners_def)

lemma worker_okD:
  assumes "worker_ok w"
  shows "routes_inv w" "sockets_shape w (n_sources w)"
  using assms by (simp_all add: worker_ok_def sockets_inv_shape)

lemma worker_okI: "routes_inv w \<Longrightarrow> sockets_shape w (n_sources w) \<Longrightarrow> worker_ok w"
  by (simp add: worker_ok_def sockets_inv_shape)

section \<open>addSource\<close>

text \<open>The part after the duplicate check: socket, then registration.\<close>

lemma add_socket_register:
  assumes inv: "routes_inv w" and shape: "sockets_shape w (n_sources w)"
    and os: "sockets_ok E opn" and fds: "fds_open opn w k"
    and f: "fresh_source w i l u" and port: "source_port u = port"
    and s: "add_socket E port w k = (ret, w2, k1)"
  shows "ret \<noteq> -1 \<Longrightarrow> worker_ok (register i l (addr u) w2) \<and>
      worker_abs (register i l (addr u) w2) = (worker_abs w)(i \<mapsto> (addr u, dest_map l)) \<and>
      hasPort port (register i l (addr u) w2) \<and>
      op_frame opn w k (register i l (addr u) w2) k1"
    and "ret = -1 \<Longrightarrow> worker_ok w2 \<and> worker_abs w2 = worker_abs w \<and> \<not> hasPort port w \<and>
      op_frame opn w k w2 k1"
proof -
  note fr = add_socket_frame [OF s]
  note frame = routes_inv_frame [OF fr(1-4)]
  have inv2: "routes_inv w2" using inv by (simp add: frame)
  have same: "same_worker w w2" by (simp add: same_worker_def fr)
  note res = add_socket_shape [OF shape os fds s]
  have f2: "fresh_source w2 i l u"
    using f by (simp add: fresh_source_def fr frame)
  show "worker_ok (register i l (addr u) w2) \<and>
      worker_abs (register i l (addr u) w2) = (worker_abs w)(i \<mapsto> (addr u, dest_map l)) \<and>
      hasPort port (register i l (addr u) w2) \<and>
      op_frame opn w k (register i l (addr u) w2) k1" if "ret \<noteq> -1"
  proof (intro conjI)
    let ?w = "register i l (addr u) w2"
    have reg: "portFd ?w = portFd w2" "fdPort ?w = fdPort w2" "portListener ?w = portListener w2"
      by (simp_all add: register_def)
    have "sockets_shape w2 ((n_sources w)(port := Suc (n_sources w port)))"
      using res that by simp
    then have "sockets_shape ?w (n_sources ?w)"
      by (simp add: sockets_shape_cong [OF reg] register_n_sources [OF f2] port frame)
    then show "worker_ok ?w" by (rule worker_okI [OF register_inv [OF f2]])
    show "worker_abs ?w = (worker_abs w)(i \<mapsto> (addr u, dest_map l))"
      by (simp add: register_abs [OF f2] frame)
    show "hasPort port ?w" using res that by (simp add: hasPort_iff reg)
    have "same_worker w ?w" using same by (simp add: same_worker_def register_def)
    then show "op_frame opn w k ?w k1"
      using res that by (auto simp: op_frame_def fds_open_def worker_fds_def reg)
  qed
  show "worker_ok w2 \<and> worker_abs w2 = worker_abs w \<and> \<not> hasPort port w \<and> op_frame opn w k w2 k1"
    if "ret = -1"
    using res that inv2 same shape
    by (auto simp: frame op_frame_def worker_fds_def fds_open_def hasPort_iff shape_portFd
        intro: worker_okI)
qed

text \<open>
  The body that \<^verbatim>\<open>Worker::addSource\<close> and \<^verbatim>\<open>StatsWorker::addSource\<close> share, up to the class of the
  new list object.
\<close>

definition add_with :: "'k env \<Rightarrow> udp_stream \<Rightarrow> stream_list \<Rightarrow> int \<Rightarrow> int \<Rightarrow> worker \<Rightarrow> 'k \<Rightarrow>
    (bool \<times> worker \<times> 'k) res" where
  "add_with E u l0 i port w k =
     (case getListIdBySocket (getAddr u) w of (j, w1) \<Rightarrow>
        if j \<noteq> 0 then Inr (False, w1, k)
        else case add_socket E port w1 k of (ret, w2, k1) \<Rightarrow>
          if ret \<noteq> -1 then
            (case new_list (setSource u (setListId i l0)) w2 of (r, w3) \<Rightarrow>
              bindE (addStreamList i (Some r) w3) (\<lambda>w4. Inr (True, w4, k1)))
          else Inr (False, w2, k1))"

lemma addSource_with:
  "addSource E i ip port w k =
     add_with E (setAddr E ip port (setId i (UdpStream_new E 0 k))) StreamList_new i port w k"
  unfolding addSource_def add_with_def Let_def by (rule refl)

lemma add_with_contract:
  assumes ok: "worker_ok w" and os: "sockets_ok E opn" and fds: "fds_open opn w k"
    and new: "i \<noteq> 0" "worker_abs w i = None"
    and u: "getId u = i" "source_port u = port" and l0: "destinations l0 = []"
  shows "ensures (add_with E u l0 i port w k) (\<lambda>(b, w', k').
    worker_ok w' \<and> op_frame opn w k w' k' \<and> working w' = working w \<and>
    (if has_source (worker_abs w) (addr u) then \<not> b \<and> worker_abs w' = worker_abs w
     else if b then worker_abs w' = (worker_abs w)(i \<mapsto> (addr u, Map.empty)) \<and> hasPort port w' \<and>
       store w' = (store w)(next_ref w := setSource u (setListId i l0)) \<and>
       ifind (management w') i = Some (Some (next_ref w))
     else worker_abs w' = worker_abs w \<and> \<not> hasPort port w) \<and>
    (\<not> b \<longrightarrow> store w' = store w) \<and>
    (\<forall>j. j \<noteq> i \<longrightarrow> ifind (management w') j = ifind (management w) j))"
proof -
  note inv = worker_okD [OF ok]
  define l where "l = setSource u (setListId i l0)"
  have l: "source l = Some u" "listId l = i" "dest_ok l" "dest_map l = Map.empty"
    using l0 by (simp_all add: l_def setSource_def setListId_def dest_ok_def dest_map_def)
  obtain j w1 where g: "getListIdBySocket (addr u) w = (j, w1)" by fastforce
  note look = getListIdBySocket_inv [OF inv(1) g]
  obtain f1 where fwd: "w1 = w\<lparr>forwarding := f1\<rparr>" using look(6) by blast
  have tables: "management w1 = management w" "portFd w1 = portFd w" "fdPort w1 = fdPort w"
      "portListener w1 = portListener w" "working w1 = working w" "same_worker w w1"
      "store w1 = store w" "next_ref w1 = next_ref w"
    by (simp_all add: fwd same_worker_def)
  have dup: "has_source (worker_abs w) (addr u) \<longleftrightarrow> j \<noteq> 0"
    by (simp add: has_source_forwarding [OF inv(1)] look(4))
  show ?thesis
  proof (cases "j = 0")
    case False
    then have "add_with E u l0 i port w k = Inr (False, w1, k)"
      by (simp add: add_with_def getAddr_def g)
    moreover have "worker_ok w1"
      using look(1) inv(2) by (intro worker_okI) (simp_all add: look(3) sockets_shape_cong [of w1 w] tables)
    moreover have "op_frame opn w k w1 k"
      by (rule op_frame_cong) (simp_all add: tables fds)
    ultimately show ?thesis using dup False look(2) by (simp add: tables)
  next
    case True
    have f: "fresh_source w1 i l u"
      unfolding fresh_source_def
    proof (intro conjI allI impI)
      show "ifind (management w1) i = None"
        using fresh_id [OF inv(1) new] by (simp add: tables)
      fix m assume "afind (forwarding w1) (addr u) = Some m"
      then show "m = 0" using look(4,5) True by (auto split: if_splits option.splits)
    qed (use look(1) new l u in auto)
    have shape: "sockets_shape w1 (n_sources w1)"
      using inv(2) by (simp add: look(3) sockets_shape_cong [of w1 w] tables)
    have fds1: "fds_open opn w1 k" using fds by (simp add: fds_open_def tables)
    obtain ret w2 k1 where s: "add_socket E port w1 k = (ret, w2, k1)" by (metis prod_cases3)
    note res = add_socket_register [OF look(1) shape os fds1 f u(2) s]
    note fr = add_socket_frame [OF s]
    have frm: "op_frame opn w1 k w' k' = op_frame opn w k w' k'" for w' k'
      using tables by (simp add: op_frame_def same_worker_def worker_fds_def)
    obtain r w3 where n: "new_list l w2 = (r, w3)" by fastforce
    have run: "add_with E u l0 i port w k =
        (if ret \<noteq> -1 then Inr (True, register i l (addr u) w2, k1) else Inr (False, w2, k1))"
      using addStreamList_new [OF n l(1), of i] n True
      by (simp add: add_with_def getAddr_def g l_def [symmetric] s)
    have reg: "working (register i l (addr u) w2) = working w"
        "store (register i l (addr u) w2) = (store w)(next_ref w := l)"
        "ifind (management (register i l (addr u) w2)) m =
          (if m = i then Some (Some (next_ref w)) else ifind (management w) m)" for m
      by (simp_all add: register_def fr tables)
    show ?thesis
    proof (cases "ret = -1")
      case True
      with res(2) dup \<open>j = 0\<close> show ?thesis
        by (simp add: run frm look(2) hasPort_iff tables fr)
    next
      case False
      with res(1) dup \<open>j = 0\<close> show ?thesis
        by (simp add: run frm l look(2) reg l_def [symmetric])
    qed
  qed
qed

theorem addSource_contract:
  assumes ok: "worker_ok w" and os: "sockets_ok E opn" and fds: "fds_open opn w k"
    and new: "i \<noteq> 0" "worker_abs w i = None" and vp: "valid_port port"
    and a: "a = source_addr E ip port k"
  shows "ensures (addSource E i ip port w k) (\<lambda>(b, w', k').
    worker_ok w' \<and> op_frame opn w k w' k' \<and> working w' = working w \<and>
    (if has_source (worker_abs w) a then \<not> b \<and> worker_abs w' = worker_abs w
     else if b then worker_abs w' = (worker_abs w)(i \<mapsto> (a, Map.empty)) \<and> hasPort port w'
     else worker_abs w' = worker_abs w \<and> \<not> hasPort port w))"
  unfolding addSource_with a
  by (rule ensures_mono [OF add_with_contract [OF ok os fds new]])
    (auto simp: source_port_setAddr [OF vp] StreamList_new_def clear_def setListId_def
      split: if_splits prod.splits)

section \<open>removeSource\<close>

lemma entry_of_abs:
  assumes "worker_abs w i = Some (a, D)"
  obtains r u where "source_entry w i r u" "addr u = a" "dest_map (store w r) = D"
    "getStreamList i w = (Some r, w)" "source (store w r) = Some u"
  using assms by (auto simp: worker_abs_Some source_entry_def getStreamList_live)

definition port_of :: "sockaddr_in \<Rightarrow> int" where
  "port_of a = uint (ntohs (sin_port a))"

lemma source_port_of: "source_port u = port_of (addr u)"
  by (simp add: source_port_def port_of_def)

text \<open>The platform after the socket of a port has lost one user.\<close>

definition after_close :: "'k env \<Rightarrow> worker \<Rightarrow> int \<Rightarrow> 'k \<Rightarrow> 'k" where
  "after_close E w p k =
     (if n_sources w p = 1 then sys_close E (the (ifind (portFd w) p)) k else k)"

definition no_job_message :: "worker \<Rightarrow> message" where
  "no_job_message w = \<lparr>msg_type = 100, msg_from = worker_id w, msg_body = no_job_body\<rparr>"

lemma remove_socket_unregister:
  assumes inv: "routes_inv w" and shape: "sockets_shape w (n_sources w)"
    and os: "sockets_ok E opn" and fds: "fds_open opn w k"
    and e: "source_entry w i r u" and s: "remove_socket E (source_port u) w k = (b, w2, k1)"
  shows "worker_ok (unregister i (addr u) w2)"
    and "worker_abs (unregister i (addr u) w2) = (worker_abs w)(i := None)"
    and "source_entry w2 i r u"
    and "op_frame opn w k (unregister i (addr u) w2) k1"
    and "hasPort (source_port u) (unregister i (addr u) w2) \<longleftrightarrow> n_sources w (source_port u) \<noteq> 1"
    and "k1 = after_close E w (source_port u) k"
proof -
  let ?p = "source_port u" and ?w = "unregister i (addr u) w2"
  note fr = remove_socket_frame [OF s]
  note frame = routes_inv_frame [OF fr(1-4)]
  show e2: "source_entry w2 i r u" using e by (simp add: source_entry_def fr)
  have inv2: "routes_inv w2" using inv by (simp add: frame)
  have used: "n_sources w ?p \<noteq> 0" by (rule unregister_n_sources(1) [OF inv e])
  note res = remove_socket_shape [OF shape os fds used s]
  have reg: "portFd ?w = portFd w2" "fdPort ?w = fdPort w2" "portListener ?w = portListener w2"
    by (simp_all add: unregister_def)
  have n: "n_sources ?w = (n_sources w)(?p := n_sources w ?p - 1)"
    using unregister_n_sources(2) [OF inv2 e2] by (simp add: frame)
  have "sockets_shape ?w (n_sources ?w)"
    using res by (simp add: sockets_shape_cong [OF reg] n)
  then show "worker_ok ?w" by (rule worker_okI [OF unregister_inv [OF inv2 e2]])
  show "worker_abs ?w = (worker_abs w)(i := None)" by (simp add: unregister_abs frame)
  have same: "same_worker w ?w" by (simp add: same_worker_def unregister_def fr)
  have "worker_fds w2 \<subseteq> worker_fds w" by (rule remove_socket_fds [OF s])
  moreover have "opn k - opn k1 \<subseteq> worker_fds w"
    using res by (auto simp: worker_fds_def split: if_splits)
  ultimately show "op_frame opn w k ?w k1"
    using same res by (auto simp: op_frame_def fds_open_def worker_fds_def reg)
  show "hasPort ?p ?w \<longleftrightarrow> n_sources w ?p \<noteq> 1"
    using res used shape_portFd [OF shape, of ?p] by (auto simp: hasPort_iff reg split: if_splits)
  from shape used s show "k1 = after_close E w ?p k"
    by (cases rule: remove_socket_cases) (simp_all add: after_close_def)
qed

lemma opn_sendMessage: "sockets_ok E opn \<Longrightarrow> opn (sendMessage E m k) = opn k"
  using sockets_ok_neutral(6) [of E opn m k] sockets_ok_neutral(8) [of E opn]
  by (auto simp: sendMessage_def split: prod.splits)

theorem removeSource_contract:
  assumes ok: "worker_ok w" and os: "sockets_ok E opn" and fds: "fds_open opn w k"
    and src: "worker_abs w i = Some (a, D)" and th: "launched w"
  shows "ensures (removeSource E i w k) (\<lambda>(w', k').
    worker_ok w' \<and> op_frame opn w k w' k' \<and>
    worker_abs w' = (worker_abs w)(i := None) \<and>
    working w' = (working w \<and> \<not> isEmpty w') \<and>
    (hasPort (port_of a) w' \<longleftrightarrow> n_sources w (port_of a) \<noteq> 1) \<and>
    k' = (let k1 = after_close E w (port_of a) k
          in if isEmpty w' then sendMessage E (no_job_message w) k1 else k1))"
proof -
  note inv = worker_okD [OF ok]
  obtain r u where e: "source_entry w i r u" and u: "addr u = a"
      and g: "getStreamList i w = (Some r, w)" and su: "source (store w r) = Some u"
    by (rule entry_of_abs [OF src])
  have p: "source_port u = port_of a" by (simp add: source_port_of u)
  obtain b w2 k1 where s: "remove_socket E (port_of a) w k = (b, w2, k1)" by (metis prod_cases3)
  note res = remove_socket_unregister [OF inv os fds e s [folded p], unfolded u p]
  note fr = remove_socket_frame [OF s]
  let ?w = "unregister i a w2"
  have fields: "launched ?w" "working ?w = working w" "worker_id ?w = worker_id w"
    using th by (simp_all add: unregister_def fr)
  have "getSourcePort (store w r) = Inr (port_of a)"
    by (simp add: getSourcePort_def su getAddr_def u port_of_def)
  then have run: "removeSource E i w k =
      (if isEmpty ?w
       then Inr (?w\<lparr>working := False\<rparr>, sendMessage E (no_job_message w) k1) else Inr (?w, k1))"
    using removeStreamList_eq [OF res(3)] fields
    by (simp add: removeSource_def g s u stop_def Let_def no_job_message_def getWorkerId_def)
  show ?thesis
  proof (cases "isEmpty ?w")
    case False
    then show ?thesis using res fields by (simp add: run)
  next
    case True
    let ?w' = "?w\<lparr>working := False\<rparr>"
    have "routes_inv ?w' = routes_inv ?w" "n_sources ?w' = n_sources ?w" "worker_abs ?w' = worker_abs ?w"
      by (rule routes_inv_frame; simp)+
    moreover from this have "worker_ok ?w'"
      using res(1) by (simp add: worker_ok_def sockets_inv_frame [of ?w' ?w])
    moreover have "op_frame opn w k ?w' (sendMessage E (no_job_message w) k1)"
      using res(4) by (simp add: op_frame_def opn_sendMessage [OF os] same_worker_def fds_open_def worker_fds_def)
    moreover have "hasPort (port_of a) ?w' = hasPort (port_of a) ?w" "isEmpty ?w' = isEmpty ?w"
      by (simp_all add: hasPort_iff isEmpty_def)
    ultimately show ?thesis using True res by (simp add: run)
  qed
qed

section \<open>Destinations\<close>

lemma set_list_ok:
  assumes ok: "worker_ok w" and fds: "fds_open opn w k" and e: "source_entry w i r u"
    and l: "source l = source (store w r)" "listId l = listId (store w r)" "dest_ok l"
  shows "worker_ok (set_list r l w)" and "op_frame opn w k (set_list r l w) k"
    and "worker_abs (set_list r l w) = (worker_abs w)(i \<mapsto> (addr u, dest_map l))"
    and "addStreamList i (Some r) (set_list r l w) = Inr (set_list r l w)"
    and "working (set_list r l w) = working w"
proof -
  note inv = worker_okD [OF ok]
  note res = set_list_inv [OF inv(1) e l]
  have tables: "portFd (set_list r l w) = portFd w" "fdPort (set_list r l w) = fdPort w"
      "portListener (set_list r l w) = portListener w" "same_worker w (set_list r l w)"
    by (simp_all add: set_list_def same_worker_def)
  show "worker_ok (set_list r l w)"
    using inv(2) by (intro worker_okI [OF res(1)]) (simp add: res(3) sockets_shape_cong [OF tables(1-3)])
  show "op_frame opn w k (set_list r l w) k"
    by (rule op_frame_cong) (simp_all add: tables fds)
  show "worker_abs (set_list r l w) = (worker_abs w)(i \<mapsto> (addr u, dest_map l))" by (rule res(2))
  have "source_entry (set_list r l w) i r u" using e res(4) by simp
  then show "addStreamList i (Some r) (set_list r l w) = Inr (set_list r l w)"
    by (rule addStreamList_again [OF res(1)])
  show "working (set_list r l w) = working w" by (simp add: set_list_def)
qed

lemma entry_dest_ok: "routes_inv w \<Longrightarrow> source_entry w i r u \<Longrightarrow> dest_ok (store w r)"
  using routes_entry [of w i r] by (auto simp: source_entry_def list_conforms_def)

theorem addDestination_contract:
  assumes ok: "worker_ok w" and fds: "fds_open opn w k" and src: "worker_abs w i = Some (a, D)"
  shows "ensures (addDestination E i d ip port w k) (\<lambda>(w', k').
    worker_ok w' \<and> op_frame opn w k w' k' \<and> k' = k \<and> working w' = working w \<and>
    worker_abs w' = (worker_abs w)(i \<mapsto>
      (a, if D d = None then D(d \<mapsto> source_addr E ip port k) else D)))"
proof -
  obtain r u where e: "source_entry w i r u" and u: "addr u = a" and D: "dest_map (store w r) = D"
      and g: "getStreamList i w = (Some r, w)" and su: "source (store w r) = Some u"
    by (rule entry_of_abs [OF src])
  define v where "v = setAddr E ip port (setId d (UdpStream_new E 0 k))"
  have v: "getId v = d" "getAddr v = source_addr E ip port k" by (simp_all add: v_def getAddr_def)
  obtain added l where al: "addDestination_list v (store w r) = (added, l)" by fastforce
  have keep: "source l = source (store w r)" "listId l = listId (store w r)"
    using al by (auto simp: addDestination_list_def split: if_splits)
  have okl: "dest_ok l"
    using dl.add_ok [OF entry_dest_ok [OF worker_okD(1) [OF ok] e], of v] al by simp
  note res = set_list_ok [OF ok fds e keep okl]
  have "addDestination E i d ip port w k = Inr (set_list r l w, k)"
    using al res(4) by (simp add: addDestination_def Let_def g v_def [symmetric])
  moreover have "dest_map l = (if D d = None then D(d \<mapsto> source_addr E ip port k) else D)"
    using dl.look_add [of v "store w r"] al
    by (auto simp: D v dest_map_None [symmetric] fun_eq_iff)
  ultimately show ?thesis using res by (simp add: u)
qed

theorem removeDestination_contract:
  assumes ok: "worker_ok w" and fds: "fds_open opn w k" and src: "worker_abs w i = Some (a, D)"
  shows "ensures (removeDestination E i d w k) (\<lambda>(w', k').
    worker_ok w' \<and> op_frame opn w k w' k' \<and> k' = k \<and> working w' = working w \<and>
    worker_abs w' = (worker_abs w)(i \<mapsto> (a, D(d := None))))"
proof -
  obtain r u where e: "source_entry w i r u" and u: "addr u = a" and D: "dest_map (store w r) = D"
      and g: "getStreamList i w = (Some r, w)" and su: "source (store w r) = Some u"
    by (rule entry_of_abs [OF src])
  have okl: "dest_ok (store w r)" by (rule entry_dest_ok [OF worker_okD(1) [OF ok] e])
  show ?thesis
  proof (cases "existDestination d (store w r)")
    case False
    then have "D(d := None) = D" using D dest_map_None [of "store w r" d] by auto
    moreover have "removeDestination E i d w k = Inr (w, k)"
      using False by (simp add: removeDestination_def g)
    ultimately show ?thesis using ok op_frame_refl [OF fds] src by (simp add: fun_upd_idem)
  next
    case True
    then obtain l where l: "remDestination d (store w r) = Inr (True, l)" "dest_ok l"
        "dest_map l = (dest_map (store w r))(d := None)"
      using dl.rem_present [OF okl] by blast
    have keep: "source l = source (store w r)" "listId l = listId (store w r)"
      using l(1) by (auto simp: remDestination_eq erase_it_def split: if_splits)
    note res = set_list_ok [OF ok fds e keep l(2)]
    have "removeDestination E i d w k = Inr (set_list r l w, k)"
      using True l(1) res(4) by (simp add: removeDestination_def g)
    then show ?thesis using res l(3) by (simp add: u D)
  qed
qed

text \<open>
  A destination or a source that is not there: the null pointer a missing list identifier yields
  is dereferenced.
\<close>

lemma missing_source_undefined:
  assumes "ifind (management w) i = None"
  shows "removeSource E i w k = Inl NullDeref"
    and "addDestination E i d ip port w k = Inl NullDeref"
    and "removeDestination E i d w k = Inl NullDeref"
    and "readTimeStamp i w = Inl NullDeref"
  using assms
  by (simp_all add: removeSource_def addDestination_def removeDestination_def readTimeStamp_def
      getStreamList_absent Let_def)

section \<open>Moving destinations between sources\<close>

lemma entry_again:
  "source_entry w i r u \<Longrightarrow> iput (management w) i (Some r) = management w"
  by (simp add: source_entry_def um_put_same)

lemma source_entry_set_list:
  "source l = source (store w r) \<Longrightarrow> source_entry (set_list r l w) j s v = source_entry w j s v"
  by (auto simp: source_entry_def set_list_def)

text \<open>
  \<^verbatim>\<open>conmuteStreamList\<close>: the second source takes over the destinations of the first, which is left
  with none; for one and the same source this loses its destinations.
\<close>

lemma conmuteStreamList_contract:
  assumes ok: "worker_ok w" and fds: "fds_open opn w k"
    and src: "worker_abs w i = Some (a, D)" and dst: "worker_abs w j = Some (b, D')"
  shows "ensures (conmuteStreamList i j w) (\<lambda>w'.
    worker_ok w' \<and> op_frame opn w k w' k \<and> working w' = working w \<and>
    worker_abs w' = (worker_abs w)(j \<mapsto> (b, D), i \<mapsto> (a, Map.empty)))"
proof -
  obtain r u where e: "source_entry w i r u" "addr u = a" "dest_map (store w r) = D"
      and g: "getStreamList i w = (Some r, w)"
    by (rule entry_of_abs [OF src])
  obtain s v where f: "source_entry w j s v" "addr v = b" and h: "getStreamList j w = (Some s, w)"
    by (rule entry_of_abs [OF dst])
  define l1 where "l1 = setDestinations (getDestinations (store w r)) (store w s)"
  have l1: "source l1 = source (store w s)" "listId l1 = listId (store w s)" "dest_ok l1" "dest_map l1 = D"
    using entry_dest_ok [OF worker_okD(1) [OF ok] e(1)] e(3)
    by (simp_all add: l1_def setDestinations_def getDestinations_def dest_ok_def dest_map_def)
  note one = set_list_ok [OF ok fds f(1) l1(1-3)]
  define w3 where "w3 = set_list s l1 w"
  define l2 where "l2 = clearDestinations (store w3 r)"
  have l2: "source l2 = source (store w3 r)" "listId l2 = listId (store w3 r)" "dest_ok l2"
      "dest_map l2 = Map.empty"
    by (simp_all add: l2_def clearDestinations_def dest_ok_def dest_map_def)
  have e3: "source_entry w3 i r u" "source_entry w3 j s v"
    using e(1) f(1) by (simp_all add: w3_def source_entry_set_list [OF l1(1)])
  have fds3: "fds_open opn w3 k" using fds by (simp add: w3_def fds_open_def set_list_def)
  note two = set_list_ok [OF one(1) [folded w3_def] fds3 e3(1) l2(1-3)]
  define w4 where "w4 = set_list r l2 w3"
  have e4: "source_entry w4 i r u" "source_entry w4 j s v"
    using e3 by (simp_all add: w4_def source_entry_set_list [OF l2(1)])
  have run: "conmuteStreamList i j w = Inr w4"
    using entry_again [OF e4(1)] entry_again [OF e4(2)]
    by (simp add: conmuteStreamList_def g h Let_def l1_def [symmetric] w3_def [symmetric]
        l2_def [symmetric] w4_def [symmetric])
  have "op_frame opn w k w4 k"
    by (rule op_frame_cong) (simp_all add: fds w4_def w3_def set_list_def same_worker_def)
  moreover have "worker_abs w4 = (worker_abs w)(j \<mapsto> (b, D), i \<mapsto> (a, Map.empty))"
    using one(3) two(3) by (simp add: w3_def w4_def e(2) f(2) l1(4) l2(4))
  moreover have "working w4 = working w" using one(5) two(5) by (simp add: w3_def w4_def)
  ultimately show ?thesis using two(1) by (simp add: run w4_def)
qed

text \<open>
  \<^verbatim>\<open>conmuteUdpStream\<close>: the second source gets the destination as well, under the rule of
  \<open>addDestination\<close>; the first keeps it.
\<close>

lemma conmuteUdpStream_contract:
  assumes ok: "worker_ok w" and fds: "fds_open opn w k"
    and src: "worker_abs w i = Some (a, D)" and dst: "worker_abs w j = Some (b, D')"
  shows "case D d of
      None \<Rightarrow> conmuteUdpStream d i j w = Inl EndDeref
    | Some x \<Rightarrow> ensures (conmuteUdpStream d i j w) (\<lambda>w'.
        worker_ok w' \<and> op_frame opn w k w' k \<and> working w' = working w \<and>
        worker_abs w' = (worker_abs w)(j \<mapsto> (b, if D' d = None then D'(d \<mapsto> x) else D')))"
proof -
  obtain r u where e: "source_entry w i r u" "addr u = a" "dest_map (store w r) = D"
      and g: "getStreamList i w = (Some r, w)"
    by (rule entry_of_abs [OF src])
  obtain s v where f: "source_entry w j s v" "addr v = b" "dest_map (store w s) = D'"
      and h: "getStreamList j w = (Some s, w)"
    by (rule entry_of_abs [OF dst])
  have okr: "dest_ok (store w r)" by (rule entry_dest_ok [OF worker_okD(1) [OF ok] e(1)])
  show ?thesis
  proof (cases "D d")
    case None
    then have "getDestination d (store w r) = Inl EndDeref"
      using destinations_at [OF okr, of d] e(3) by simp
    then show ?thesis using None by (simp add: conmuteUdpStream_def g h)
  next
    case (Some x)
    then obtain dd where dd: "getDestination d (store w r) = Inr (Some dd)" "getId dd = d" "getAddr dd = x"
      using destinations_at [OF okr, of d] e(3) by auto
    obtain added l where al: "addDestination_list dd (store w s) = (added, l)" by fastforce
    have keep: "source l = source (store w s)" "listId l = listId (store w s)"
      using al by (auto simp: addDestination_list_def split: if_splits)
    have okl: "dest_ok l"
      using dl.add_ok [OF entry_dest_ok [OF worker_okD(1) [OF ok] f(1)], of dd] al by simp
    note res = set_list_ok [OF ok fds f(1) keep okl]
    let ?w = "set_list s l w"
    have e2: "source_entry ?w i r u" "source_entry ?w j s v"
      using e(1) f(1) by (simp_all add: source_entry_set_list [OF keep(1)])
    have "conmuteUdpStream d i j w = Inr ?w"
      using entry_again [OF e2(1)] entry_again [OF e2(2)]
      by (simp add: conmuteUdpStream_def g h dd(1) Let_def al)
    moreover have "dest_map l = (if D' d = None then D'(d \<mapsto> x) else D')"
      using dl.look_add [of dd "store w s"] al dd
      by (auto simp: f(3) dest_map_None [symmetric] fun_eq_iff)
    ultimately show ?thesis using Some res by (simp add: f(2))
  qed
qed

end
