(* ===== verification/Packets.thy ===== *)
theory Packets
  imports Worker_Contract
begin

text \<open>
  The packet paths: \<^verbatim>\<open>ForwardWorker::process\<close> (\<^verbatim>\<open>src/workers/ForwardWorker.cpp\<close>) and
  \<^verbatim>\<open>StatsWorker\<close> with its statistics thread (\<^verbatim>\<open>src/workers/StatsWorker.cpp\<close>). The length that
  \<^verbatim>\<open>recvfrom\<close> returns is stored in a \<^verbatim>\<open>socklen_t\<close>, an unsigned 32-bit number, before it is compared
  with 0. The theorems say where a packet goes: to the destinations of the source registered for
  its sender and the port it came in on, and nowhere when there is none.
\<close>

section \<open>ForwardWorker\<close>

definition ForwardWorker_new :: "int \<Rightarrow> worker" where
  "ForwardWorker_new i = setWorkerType FWD_WORKER_TYPE (Worker_new ForwardClass i)"

text \<open>The loop over the copied destination list.\<close>

fun send_all :: "'k env \<Rightarrow> int \<Rightarrow> 8 word list \<Rightarrow> 32 word \<Rightarrow> udp_stream list \<Rightarrow> 'k \<Rightarrow> 'k" where
  "send_all E fd buf rlen [] k = k"
| "send_all E fd buf rlen (d # ds) k =
     send_all E fd buf rlen ds (sys_sendto E fd buf rlen (getAddr d) k)"

definition process_forward :: "'k env \<Rightarrow> 'k proc" where
  "process_forward E fd w k =
     (case sys_recvfrom E fd k of ((ret, buf, from), k1) \<Rightarrow>
       let rlen = word_of_int ret :: 32 word in
       if rlen > 0 then
         (case iindex 0 (fdPort w) fd of (port, fp) \<Rightarrow>
           let w1 = w\<lparr>fdPort := fp\<rparr> in
           bindE (sender_of ret from) (\<lambda>sender.
           let a = sender\<lparr>sin_port := htons (word_of_int port)\<rparr> in
           case getStreamListBySocket a w1 of (b, w2) \<Rightarrow>
             (case b of None \<Rightarrow> Inr (w2, k1)
              | Some r \<Rightarrow>
                (case updateTimeStamp E (store w2 r) k1 of (l, k2) \<Rightarrow>
                  let w3 = set_list r l w2;
                      c = getDestinations (store w3 r)
                  in Inr (w3, send_all E fd buf rlen c k2)))))
       else Inr (w, k1))"

section \<open>StatsWorker\<close>

definition StatsWorker_new :: "int \<Rightarrow> worker" where
  "StatsWorker_new i =
     (setWorkerType STATS_WORKER_TYPE (Worker_new StatsClass i))\<lparr>inputBytes := 0, outputBytes := 0\<rparr>"

definition addSource_stats ::
    "'k env \<Rightarrow> int \<Rightarrow> string \<Rightarrow> int \<Rightarrow> worker \<Rightarrow> 'k \<Rightarrow> (bool \<times> worker \<times> 'k) res" where
  "addSource_stats E src_id ip port w k =
     (let udpstream = setAddr E ip port (setId src_id (UdpStream_new E 0 k)) in
      case StatsStreamList_new E k of (streamlist0, k0) \<Rightarrow>
      case getListIdBySocket (getAddr udpstream) w of (i, w1) \<Rightarrow>
        if i \<noteq> 0 then Inr (False, w1, k0)
        else let streamlist = setSource udpstream (setListId src_id streamlist0) in
          case add_socket E port w1 k0 of (ret, w2, k1) \<Rightarrow>
            if ret \<noteq> -1 then
              (case new_list streamlist w2 of (r, w3) \<Rightarrow>
                bindE (addStreamList src_id (Some r) w3) (\<lambda>w4. Inr (True, w4, k1)))
            else Inr (False, w2, k1))"

text \<open>
  \<^verbatim>\<open>dynamic_pointer_cast\<close> succeeds on the lists that have a statistics part. The worker's counter
  is added to in unsigned arithmetic, the list's in \<^verbatim>\<open>int\<close>.
\<close>

definition process_stats :: "'k env \<Rightarrow> 'k proc" where
  "process_stats E fd w k =
     (case sys_recvfrom E fd k of ((ret, buf, from), k1) \<Rightarrow>
       let rlen = word_of_int ret :: 32 word in
       if rlen > 0 then
         (case iindex 0 (fdPort w) fd of (port, fp) \<Rightarrow>
           let w1 = w\<lparr>fdPort := fp\<rparr> in
           bindE (sender_of ret from) (\<lambda>sender.
           let a = sender\<lparr>sin_port := htons (word_of_int port)\<rparr> in
           case getStreamListBySocket a w1 of (tmp, w2) \<Rightarrow>
             (case tmp of None \<Rightarrow> Inr (w2, k1)
              | Some r \<Rightarrow>
                (case stats (store w2 r) of None \<Rightarrow> Inr (w2, k1)
                 | Some s \<Rightarrow>
                   let c = getDestinations (store w2 r);
                       w3 = w2\<lparr>inputBytes := inputBytes w2 + rlen\<rparr>
                   in bindE (updateInputBytes rlen s) (\<lambda>s'.
                     let w4 = set_list r ((store w3 r)\<lparr>stats := Some s'\<rparr>) w3
                     in Inr (w4, send_all E fd buf rlen c k1))))))
       else Inr (w, k1))"

text \<open>One round of the statistics thread; the string is what it writes to standard output.\<close>

fun update_lists :: "'k env \<Rightarrow> (int, nat option) umap \<Rightarrow> worker \<Rightarrow> 'k \<Rightarrow> (worker \<times> string \<times> 'k) res" where
  "update_lists E [] w k = Inr (w, [], k)"
| "update_lists E ((i, tmp) # es) w k =
     (case tmp of None \<Rightarrow> update_lists E es w k
      | Some r \<Rightarrow> bindE (update_stats E (store w r) k) (\<lambda>(l, out, k1).
          bindE (update_lists E es (set_list r l w) k1) (\<lambda>(w', out', k'). Inr (w', out @ out', k'))))"

definition tab :: string where
  "tab = [CHR 0x09]"

definition generateStats_round :: "'k env \<Rightarrow> worker \<Rightarrow> 'k \<Rightarrow> (worker \<times> string \<times> 'k) res" where
  "generateStats_round E w k =
     (let k1 = sys_sleep E 10 k;
          inputInfo = sint (inputBytes w);
          outputInfo = sint (outputBytes w);
          w1 = w\<lparr>inputBytes := 0, outputBytes := 0\<rparr>;
          inputRate = inputInfo sdiv 1250;
          outputRate = outputInfo sdiv 1250;
          totalRate = inputRate + outputRate in
      bindE (update_lists E (iiter (key_order E) (management w1)) w1 k1) (\<lambda>(w2, out, k2).
        Inr (w2, ''Input'' @ tab @ ''Output'' @ tab @ ''Total (Kbps)'' @ newline @
                 show_int inputRate @ tab @ show_int outputRate @ tab @ show_int totalRate @
                 newline @ out, k2)))"

fun generateStats :: "nat \<Rightarrow> 'k env \<Rightarrow> worker \<Rightarrow> 'k \<Rightarrow> (worker \<times> string \<times> 'k) res" where
  "generateStats 0 E w k = Inr (w, [], k)"
| "generateStats (Suc n) E w k =
     (if isWorking w then
        bindE (generateStats_round E w k) (\<lambda>(w1, out, k1).
          bindE (generateStats n E w1 k1) (\<lambda>(w2, out2, k2). Inr (w2, out @ out2, k2)))
      else Inr (w, [], k))"

text \<open>
  After a failed receive the sender is read although no call has written it: -1 is a large length.
\<close>

lemma process_failed:
  assumes "sys_recvfrom E fd k = ((ret, buf, from), k1)" and "ret < 0" and "word_of_int ret \<noteq> (0 :: 32 word)"
  shows "process_forward E fd w k = Inl UninitRead" "process_stats E fd w k = Inl UninitRead"
  using assms by (simp_all add: process_forward_def process_stats_def Let_def sender_of_def word_gt_0
      split: prod.split)

section \<open>Dispatch\<close>

text \<open>The classes' own \<^verbatim>\<open>process\<close>; \<^verbatim>\<open>RtcpWorker\<close> inherits the one of \<^verbatim>\<open>ForwardWorker\<close>.\<close>

definition process_of :: "'k env \<Rightarrow> worker_class \<Rightarrow> 'k proc" where
  "process_of E c =
     (case c of BaseClass \<Rightarrow> process_base | ForwardClass \<Rightarrow> process_forward E
      | StatsClass \<Rightarrow> process_stats E | RtcpClass \<Rightarrow> process_forward E)"

section \<open>Finding the list of a packet\<close>

lemma getStreamList_zero_inv:
  assumes "routes_inv w"
  shows "routes_inv (snd (getStreamList 0 w))" "worker_abs (snd (getStreamList 0 w)) = worker_abs w"
    "n_sources (snd (getStreamList 0 w)) = n_sources w" "fst (getStreamList 0 w) = None"
proof -
  have "ifind (management w) 0 \<noteq> Some (Some r)" for r
    using routes_entry [OF assms, of 0 r] by (auto simp: list_conforms_def)
  then consider "ifind (management w) 0 = None" | "ifind (management w) 0 = Some None"
    by (metis not_Some_eq)
  then have "routes_inv (snd (getStreamList 0 w)) \<and> worker_abs (snd (getStreamList 0 w)) = worker_abs w \<and>
      n_sources (snd (getStreamList 0 w)) = n_sources w \<and> fst (getStreamList 0 w) = None"
  proof cases
    case 1
    let ?w = "w\<lparr>management := management w @ [(0, None)]\<rparr>"
    have put: "management w @ [(0, None)] = iput (management w) 0 None"
      by (simp add: ik.put_absent [OF 1])
    have find: "ifind (management w @ [(0, None)]) j =
        (if j = 0 then Some None else ifind (management w) j)" for j
      unfolding put by auto
    have ent: "source_entry ?w j r u = source_entry w j r u" for j r u
      using 1 by (simp add: source_entry_def find)
    have wf: "iwf (management w @ [(0, None)])"
      unfolding put using assms by (simp add: routes_inv_def)
    have inv: "routes_inv ?w"
      using assms wf unfolding routes_inv_def ent
      by (auto simp: find list_conforms_def split: if_splits)
    have "worker_abs ?w = worker_abs w"
      using 1 by (auto simp: worker_abs_def find fun_eq_iff split: option.splits)
    moreover have "n_sources ?w = n_sources w"
      by (auto simp: n_sources_def on_port_def fun_eq_iff cong: option.case_cong)
    ultimately show ?thesis using inv 1 by (simp add: getStreamList_absent)
  next
    case 2
    then show ?thesis using assms by (simp add: getStreamList_live)
  qed
  then show "routes_inv (snd (getStreamList 0 w))" "worker_abs (snd (getStreamList 0 w)) = worker_abs w"
    "n_sources (snd (getStreamList 0 w)) = n_sources w" "fst (getStreamList 0 w) = None"
    by blast+
qed

lemma route_hit:
  assumes inv: "routes_inv w" and e: "source_entry w j r u" and c: "sock_addr_cmp (addr u) a"
  shows "getStreamListBySocket a w = (Some r, w)"
proof -
  have "afind (forwarding w) (addr u) = Some j" by (rule routes_entry_fwd [OF inv e])
  then have "afind (forwarding w) a = Some j"
    using ak.find_cong [OF c, of "forwarding w"] by simp
  then show ?thesis
    using e by (simp add: getStreamListBySocket_def getListIdBySocket_eq getStreamList_live source_entry_def)
qed

text \<open>An unknown sender: nothing is found, and only the two tables remember the look up.\<close>

lemma route_miss:
  assumes inv: "routes_inv w" and none: "\<not> has_source (worker_abs w) a"
  obtains m f where "getStreamListBySocket a w = (None, w\<lparr>management := m, forwarding := f\<rparr>)"
    and "routes_inv (w\<lparr>management := m, forwarding := f\<rparr>)"
    and "worker_abs (w\<lparr>management := m, forwarding := f\<rparr>) = worker_abs w"
    and "n_sources (w\<lparr>management := m, forwarding := f\<rparr>) = n_sources w"
proof -
  obtain i w1 where g: "getListIdBySocket a w = (i, w1)" by fastforce
  note look = getListIdBySocket_inv [OF inv g]
  obtain f where f: "w1 = w\<lparr>forwarding := f\<rparr>" using look(6) by blast
  have "i = 0" using none by (simp add: has_source_forwarding [OF inv] look(4))
  note zero = getStreamList_zero_inv [OF look(1)]
  define m where "m = snd (iindex None (management w1) 0)"
  have m: "snd (getStreamList 0 w1) = w1\<lparr>management := m\<rparr>"
    by (simp add: getStreamList_def m_def split: prod.split)
  have fst0: "fst (getStreamList 0 w1) = None" by (rule zero(4))
  have "getStreamListBySocket a w = (None, w\<lparr>management := m, forwarding := f\<rparr>)"
    unfolding getStreamListBySocket_def g \<open>i = 0\<close> prod.case
    by (rule prod_eqI) (simp_all add: fst0 m, simp add: f)
  moreover have "w1\<lparr>management := m\<rparr> = w\<lparr>management := m, forwarding := f\<rparr>" by (simp add: f)
  ultimately show thesis using zero(1-3) look(1-3) m that by simp
qed

text \<open>The fields the packet path leaves alone keep the socket half of the invariant.\<close>

lemma worker_ok_tables:
  assumes "worker_ok w" and "routes_inv w'" and "n_sources w' = n_sources w"
    and "portFd w' = portFd w" "fdPort w' = fdPort w" "portListener w' = portListener w"
  shows "worker_ok w'"
  using worker_okD(2) [OF assms(1)] assms(2-6) by (intro worker_okI) (simp_all add: sockets_shape_cong [of w' w])

definition delivers :: "'k env \<Rightarrow> int \<Rightarrow> 8 word list \<Rightarrow> 32 word \<Rightarrow> (int \<Rightarrow> sockaddr_in option) \<Rightarrow> 'k \<Rightarrow> 'k \<Rightarrow> bool" where
  "delivers E fd buf len D k k' \<longleftrightarrow>
     (\<exists>ds. distinct (map getId ds) \<and> map_of (map (\<lambda>d. (getId d, getAddr d)) ds) = D \<and>
       k' = send_all E fd buf len ds k)"

lemma open_port_fdPort:
  "worker_ok w \<Longrightarrow> ifind (portFd w) p = Some fd \<Longrightarrow> iindex 0 (fdPort w) fd = (p, fdPort w)"
  by (simp add: worker_ok_def sockets_inv_def fds_inverse_def um_index_snd_find)

lemma opn_send_all: "sockets_ok E opn \<Longrightarrow> opn (send_all E fd buf len ds k) = opn k"
  by (induction ds arbitrary: k) (simp_all add: sockets_ok_neutral)

text \<open>The sender's address with the port the packet was received on.\<close>

definition packet_key :: "sockaddr_in \<Rightarrow> int \<Rightarrow> sockaddr_in" where
  "packet_key from port = from\<lparr>sin_port := htons (word_of_int port)\<rparr>"

text \<open>
  What the packet path asks of the invariant of a worker: it includes the one of the two tables and the
  agreement of the socket tables, and it does not read more of the tables than the sources they hold.
  \<^verbatim>\<open>RtcpWorker\<close> inherits the packet path of \<^verbatim>\<open>ForwardWorker\<close> with an invariant of its own.
\<close>

locale packet_tables =
  fixes good :: "worker \<Rightarrow> bool"
  assumes good_routes: "good w \<Longrightarrow> routes_inv w"
    and good_fds: "good w \<Longrightarrow> fds_inverse w"
    and good_tables: "good w \<Longrightarrow> routes_inv w' \<Longrightarrow> n_sources w' = n_sources w \<Longrightarrow>
      worker_abs w' = worker_abs w \<Longrightarrow> portFd w' = portFd w \<Longrightarrow> fdPort w' = fdPort w \<Longrightarrow>
      portListener w' = portListener w \<Longrightarrow> good w'"
begin

lemma received_on:
  "good w \<Longrightarrow> ifind (portFd w) p = Some fd \<Longrightarrow> iindex 0 (fdPort w) fd = (p, fdPort w)"
  using good_fds [of w] by (simp add: fds_inverse_def um_index_snd_find)

lemma hit:
  assumes ok: "good w" and os: "sockets_ok E opn" and fds: "fds_open opn w k"
    and fd: "ifind (portFd w) p = Some fd"
    and recv: "sys_recvfrom E fd k = ((ret, buf, from), k1)" and len: "word_of_int ret \<noteq> (0 :: 32 word)"
    and got: "0 \<le> ret" and src: "worker_abs w j = Some (a, D)" and key: "sock_addr_cmp a (packet_key from p)"
  shows "ensures (process_forward E fd w k) (\<lambda>(w', k').
    good w' \<and> op_frame opn w k w' k' \<and> worker_abs w' = worker_abs w \<and> working w' = working w \<and>
    delivers E fd buf (word_of_int ret) D (snd (sys_time E k1)) k' \<and>
    (\<exists>r u. source_entry w' j r u \<and> timeStamp (store w' r) = Some (fst (sys_time E k1))))"
proof -
  note inv = good_routes [OF ok]
  obtain r u where e: "source_entry w j r u" and u: "addr u = a" and D: "dest_map (store w r) = D"
    by (rule entry_of_abs [OF src])
  obtain t k2 where t: "sys_time E k1 = (t, k2)" by fastforce
  define l where "l = (store w r)\<lparr>timeStamp := Some t\<rparr>"
  have keep: "source l = source (store w r)" "listId l = listId (store w r)" "dest_ok l"
    using entry_dest_ok [OF inv e] by (simp_all add: l_def dest_ok_def)
  note res = set_list_inv [OF inv e keep]
  have hit: "getStreamListBySocket (from\<lparr>sin_port := htons (word_of_int p)\<rparr>) w = (Some r, w)"
    by (rule route_hit [OF inv e]) (use key in \<open>simp add: u packet_key_def\<close>)
  have run: "process_forward E fd w k =
      Inr (set_list r l w, send_all E fd buf (word_of_int ret) (destinations (store w r)) k2)"
    using len got by (simp add: process_forward_def recv Let_def received_on [OF ok fd] hit sender_of_def
        updateTimeStamp_def t word_gt_0 l_def [symmetric] getDestinations_def)
      (simp add: set_list_def l_def)
  have "delivers E fd buf (word_of_int ret) D k2
      (send_all E fd buf (word_of_int ret) (destinations (store w r)) k2)"
    unfolding delivers_def
    using entry_dest_ok [OF inv e] D by (auto simp: dest_ok_def dest_map_def)
  moreover have "opn (send_all E fd buf (word_of_int ret) (destinations (store w r)) k2) = opn k"
    using sockets_ok_neutral(3) [OF os, of fd k] sockets_ok_neutral(5) [OF os, of k1]
    by (simp add: opn_send_all [OF os] recv t)
  then have "op_frame opn w k (set_list r l w)
      (send_all E fd buf (word_of_int ret) (destinations (store w r)) k2)"
    by (intro op_frame_cong) (simp_all add: set_list_def same_worker_def fds)
  moreover have abs: "worker_abs (set_list r l w) = worker_abs w"
  proof -
    have "dest_map l = D" using D by (simp add: l_def dest_map_def)
    with src show ?thesis by (simp add: res(2) u fun_upd_idem)
  qed
  moreover have "source_entry (set_list r l w) j r u"
    using e keep(1) by (simp add: source_entry_def set_list_def)
  moreover have "timeStamp (store (set_list r l w) r) = Some t" by (simp add: set_list_def l_def)
  moreover have "good (set_list r l w)" "working (set_list r l w) = working w"
    by (rule good_tables [OF ok res(1,3) abs]) (simp_all add: set_list_def)
  ultimately show ?thesis by (auto simp: run t)
qed

lemma miss:
  assumes ok: "good w" and os: "sockets_ok E opn" and fds: "fds_open opn w k"
    and fd: "ifind (portFd w) p = Some fd"
    and recv: "sys_recvfrom E fd k = ((ret, buf, from), k1)"
    and got: "0 \<le> ret \<or> word_of_int ret = (0 :: 32 word)" and none: "\<not> has_source (worker_abs w) (packet_key from p)"
  shows "ensures (process_forward E fd w k) (\<lambda>(w', k').
    good w' \<and> op_frame opn w k w' k' \<and> worker_abs w' = worker_abs w \<and> working w' = working w \<and>
    store w' = store w \<and> k' = k1)"
proof (cases "word_of_int ret = (0 :: 32 word)")
  case True
  have "opn k1 = opn k" using sockets_ok_neutral(3) [OF os, of fd k] by (simp add: recv)
  then have "op_frame opn w k w k1" by (intro op_frame_cong) (simp_all add: fds)
  then show ?thesis using True ok by (simp add: process_forward_def recv Let_def)
next
  case False
  obtain m f where miss:
      "getStreamListBySocket (packet_key from p) w = (None, w\<lparr>management := m, forwarding := f\<rparr>)"
      "routes_inv (w\<lparr>management := m, forwarding := f\<rparr>)"
      "worker_abs (w\<lparr>management := m, forwarding := f\<rparr>) = worker_abs w"
      "n_sources (w\<lparr>management := m, forwarding := f\<rparr>) = n_sources w"
    by (rule route_miss [OF good_routes [OF ok] none])
  let ?w = "w\<lparr>management := m, forwarding := f\<rparr>"
  have "good ?w" by (rule good_tables [OF ok miss(2,4,3)]) simp_all
  moreover have "opn k1 = opn k" using sockets_ok_neutral(3) [OF os, of fd k] by (simp add: recv)
  then have "op_frame opn w k ?w k1"
    by (intro op_frame_cong) (simp_all add: fds same_worker_def)
  moreover have "process_forward E fd w k = Inr (?w, k1)"
    using False got miss(1) by (simp add: process_forward_def recv Let_def received_on [OF ok fd]
        packet_key_def word_gt_0 sender_of_def)
  ultimately show ?thesis using miss(3) by simp
qed

text \<open>Any packet, in the form the select loop asks for.\<close>

lemma forward_any:
  assumes ok: "good w" and os: "sockets_ok E opn" and fds: "fds_open opn w k"
    and fd: "ifind (portFd w) p = Some fd"
  shows "within (recv_errs E) (process_forward E fd w k) (\<lambda>(w', k').
    good w' \<and> op_frame opn w k w' k' \<and> worker_abs w' = worker_abs w \<and> working w' = working w)"
proof -
  obtain ret buf frm k1 where recv: "sys_recvfrom E fd k = ((ret, buf, frm), k1)" by (metis prod.exhaust)
  consider (failed) "ret < 0" "word_of_int ret \<noteq> (0 :: 32 word)"
    | (known) "has_source (worker_abs w) (packet_key frm p)" "word_of_int ret \<noteq> (0 :: 32 word)" "0 \<le> ret"
    | (empty) "word_of_int ret = (0 :: 32 word)"
    | (unknown) "\<not> has_source (worker_abs w) (packet_key frm p)" "0 \<le> ret"
    by linarith
  then show ?thesis
  proof cases
    case failed
    then show ?thesis by (simp add: process_failed [OF recv] recv_errsI [OF recv])
  next
    case known
    then obtain j a D where src: "worker_abs w j = Some (a, D)" and key: "sock_addr_cmp a (packet_key frm p)"
      by (auto simp: has_source_def)
    show ?thesis
      by (rule ensures_within [OF ensures_mono [OF hit [OF ok os fds fd recv known(2,3) src key]]]) auto
  next
    case empty
    have "opn k1 = opn k" using sockets_ok_neutral(3) [OF os, of fd k] by (simp add: recv)
    then have "op_frame opn w k w k1" by (intro op_frame_cong) (simp_all add: fds)
    then show ?thesis using empty ok by (simp add: process_forward_def recv Let_def)
  next
    case unknown
    show ?thesis
      by (rule ensures_within [OF ensures_mono [OF miss [OF ok os fds fd recv disjI1 [OF unknown(2)] unknown(1)]]])
        auto
  qed
qed

end

interpretation ft: packet_tables worker_ok
proof unfold_locales
  fix w w' :: worker
  assume ok: "worker_ok w"
  then show "routes_inv w" "fds_inverse w" by (simp_all add: worker_ok_def sockets_inv_def)
  assume "routes_inv w'" "n_sources w' = n_sources w" "portFd w' = portFd w" "fdPort w' = fdPort w"
    "portListener w' = portListener w"
  then show "worker_ok w'" by (rule worker_ok_tables [OF ok])
qed

lemmas forward_hit = ft.hit
lemmas forward_miss = ft.miss

end
