(* ===== verification/Stats.thy ===== *)
theory Stats
  imports Packets
begin

text \<open>
  The statistics of \<^verbatim>\<open>StatsWorker\<close> and \<^verbatim>\<open>StatsStreamList\<close>: the lists of such a worker always
  have a statistics part (so the casts of \<^verbatim>\<open>process\<close> and \<^verbatim>\<open>generateStats\<close> succeed), and a round of
  the statistics thread runs without undefined behaviour while the clock stays within 31 bits.
\<close>

definition clock_ok :: "'k env \<Rightarrow> bool" where
  "clock_ok E \<longleftrightarrow> (\<forall>k. 0 \<le> fst (sys_time E k) \<and> fst (sys_time E k) < 2147483648)"

definition has_stats :: "stream_list \<Rightarrow> bool" where
  "has_stats l \<longleftrightarrow> stats l \<noteq> None \<and>
     (case timeStamp l of None \<Rightarrow> False | Some t \<Rightarrow> 0 \<le> t \<and> t < 2147483648)"

definition stats_ok :: "worker \<Rightarrow> bool" where
  "stats_ok w \<longleftrightarrow> (\<forall>i r. ifind (management w) i = Some (Some r) \<longrightarrow> has_stats (store w r))"

lemma stats_ok_new: "stats_ok (StatsWorker_new i)"
  by (simp add: stats_ok_def StatsWorker_new_def setWorkerType_def Worker_new_def)

lemma worker_ok_stats_new: "worker_ok (StatsWorker_new i)" "worker_ok (ForwardWorker_new i)"
proof -
  have "worker_ok (w\<lparr>worker_type := t\<rparr>) = worker_ok w" "worker_ok (w\<lparr>inputBytes := b, outputBytes := c\<rparr>) = worker_ok w"
    for w t b c
    by (simp_all add: worker_ok_def routes_inv_frame(1) sockets_inv_def fds_inverse_def listeners_def
        n_sources_def on_port_def routes_inv_def list_conforms_def source_entry_def cong: option.case_cong)
  then show "worker_ok (StatsWorker_new i)" "worker_ok (ForwardWorker_new i)"
    by (simp_all add: StatsWorker_new_def ForwardWorker_new_def setWorkerType_def worker_ok_new)
qed

lemma sint_bounds: "- 2147483648 \<le> sint (x :: 32 word)" "sint (x :: 32 word) \<le> 2147483647"
  using sint_greater_eq [of x] sint_lt [of x] by simp_all

section \<open>One list\<close>

text \<open>A round of a list, on both branches of the ten second test.\<close>

lemma update_stats_eq:
  assumes "stats l = Some s" and "timeStamp l = Some t0" and "sys_time E k = (now, k1)"
    and "fits_int (now - t0)"
  shows "update_stats E l k = off_end E
    (if now - t0 > 10 then
       (let s' = s\<lparr>actualRate := (sint (list_inputBytes s) sdiv 125) sdiv (now - t0),
                   list_inputBytes := 0\<rparr>
        in (l\<lparr>stats := Some s', timeStamp := Some (fst (sys_time E k1))\<rparr>,
                ''list_id '' @ show_int (listId l) @ '' rate= '' @ show_int (actualRate s') @ newline,
                snd (sys_time E k1)))
     else (l, [], k1))"
proof (cases "now - t0 > 10")
  case True
  obtain t2 k2 where "sys_time E k1 = (t2, k2)" by fastforce
  with True show ?thesis
    using assms by (simp add: update_stats_def calculateRate_def updateTimeStamp_def getListId_def Let_def)
qed (use assms in \<open>simp add: update_stats_def\<close>)

lemma update_stats_ok:
  assumes "has_stats l" and clock: "clock_ok E"
  shows "if falls_through E
    then ensures (update_stats E l k) (\<lambda>(l', out, k').
      source l' = source l \<and> listId l' = listId l \<and> destinations l' = destinations l \<and> has_stats l')
    else update_stats E l k = Inl MissingReturn"
proof -
  obtain s t0 where l: "stats l = Some s" "timeStamp l = Some t0" "0 \<le> t0" "t0 < 2147483648"
    using assms(1) by (auto simp: has_stats_def split: option.splits)
  obtain now k1 where t: "sys_time E k = (now, k1)" by fastforce
  have "0 \<le> now \<and> now < 2147483648" using clock t unfolding clock_ok_def by (metis fst_conv)
  then have "fits_int (now - t0)" using l by (simp add: fits_int_def)
  then show ?thesis
    using clock assms(1) by (simp add: update_stats_eq [OF l(1,2) t] has_stats_def Let_def clock_ok_def off_end_def)
qed

section \<open>A round of the statistics thread\<close>

lemma same_tables_set_list:
  "management (set_list r l w) = management w" "portFd (set_list r l w) = portFd w"
  "inputBytes (set_list r l w) = inputBytes w"
  by (simp_all add: set_list_def)

lemma stats_ok_set_list: "stats_ok w \<Longrightarrow> has_stats l \<Longrightarrow> stats_ok (set_list r l w)"
  by (simp add: stats_ok_def set_list_def)

lemma opn_update_stats:
  assumes "sockets_ok E opn" and "update_stats E l k = Inr (l', out, k')"
  shows "opn k' = opn k"
proof -
  note t = sockets_ok_neutral(5) [OF assms(1)]
  have "opn k1 = opn k" if "sys_time E k = (now, k1)" for now k1 k using t [of k] that by simp
  then show ?thesis
    using assms(2)
    by (auto simp: update_stats_def Let_def calculateRate_def updateTimeStamp_def off_end_def
        split: option.splits prod.splits if_splits)
qed

lemma update_lists_ok:
  assumes "worker_ok w" and "stats_ok w" and clock: "clock_ok E" and os: "sockets_ok E opn"
    and "fds_open opn w k" and "set es \<subseteq> set (management w)"
  shows "within (end_errs E) (update_lists E es w k) (\<lambda>(w', out, k').
    worker_ok w' \<and> stats_ok w' \<and> worker_abs w' = worker_abs w \<and> op_frame opn w k w' k' \<and>
    working w' = working w \<and> inputBytes w' = inputBytes w)"
  using assms(1,2,5,6)
proof (induction es arbitrary: w k)
  case Nil
  then show ?case by (simp add: op_frame_refl)
next
  case (Cons x es)
  obtain i tmp where x: "x = (i, tmp)" by (cases x)
  show ?case
  proof (cases tmp)
    case None
    then show ?thesis using Cons by (simp add: x)
  next
    case (Some r)
    note ok = Cons.prems(1)
    have "iwf (management w)" using worker_okD(1) [OF ok] by (simp add: routes_inv_def)
    then have m: "ifind (management w) i = Some (Some r)"
      using Cons.prems(4) by (intro ik.wf_find_in) (auto simp: x Some)
    then obtain u where e: "source_entry w i r u"
      using routes_entry_source [OF worker_okD(1) [OF ok]] by blast
    have "has_stats (store w r)" using Cons.prems(2) m by (simp add: stats_ok_def)
    then have st: "if falls_through E then ensures (update_stats E (store w r) k) (\<lambda>(l', out, k').
        source l' = source (store w r) \<and> listId l' = listId (store w r) \<and>
        destinations l' = destinations (store w r) \<and> has_stats l')
      else update_stats E (store w r) k = Inl MissingReturn"
      by (rule update_stats_ok [OF _ clock])
    show ?thesis
    proof (cases "falls_through E")
      case False
      then show ?thesis using st by (simp add: x Some end_errs_def)
    next
      case True
      then obtain l out k1 where u: "update_stats E (store w r) k = Inr (l, out, k1)"
          and l: "source l = source (store w r)" "listId l = listId (store w r)"
            "destinations l = destinations (store w r)" "has_stats l"
        using st by (auto simp: ensures_Inr)
      have dl: "dest_ok l" "dest_map l = dest_map (store w r)"
        using entry_dest_ok [OF worker_okD(1) [OF ok] e] l(3) by (simp_all add: dest_ok_def dest_map_def)
      note res = set_list_ok [OF ok Cons.prems(3) e l(1,2) dl(1)]
      let ?w = "set_list r l w"
      have opn1: "opn k1 = opn k" by (rule opn_update_stats [OF os u])
      have "worker_abs w i = Some (addr u, dest_map (store w r))"
        using e by (auto simp: worker_abs_Some)
      then have abs: "worker_abs ?w = worker_abs w" by (simp add: res(3) dl(2) fun_upd_idem)
      have fds1: "fds_open opn ?w k1"
        using Cons.prems(3) by (simp add: fds_open_def same_tables_set_list opn1)
      have fr: "op_frame opn ?w k1 w' k' = op_frame opn w k w' k'" for w' k'
        by (simp add: op_frame_def same_worker_def worker_fds_def opn1 set_list_def)
      have "within (end_errs E) (update_lists E es ?w k1) (\<lambda>(w', out, k').
        worker_ok w' \<and> stats_ok w' \<and> worker_abs w' = worker_abs ?w \<and> op_frame opn ?w k1 w' k' \<and>
        working w' = working ?w \<and> inputBytes w' = inputBytes ?w)"
        using Cons.prems(2,4) l(4)
        by (intro Cons.IH res(1) fds1 stats_ok_set_list) (auto simp: same_tables_set_list)
      then show ?thesis
        by (simp add: x Some u abs fr res(5) same_tables_set_list)
          (erule within_mono, auto)
    qed
  qed
qed

theorem generateStats_round_ok:
  assumes ok: "worker_ok w" and st: "stats_ok w" and clock: "clock_ok E"
    and os: "sockets_ok E opn" and fds: "fds_open opn w k" and ord: "ord_ok (key_order E)"
  shows "within (end_errs E) (generateStats_round E w k) (\<lambda>(w', out, k').
    worker_ok w' \<and> stats_ok w' \<and> worker_abs w' = worker_abs w \<and> op_frame opn w k w' k' \<and>
    working w' = working w \<and> inputBytes w' = 0)"
proof -
  let ?w = "w\<lparr>inputBytes := 0, outputBytes := 0\<rparr>"
  have r: "routes_inv ?w = routes_inv w" "worker_abs ?w = worker_abs w" "n_sources ?w = n_sources w"
    by (rule routes_inv_frame; simp)+
  have ok1: "worker_ok ?w"
    by (rule worker_ok_tables [OF ok]) (simp_all add: r worker_okD(1) [OF ok])
  have opn1: "opn (sys_sleep E 10 k) = opn k" by (rule sockets_ok_neutral(9) [OF os])
  have st1: "stats_ok ?w" using st by (simp add: stats_ok_def)
  have fds1: "fds_open opn ?w (sys_sleep E 10 k)" using fds by (simp add: fds_open_def opn1)
  have "iwf (management ?w)" using worker_okD(1) [OF ok] by (simp add: routes_inv_def)
  then have sub: "set (iiter (key_order E) (management ?w)) \<subseteq> set (management ?w)"
    by (simp add: iiter_set [OF ord])
  have fr: "op_frame opn ?w (sys_sleep E 10 k) w' k' = op_frame opn w k w' k'" for w' k'
    by (simp add: op_frame_def same_worker_def worker_fds_def opn1)
  show ?thesis
    using update_lists_ok [OF ok1 st1 clock os fds1 sub]
    by (simp add: generateStats_round_def Let_def fr r)
      (erule within_mono, auto)
qed

text \<open>Without a compiler that lets it return, the first list of a round is the end.\<close>

lemma update_lists_missing:
  assumes "\<not> falls_through E" and "clock_ok E"
    and "\<And>i r. (i, Some r) \<in> set es \<Longrightarrow> has_stats (store w r)" and "(i, Some r) \<in> set es"
  shows "update_lists E es w k = Inl MissingReturn"
  using assms(3,4)
proof (induction es arbitrary: i r)
  case (Cons x es)
  obtain j q where x: "x = (j, q)" by (cases x)
  show ?case
  proof (cases q)
    case None
    then show ?thesis using Cons by (fastforce simp: x)
  next
    case (Some s)
    then have "has_stats (store w s)" using Cons.prems(1) [of j s] by (simp add: x)
    then show ?thesis using update_stats_ok [OF _ assms(2), of "store w s" k] assms(1) by (simp add: x Some)
  qed
qed simp

lemma generateStats_round_missing:
  assumes ok: "worker_ok w" and st: "stats_ok w" and clock: "clock_ok E" and ord: "ord_ok (key_order E)"
    and falls: "\<not> falls_through E" and src: "worker_abs w i = Some x"
  shows "generateStats_round E w k = Inl MissingReturn"
proof -
  let ?w = "w\<lparr>inputBytes := 0, outputBytes := 0\<rparr>"
  have wf: "iwf (management w)" using worker_okD(1) [OF ok] by (simp add: routes_inv_def)
  then have es: "set (iiter (key_order E) (management w)) = set (management w)" by (rule iiter_set [OF ord])
  obtain r u where "source_entry w i r u" using src by (cases x) (auto simp: worker_abs_Some)
  then have "(i, Some r) \<in> set (management w)" by (auto simp: source_entry_def dest: um_find_SomeD)
  moreover have "has_stats (store ?w r)" if "(i, Some r) \<in> set (management w)" for i r
    using ik.wf_find_in [OF wf that] st by (simp add: stats_ok_def)
  ultimately have "update_lists E (iiter (key_order E) (management w)) ?w (sys_sleep E 10 k) = Inl MissingReturn"
    by (intro update_lists_missing [OF falls clock]) (simp_all add: es)
  then show ?thesis by (simp add: generateStats_round_def Let_def)
qed

lemma update_lists_none: "(\<And>i r. (i, Some r) \<notin> set es) \<Longrightarrow> update_lists E es w k = Inr (w, [], k)"
proof (induction es)
  case (Cons x es)
  obtain i q where x: "x = (i, q)" by (cases x)
  then show ?case using Cons by (cases q) auto
qed simp

lemma generateStats_round_empty:
  assumes ok: "worker_ok w" and ord: "ord_ok (key_order E)" and none: "worker_abs w = Map.empty"
  shows "\<exists>x. generateStats_round E w k = Inr x"
proof -
  have wf: "iwf (management w)" using worker_okD(1) [OF ok] by (simp add: routes_inv_def)
  have "(i, Some r) \<notin> set (iiter (key_order E) (management w))" for i r
  proof
    assume "(i, Some r) \<in> set (iiter (key_order E) (management w))"
    then have "ifind (management w) i = Some (Some r)"
      by (intro ik.wf_find_in [OF wf]) (simp add: iiter_set [OF ord wf])
    then obtain u where "source_entry w i r u" using routes_entry_source [OF worker_okD(1) [OF ok]] by blast
    then have "worker_abs w i = Some (addr u, dest_map (store w r))" by (auto simp: worker_abs_Some)
    then show False by (simp add: none)
  qed
  then show ?thesis by (simp add: generateStats_round_def Let_def update_lists_none)
qed

end
