(* ===== verification/Rtcp.thy ===== *)
theory Rtcp
  imports Packets
begin

text \<open>
  \<^verbatim>\<open>RtcpWorker\<close> (\<^verbatim>\<open>src/workers/RtcpWorker.cpp\<close>): a source is a pair of streams, RTP on the given
  port and identifier and RTCP on the next ones, and \<^verbatim>\<open>add_socket\<close> and \<^verbatim>\<open>remove_socket\<close> are
  redefined to open and close both ports.
\<close>

definition RtcpWorker_new :: "int \<Rightarrow> worker" where
  "RtcpWorker_new i =
     setWorkerType RTCP_WORKER_TYPE (setWorkerType FWD_WORKER_TYPE (Worker_new RtcpClass i))"

section \<open>Sockets in pairs\<close>

definition add_socket_rtcp :: "'k env \<Rightarrow> int \<Rightarrow> worker \<Rightarrow> 'k \<Rightarrow> int \<times> worker \<times> 'k" where
  "add_socket_rtcp E port w k =
     (case iindex 0 (portListener w) port of (n, pl) \<Rightarrow>
       let w1 = w\<lparr>portListener := pl\<rparr> in
       if n \<noteq> 0 then (0, w1\<lparr>portListener := iput pl port (n + 1)\<rparr>, k)
       else case init_socket E port k of (fd, k1) \<Rightarrow>
         case init_socket E (port + 1) k1 of (fd2, k2) \<Rightarrow>
         if fd = -1 then (-1, w1, k2)
         else if fd2 = -1 then (-1, w1, k2)
         else
           let w2 = w1\<lparr>portFd := iput (portFd w1) port fd,
                       fdPort := iput (fdPort w1) fd port,
                       portListener := iput (portListener w1) port 1\<rparr>
           in (1, w2\<lparr>portFd := iput (portFd w2) (port + 1) fd2,
                     fdPort := iput (fdPort w2) fd2 (port + 1),
                     portListener := iput (portListener w2) (port + 1) 1\<rparr>, k2))"

definition remove_socket_rtcp :: "'k env \<Rightarrow> int \<Rightarrow> worker \<Rightarrow> 'k \<Rightarrow> bool \<times> worker \<times> 'k" where
  "remove_socket_rtcp E port w k =
     (case iindex 0 (portListener w) port of (n, pl) \<Rightarrow>
       let w1 = w\<lparr>portListener := iput pl port (n - 1)\<rparr> in
       if n - 1 = 0 then
         (case iindex 0 (portFd w1) port of (fd, pf) \<Rightarrow>
          case iindex 0 pf (port + 1) of (fd2, pf2) \<Rightarrow>
           let w2 = w1\<lparr>portFd := ierase pf2 port,
                       fdPort := ierase (fdPort w1) fd,
                       portListener := ierase (portListener w1) port\<rparr>;
               k1 = sys_close E fd k;
               w3 = w2\<lparr>portFd := ierase (portFd w2) (port + 1),
                       fdPort := ierase (fdPort w2) fd2,
                       portListener := ierase (portListener w2) (port + 1)\<rparr>
           in (True, w3, sys_close E fd2 k1))
       else (False, w1, k))"

section \<open>Sources and destinations in pairs\<close>

definition addSource_rtcp ::
    "'k env \<Rightarrow> int \<Rightarrow> string \<Rightarrow> int \<Rightarrow> worker \<Rightarrow> 'k \<Rightarrow> (bool \<times> worker \<times> 'k) res" where
  "addSource_rtcp E src_id ip port w k =
     (let udpstream = setAddr E ip port (setId src_id (UdpStream_new E 0 k));
          udpstream2 = setAddr E ip (port + 1) (setId (src_id + 1) (UdpStream_new E 1 k)) in
      case getListIdBySocket (getAddr udpstream) w of (i, w1) \<Rightarrow>
        if i \<noteq> 0 then Inr (False, w1, k)
        else case getListIdBySocket (getAddr udpstream2) w1 of (i2, w2) \<Rightarrow>
          if i2 \<noteq> 0 then Inr (False, w2, k)
          else
            let streamlist = setSource udpstream (setListId src_id StreamList_new);
                streamlist2 = setSource udpstream2 (setListId (src_id + 1) StreamList_new) in
            case add_socket_rtcp E port w2 k of (ret, w3, k1) \<Rightarrow>
            case add_socket_rtcp E (port + 1) w3 k1 of (ret2, w4, k2) \<Rightarrow>
              if ret \<noteq> -1 \<and> ret2 \<noteq> -1 then
                (case new_list streamlist w4 of (r, w5) \<Rightarrow>
                 case new_list streamlist2 w5 of (r2, w6) \<Rightarrow>
                  bindE (addStreamList src_id (Some r) w6) (\<lambda>w7.
                  bindE (addStreamList (src_id + 1) (Some r2) w7) (\<lambda>w8. Inr (True, w8, k2))))
              else Inr (False, w4, k2))"

definition removeSource_rtcp :: "'k env \<Rightarrow> int \<Rightarrow> worker \<Rightarrow> 'k \<Rightarrow> (worker \<times> 'k) res" where
  "removeSource_rtcp E src_id w k =
     (case getStreamList src_id w of (p, w1) \<Rightarrow>
      bindE (deref p) (\<lambda>r. bindE (getSourcePort (store w1 r)) (\<lambda>port.
        case remove_socket_rtcp E port w1 k of (_, w2, k1) \<Rightarrow>
        case getStreamList (src_id + 1) w2 of (p2, w3) \<Rightarrow>
        bindE (deref p2) (\<lambda>r2. bindE (getSourcePort (store w3 r2)) (\<lambda>port2.
          case remove_socket_rtcp E port2 w3 k1 of (_, w4, k2) \<Rightarrow>
          bindE (removeStreamList src_id w4) (\<lambda>w5.
          bindE (removeStreamList (src_id + 1) w5) (\<lambda>w6. Inr (w6, k2))))))))"

definition addDestination_rtcp ::
    "'k env \<Rightarrow> int \<Rightarrow> int \<Rightarrow> string \<Rightarrow> int \<Rightarrow> worker \<Rightarrow> 'k \<Rightarrow> (worker \<times> 'k) res" where
  "addDestination_rtcp E src_id dest_id ip port w k =
     (let udpstream = setAddr E ip port (setId dest_id (UdpStream_new E 0 k));
          udpstream2 = setAddr E ip (port + 1) (setId (dest_id + 1) (UdpStream_new E 1 k)) in
      case getStreamList src_id w of (p, w1) \<Rightarrow>
      case getStreamList (src_id + 1) w1 of (p2, w2) \<Rightarrow>
      bindE (deref p) (\<lambda>r.
        case addDestination_list udpstream (store w2 r) of (added, l) \<Rightarrow>
          let w3 = set_list r l w2 in
          if \<not> added then Inr (w3, k)
          else bindE (deref p2) (\<lambda>r2.
            case addDestination_list udpstream2 (store w3 r2) of (added2, l2) \<Rightarrow>
              let w4 = set_list r2 l2 w3 in
              if \<not> added2 then Inr (w4, k)
              else bindE (addStreamList src_id p w4) (\<lambda>w5.
                   bindE (addStreamList (src_id + 1) p2 w5) (\<lambda>w6. Inr (w6, k))))))"

definition removeDestination_rtcp ::
    "'k env \<Rightarrow> int \<Rightarrow> int \<Rightarrow> worker \<Rightarrow> 'k \<Rightarrow> (worker \<times> 'k) res" where
  "removeDestination_rtcp E src_id dest_id w k =
     (case getStreamList src_id w of (p, w1) \<Rightarrow>
      case getStreamList (src_id + 1) w1 of (p2, w2) \<Rightarrow>
      bindE (deref p) (\<lambda>r.
        if \<not> existDestination dest_id (store w2 r) then Inr (w2, k)
        else bindE (deref p2) (\<lambda>r2.
          if \<not> existDestination (dest_id + 1) (store w2 r2) then Inr (w2, k)
          else bindE (remDestination dest_id (store w2 r)) (\<lambda>(_, l).
            let w3 = set_list r l w2 in
            bindE (remDestination (dest_id + 1) (store w3 r2)) (\<lambda>(_, l2).
              let w4 = set_list r2 l2 w3 in
              bindE (addStreamList src_id p w4) (\<lambda>w5.
              bindE (addStreamList (src_id + 1) p2 w5) (\<lambda>w6. Inr (w6, k))))))))"

end
