(* ===== verification/Worker_Virtual.thy ===== *)
theory Worker_Virtual
  imports Stats Rtcp
begin

text \<open>
  The interface the \<^verbatim>\<open>Manager\<close> calls: the virtual functions \<^verbatim>\<open>addSource\<close>, \<^verbatim>\<open>removeSource\<close>,
  \<^verbatim>\<open>addDestination\<close> and \<^verbatim>\<open>removeDestination\<close> of \<^verbatim>\<open>Worker.h\<close>. The locale \<open>stream_worker\<close> states what
  a client may rely on; it is interpreted on the operations of \<^verbatim>\<open>ForwardWorker\<close>, on those of
  \<^verbatim>\<open>StatsWorker\<close> and on the dispatch over the class of an object. \<open>platform_ok\<close> collects the
  documented behaviour of the platform.
\<close>

definition platform_ok :: "'k env \<Rightarrow> ('k \<Rightarrow> int set) \<Rightarrow> bool" where
  "platform_ok E opn \<longleftrightarrow>
     sockets_ok E opn \<and> clock_ok E \<and> ord_ok (key_order E) \<and> descriptor_limit opn"

lemma platform_okD:
  "platform_ok E opn \<Longrightarrow> sockets_ok E opn" "platform_ok E opn \<Longrightarrow> clock_ok E"
  "platform_ok E opn \<Longrightarrow> ord_ok (key_order E)" "platform_ok E opn \<Longrightarrow> descriptor_limit opn"
  by (simp_all add: platform_ok_def)

lemma sim_platform_ok: "platform_ok sim_env sim_open"
proof -
  have "clock_ok sim_env" "ord_ok (key_order sim_env)"
    by (simp_all add: clock_ok_def ord_ok_def sim_env_def)
  then show ?thesis by (simp add: platform_ok_def sim_sockets_ok sim_limit)
qed

section \<open>The statistics part survives the operations\<close>

definition lists_kept :: "worker \<Rightarrow> worker \<Rightarrow> bool" where
  "lists_kept w w' \<longleftrightarrow>
     (\<forall>i r. ifind (management w') i = Some (Some r) \<longrightarrow>
        ifind (management w) i = Some (Some r) \<and>
        stats (store w' r) = stats (store w r) \<and> timeStamp (store w' r) = timeStamp (store w r))"

lemma stats_ok_kept: "stats_ok w \<Longrightarrow> lists_kept w w' \<Longrightarrow> stats_ok w'"
  unfolding stats_ok_def lists_kept_def has_stats_def by metis

lemma getStreamList_keeps:
  assumes "getStreamList i w = (p, w')"
  shows "store w' = store w" "ifind (management w') j =
      (if j = i then Some p else ifind (management w) j)" "p = Some r \<Longrightarrow> ifind (management w) i = Some (Some r)"
  using assms by (auto simp: getStreamList_def um_index_def split: option.splits prod.splits)

lemma removeSource_keeps:
  assumes "removeSource E i w k = Inr (w', k')"
  shows "lists_kept w w'"
proof -
  obtain p w1 where g: "getStreamList i w = (p, w1)" by fastforce
  obtain r where p: "p = Some r" using assms by (cases p) (simp_all add: removeSource_def g)
  note k1 = getStreamList_keeps [OF g]
  obtain port where port: "getSourcePort (store w1 r) = Inr port"
    using assms by (cases "getSourcePort (store w1 r)") (simp_all add: removeSource_def g p)
  obtain b w2 k1 where s: "remove_socket E port w1 k = (b, w2, k1)" by (metis prod_cases3)
  note fr = remove_socket_frame [OF s]
  obtain w3 where w3: "removeStreamList i w2 = Inr w3"
    using assms by (cases "removeStreamList i w2") (simp_all add: removeSource_def g p port s)
  have "ifind (management w3) j = (if j = i then None else ifind (management w2) j)" "store w3 = store w2" for j
    using w3 by (auto simp: removeStreamList_def getStreamList_def um_index_def bindE_Inr_iff
        split: prod.splits option.splits)
  moreover have "management w' = management w3" "store w' = store w3"
    using assms w3 by (auto simp: removeSource_def g p port s bindE_Inr_iff stop_def Let_def split: if_splits)
  ultimately show ?thesis using k1 fr by (auto simp: lists_kept_def split: if_splits)
qed

lemma addStreamList_keeps:
  "addStreamList i p w = Inr w' \<Longrightarrow> store w' = store w \<and> management w' = iput (management w) i p"
  by (auto simp: addStreamList_def bindE_Inr_iff)

lemma addDestination_list_keeps:
  "addDestination_list d l = (b, l') \<Longrightarrow> stats l' = stats l \<and> timeStamp l' = timeStamp l"
  by (auto simp: addDestination_list_def split: if_splits)

lemma addDestination_keeps:
  assumes "addDestination E i d ip port w k = Inr (w', k')"
  shows "lists_kept w w'"
proof -
  obtain p w1 where g: "getStreamList i w = (p, w1)" by fastforce
  obtain r where p: "p = Some r" using assms by (cases p) (simp_all add: addDestination_def Let_def g)
  note k1 = getStreamList_keeps [OF g]
  let ?u = "setAddr E ip port (setId d (UdpStream_new E 0 k))"
  obtain b l where a: "addDestination_list ?u (store w1 r) = (b, l)" by fastforce
  have "management w' = management w1 \<or> management w' = iput (management w1) i (Some r)"
      "store w' = (store w1)(r := l)"
    using assms by (auto simp: addDestination_def Let_def g p a bindE_Inr_iff set_list_def
        dest!: addStreamList_keeps split: if_splits)
  then show ?thesis
    using k1 p addDestination_list_keeps [OF a] by (auto simp: lists_kept_def split: if_splits)
qed

lemma removeDestination_keeps:
  assumes "removeDestination E i d w k = Inr (w', k')"
  shows "lists_kept w w'"
proof -
  obtain p w1 where g: "getStreamList i w = (p, w1)" by fastforce
  obtain r where p: "p = Some r" using assms by (cases p) (simp_all add: removeDestination_def g)
  note k1 = getStreamList_keeps [OF g]
  show ?thesis
  proof (cases "existDestination d (store w1 r)")
    case False
    then show ?thesis using assms k1 p by (auto simp: removeDestination_def g lists_kept_def split: if_splits)
  next
    case True
    then have "management w' = iput (management w1) i (Some r)"
        "store w' = (store w1)(r := erase_it (findDestination d (store w1 r)) (store w1 r))"
      using assms by (auto simp: removeDestination_def g p remDestination_eq bindE_Inr_iff set_list_def
          dest!: addStreamList_keeps)
    then show ?thesis using k1 p by (auto simp: lists_kept_def erase_it_def split: if_splits)
  qed
qed

section \<open>StatsWorker's addSource\<close>

lemma addSource_stats_with:
  "addSource_stats E i ip port w k =
     (case StatsStreamList_new E k of (l0, k0) \<Rightarrow>
        add_with E (setAddr E ip port (setId i (UdpStream_new E 0 k))) l0 i port w k0)"
  unfolding addSource_stats_def add_with_def Let_def by (rule refl)

lemma op_frame_start:
  "opn k0 = opn k \<Longrightarrow> op_frame opn w k0 w' k' = op_frame opn w k w' k'"
  by (simp add: op_frame_def)

lemma addSource_stats_contract:
  assumes ok: "worker_ok w" "stats_ok w" and os: "sockets_ok E opn" "clock_ok E"
    and fds: "fds_open opn w k"
    and new: "i \<noteq> 0" "worker_abs w i = None" and vp: "valid_port port"
    and a: "a = source_addr E ip port k"
  shows "ensures (addSource_stats E i ip port w k) (\<lambda>(b, w', k').
    (worker_ok w' \<and> stats_ok w') \<and> op_frame opn w k w' k' \<and> working w' = working w \<and>
    (if has_source (worker_abs w) a then \<not> b \<and> worker_abs w' = worker_abs w
     else if b then worker_abs w' = (worker_abs w)(i \<mapsto> (a, Map.empty)) \<and> hasPort port w'
     else worker_abs w' = worker_abs w \<and> \<not> hasPort port w))"
proof -
  obtain t k0 where t: "sys_time E k = (t, k0)" by fastforce
  have opn0: "opn k0 = opn k" using sockets_ok_neutral(5) [OF os(1), of k] by (simp add: t)
  have range: "0 \<le> t \<and> t < 2147483648" using os(2) t unfolding clock_ok_def by (metis fst_conv)
  define l0 where "l0 = fst (StatsStreamList_new E k)"
  have l0: "StatsStreamList_new E k = (l0, k0)" "destinations l0 = []"
      "has_stats (setSource u (setListId i l0))" for u
    using range by (simp_all add: l0_def StatsStreamList_new_def t StreamList_new_def clear_def
        setListId_def setSource_def has_stats_def)
  let ?u = "setAddr E ip port (setId i (UdpStream_new E 0 k))"
  have u: "addr ?u = a" "getId ?u = i" "source_port ?u = port"
    using a source_port_setAddr [OF vp] by simp_all
  have fds0: "fds_open opn w k0" using fds by (simp add: fds_open_def opn0)
  note c = add_with_contract [OF ok(1) os(1) fds0 new u(2,3) l0(2), unfolded u(1) op_frame_start [where opn = opn, OF opn0]]
  show ?thesis
    unfolding addSource_stats_with l0(1) prod.case
  proof (rule ensures_mono [OF c], clarify, intro conjI)
    fix b w' k'
    assume ww: "worker_ok w'"
      and new_l: "if has_source (worker_abs w) a then \<not> b \<and> worker_abs w' = worker_abs w
        else if b then worker_abs w' = (worker_abs w)(i \<mapsto> (a, Map.empty)) \<and> hasPort port w' \<and>
          store w' = (store w)(next_ref w := setSource ?u (setListId i l0)) \<and>
          ifind (management w') i = Some (Some (next_ref w))
        else worker_abs w' = worker_abs w \<and> \<not> hasPort port w"
      and same: "\<not> b \<longrightarrow> store w' = store w"
      and mgmt: "\<forall>j. j \<noteq> i \<longrightarrow> ifind (management w') j = ifind (management w) j"
    have old: "ifind (management w) i = None" by (rule fresh_id [OF worker_okD(1) [OF ok(1)] new])
    show "stats_ok w'"
      unfolding stats_ok_def
    proof (intro allI impI)
      fix j r
      assume j: "ifind (management w') j = Some (Some r)"
      show "has_stats (store w' r)"
      proof (cases "j = i")
        case False
        then have m: "ifind (management w) j = Some (Some r)" using j mgmt by simp
        then have "r \<noteq> next_ref w" by (rule store_old [OF worker_okD(1) [OF ok(1)]])
        moreover have "has_stats (store w r)" using ok(2) m by (simp add: stats_ok_def)
        ultimately show ?thesis using new_l same by (cases b) (auto split: if_splits)
      next
        case True
        have "worker_abs w' i \<noteq> None"
          using routes_entry [OF worker_okD(1) [OF ww] j] j True
          by (auto simp: list_conforms_def worker_abs_def)
        then have "b" and "store w' r = setSource ?u (setListId i l0)"
          using new_l new(2) j True by (auto split: if_splits)
        then show ?thesis using l0(3) by simp
      qed
    qed
  qed (auto split: if_splits)
qed

section \<open>Ports and the view\<close>

text \<open>The listener count of a port is the number of sources the view has on it.\<close>

definition sources_on :: "(int \<Rightarrow> (sockaddr_in \<times> (int \<Rightarrow> sockaddr_in option)) option) \<Rightarrow> int \<Rightarrow> int set" where
  "sources_on A p = {i. \<exists>a D. A i = Some (a, D) \<and> port_of a = p}"

lemma iwf_distinct: "iwf m \<Longrightarrow> distinct (map fst m)"
  by (induction m) (force simp: um_find_None_fst)+

lemma sources_on_keys:
  assumes "routes_inv w"
  shows "sources_on (worker_abs w) p = fst ` set (filter (\<lambda>(_, q). on_port w p q) (management w))"
proof -
  have wf: "iwf (management w)" using assms by (simp add: routes_inv_def)
  have mem: "ifind (management w) i = Some q \<longleftrightarrow> (i, q) \<in> set (management w)" for i q
    using ik.wf_find_in [OF wf] by (auto dest: um_find_SomeD)
  have "i \<in> sources_on (worker_abs w) p \<longleftrightarrow> (\<exists>q. ifind (management w) i = Some q \<and> on_port w p q)" for i
    by (auto simp: sources_on_def worker_abs_def on_port_def source_port_of split: option.splits)
  then show ?thesis unfolding mem by (auto simp: image_iff)
qed

lemma n_sources_card:
  assumes "routes_inv w"
  shows "n_sources w p = card (sources_on (worker_abs w) p)"
    and "finite (sources_on (worker_abs w) p)"
proof -
  have "distinct (map fst (management w))" using assms by (simp add: routes_inv_def iwf_distinct)
  then have "distinct (map fst (filter (\<lambda>(_, q). on_port w p q) (management w)))"
    by (rule distinct_map_filter)
  then have "card (set (map fst (filter (\<lambda>(_, q). on_port w p q) (management w)))) = n_sources w p"
    unfolding n_sources_def by (metis distinct_card length_map)
  then show "n_sources w p = card (sources_on (worker_abs w) p)"
    by (simp add: sources_on_keys [OF assms])
  show "finite (sources_on (worker_abs w) p)" by (simp add: sources_on_keys [OF assms])
qed

lemma hasPort_sources:
  assumes "worker_ok w"
  shows "hasPort p w \<longleftrightarrow> sources_on (worker_abs w) p \<noteq> {}"
proof -
  note inv = worker_okD [OF assms]
  have "hasPort p w \<longleftrightarrow> n_sources w p \<noteq> 0"
    using shape_portFd [OF inv(2), of p] by (simp add: hasPort_iff)
  then show ?thesis using n_sources_card [OF inv(1), of p] by (simp add: card_eq_0_iff)
qed

section \<open>The interface\<close>

locale stream_worker =
  fixes good :: "worker \<Rightarrow> bool"
    and add :: "'k env \<Rightarrow> int \<Rightarrow> string \<Rightarrow> int \<Rightarrow> worker \<Rightarrow> 'k \<Rightarrow> (bool \<times> worker \<times> 'k) res"
    and rem :: "'k env \<Rightarrow> int \<Rightarrow> worker \<Rightarrow> 'k \<Rightarrow> (worker \<times> 'k) res"
    and addd :: "'k env \<Rightarrow> int \<Rightarrow> int \<Rightarrow> string \<Rightarrow> int \<Rightarrow> worker \<Rightarrow> 'k \<Rightarrow> (worker \<times> 'k) res"
    and remd :: "'k env \<Rightarrow> int \<Rightarrow> int \<Rightarrow> worker \<Rightarrow> 'k \<Rightarrow> (worker \<times> 'k) res"
  assumes good_ok: "good w \<Longrightarrow> worker_ok w"
    and add_law: "good w \<Longrightarrow> platform_ok E opn \<Longrightarrow> fds_open opn w k \<Longrightarrow> i \<noteq> 0 \<Longrightarrow>
      worker_abs w i = None \<Longrightarrow> valid_port port \<Longrightarrow> a = source_addr E ip port k \<Longrightarrow>
      ensures (add E i ip port w k) (\<lambda>(b, w', k').
        good w' \<and> op_frame opn w k w' k' \<and> working w' = working w \<and>
        (if has_source (worker_abs w) a then \<not> b \<and> worker_abs w' = worker_abs w
         else if b then worker_abs w' = (worker_abs w)(i \<mapsto> (a, Map.empty)) \<and> hasPort port w'
         else worker_abs w' = worker_abs w \<and> \<not> hasPort port w))"
    and rem_law: "good w \<Longrightarrow> platform_ok E opn \<Longrightarrow> fds_open opn w k \<Longrightarrow>
      worker_abs w i = Some (a, D) \<Longrightarrow> launched w \<Longrightarrow>
      ensures (rem E i w k) (\<lambda>(w', k').
        good w' \<and> op_frame opn w k w' k' \<and> worker_abs w' = (worker_abs w)(i := None) \<and>
        working w' = (working w \<and> \<not> isEmpty w') \<and>
        k' = (let k1 = after_close E w (port_of a) k
              in if isEmpty w' then sendMessage E (no_job_message w) k1 else k1))"
    and addd_law: "good w \<Longrightarrow> platform_ok E opn \<Longrightarrow> fds_open opn w k \<Longrightarrow>
      worker_abs w i = Some (a, D) \<Longrightarrow>
      ensures (addd E i d ip port w k) (\<lambda>(w', k').
        good w' \<and> op_frame opn w k w' k' \<and> k' = k \<and> working w' = working w \<and>
        worker_abs w' = (worker_abs w)(i \<mapsto>
          (a, if D d = None then D(d \<mapsto> source_addr E ip port k) else D)))"
    and remd_law: "good w \<Longrightarrow> platform_ok E opn \<Longrightarrow> fds_open opn w k \<Longrightarrow>
      worker_abs w i = Some (a, D) \<Longrightarrow>
      ensures (remd E i d w k) (\<lambda>(w', k').
        good w' \<and> op_frame opn w k w' k' \<and> k' = k \<and> working w' = working w \<and>
        worker_abs w' = (worker_abs w)(i \<mapsto> (a, D(d := None))))"
begin

lemma port_open_iff: "good w \<Longrightarrow> hasPort p w \<longleftrightarrow> sources_on (worker_abs w) p \<noteq> {}"
  by (rule hasPort_sources [OF good_ok])

text \<open>A source that was added and is removed again leaves no trace in the view or the sockets.\<close>

lemma add_rem:
  assumes good: "good w" and p: "platform_ok E opn" and fds: "fds_open opn w k" and i: "i \<noteq> 0"
    and new: "worker_abs w i = None" and port: "valid_port port" and th: "launched w"
    and run: "add E i ip port w k = Inr (True, w1, k1)"
  shows "ensures (rem E i w1 k1) (\<lambda>(w2, k2).
    good w2 \<and> worker_abs w2 = worker_abs w \<and> (\<forall>q. hasPort q w2 = hasPort q w))"
proof -
  let ?a = "source_addr E ip port k"
  have c: "good w1" "op_frame opn w k w1 k1" "worker_abs w1 = (worker_abs w)(i \<mapsto> (?a, Map.empty))"
    using add_law [OF good p fds i new port refl, of ip] run by (auto split: if_splits)
  have fds1: "fds_open opn w1 k1" and th1: "launched w1"
    using c(2) th by (simp_all add: op_frame_def same_worker_def)
  have m: "worker_abs w1 i = Some (?a, Map.empty)" by (simp add: c(3))
  show ?thesis
  proof (rule ensures_mono [OF rem_law [OF c(1) p fds1 m th1]], clarify, intro conjI)
    fix w2 k2
    assume g: "good w2" and v: "worker_abs w2 = (worker_abs w1)(i := None)"
    show abs: "worker_abs w2 = worker_abs w" using new by (simp add: v c(3) fun_upd_idem)
    show "\<forall>q. hasPort q w2 = hasPort q w"
      using port_open_iff [OF g] port_open_iff [OF good] abs by simp
  qed
qed

lemma addd_remd:
  assumes good: "good w" and p: "platform_ok E opn" and fds: "fds_open opn w k"
    and src: "worker_abs w i = Some (a, D)" and new: "D d = None"
  shows "ensures (bindE (addd E i d ip port w k) (\<lambda>(w1, k1). remd E i d w1 k1)) (\<lambda>(w2, k2).
    good w2 \<and> worker_abs w2 = worker_abs w \<and> k2 = k)"
proof -
  let ?D = "D(d \<mapsto> source_addr E ip port k)"
  show ?thesis
    unfolding ensures_bindE
  proof (rule ensures_mono [OF addd_law [OF good p fds src]], clarify)
    fix w1
    assume g: "good w1" and fr: "op_frame opn w k w1 k"
      and v: "worker_abs w1 = (worker_abs w)(i \<mapsto>
        (a, if D d = None then ?D else D))"
    have fds1: "fds_open opn w1 k" using fr by (simp add: op_frame_def)
    have m: "worker_abs w1 i = Some (a, ?D)" using v new by simp
    show "ensures (remd E i d w1 k) (\<lambda>(w2, k2). good w2 \<and> worker_abs w2 = worker_abs w \<and> k2 = k)"
      using new src
      by (intro ensures_mono [OF remd_law [OF g p fds1 m]]) (auto simp: v fun_upd_idem)
  qed
qed

end

section \<open>The classes that provide it\<close>

interpretation fw: stream_worker worker_ok addSource removeSource addDestination removeDestination
proof unfold_locales
  fix w E opn i ip port a d D and k :: 'k
  assume ok: "worker_ok w" and p: "platform_ok (E :: 'k env) opn" and fds: "fds_open opn w k"
  note os = platform_okD(1) [OF p]
  show "i \<noteq> 0 \<Longrightarrow> worker_abs w i = None \<Longrightarrow> valid_port port \<Longrightarrow> a = source_addr E ip port k \<Longrightarrow>
      ensures (addSource E i ip port w k) (\<lambda>(b, w', k').
        worker_ok w' \<and> op_frame opn w k w' k' \<and> working w' = working w \<and>
        (if has_source (worker_abs w) a then \<not> b \<and> worker_abs w' = worker_abs w
         else if b then worker_abs w' = (worker_abs w)(i \<mapsto> (a, Map.empty)) \<and> hasPort port w'
         else worker_abs w' = worker_abs w \<and> \<not> hasPort port w))"
    by (rule addSource_contract [OF ok os fds])
  show "ensures (removeSource E i w k) (\<lambda>(w', k').
        worker_ok w' \<and> op_frame opn w k w' k' \<and> worker_abs w' = (worker_abs w)(i := None) \<and>
        working w' = (working w \<and> \<not> isEmpty w') \<and>
        k' = (let k1 = after_close E w (port_of a) k
              in if isEmpty w' then sendMessage E (no_job_message w) k1 else k1))"
    if "worker_abs w i = Some (a, D)" "launched w"
    by (rule ensures_mono [OF removeSource_contract [OF ok os fds that]]) auto
  assume src: "worker_abs w i = Some (a, D)"
  show "ensures (addDestination E i d ip port w k) (\<lambda>(w', k').
        worker_ok w' \<and> op_frame opn w k w' k' \<and> k' = k \<and> working w' = working w \<and>
        worker_abs w' = (worker_abs w)(i \<mapsto>
          (a, if D d = None then D(d \<mapsto> source_addr E ip port k) else D)))"
    by (rule addDestination_contract [OF ok fds src])
  show "ensures (removeDestination E i d w k) (\<lambda>(w', k').
        worker_ok w' \<and> op_frame opn w k w' k' \<and> k' = k \<and> working w' = working w \<and>
        worker_abs w' = (worker_abs w)(i \<mapsto> (a, D(d := None))))"
    by (rule removeDestination_contract [OF ok fds src])
qed

definition stats_good :: "worker \<Rightarrow> bool" where
  "stats_good w \<longleftrightarrow> worker_ok w \<and> stats_ok w"

lemma ensures_kept:
  assumes "ensures m (\<lambda>(w', k'). worker_ok w' \<and> Q w' k')" and "stats_good w"
    and "\<And>w' k'. m = Inr (w', k') \<Longrightarrow> lists_kept w w'"
  shows "ensures m (\<lambda>(w', k'). stats_good w' \<and> Q w' k')"
  using assms stats_ok_kept [of w]
  by (auto simp: ensures_Inr stats_good_def)

interpretation sw: stream_worker stats_good addSource_stats removeSource addDestination removeDestination
proof unfold_locales
  fix w E opn i ip port a d D and k :: 'k
  assume good: "stats_good w" and p: "platform_ok (E :: 'k env) opn" and fds: "fds_open opn w k"
  note os = platform_okD(1) [OF p]
  have ok: "worker_ok w" "stats_ok w" using good by (simp_all add: stats_good_def)
  show "i \<noteq> 0 \<Longrightarrow> worker_abs w i = None \<Longrightarrow> valid_port port \<Longrightarrow> a = source_addr E ip port k \<Longrightarrow>
      ensures (addSource_stats E i ip port w k) (\<lambda>(b, w', k').
        stats_good w' \<and> op_frame opn w k w' k' \<and> working w' = working w \<and>
        (if has_source (worker_abs w) a then \<not> b \<and> worker_abs w' = worker_abs w
         else if b then worker_abs w' = (worker_abs w)(i \<mapsto> (a, Map.empty)) \<and> hasPort port w'
         else worker_abs w' = worker_abs w \<and> \<not> hasPort port w))"
    using addSource_stats_contract [OF ok os platform_okD(2) [OF p] fds] by (simp add: stats_good_def)
  show "ensures (removeSource E i w k) (\<lambda>(w', k').
        stats_good w' \<and> op_frame opn w k w' k' \<and> worker_abs w' = (worker_abs w)(i := None) \<and>
        working w' = (working w \<and> \<not> isEmpty w') \<and>
        k' = (let k1 = after_close E w (port_of a) k
              in if isEmpty w' then sendMessage E (no_job_message w) k1 else k1))"
    if "worker_abs w i = Some (a, D)" "launched w"
    by (rule ensures_kept [OF fw.rem_law [OF ok(1) p fds that] good removeSource_keeps])
  assume src: "worker_abs w i = Some (a, D)"
  show "ensures (addDestination E i d ip port w k) (\<lambda>(w', k').
        stats_good w' \<and> op_frame opn w k w' k' \<and> k' = k \<and> working w' = working w \<and>
        worker_abs w' = (worker_abs w)(i \<mapsto>
          (a, if D d = None then D(d \<mapsto> source_addr E ip port k) else D)))"
    by (rule ensures_kept [OF fw.addd_law [OF ok(1) p fds src] good addDestination_keeps])
  show "ensures (removeDestination E i d w k) (\<lambda>(w', k').
        stats_good w' \<and> op_frame opn w k w' k' \<and> k' = k \<and> working w' = working w \<and>
        worker_abs w' = (worker_abs w)(i \<mapsto> (a, D(d := None))))"
    by (rule ensures_kept [OF fw.remd_law [OF ok(1) p fds src] good removeDestination_keeps])
qed (simp add: stats_good_def)

section \<open>Dispatch over the class of an object\<close>

definition virtual_addSource ::
    "'k env \<Rightarrow> int \<Rightarrow> string \<Rightarrow> int \<Rightarrow> worker \<Rightarrow> 'k \<Rightarrow> (bool \<times> worker \<times> 'k) res" where
  "virtual_addSource E i ip port w k =
     (case wclass w of
        StatsClass \<Rightarrow> addSource_stats E i ip port w k
      | RtcpClass \<Rightarrow> addSource_rtcp E i ip port w k
      | _ \<Rightarrow> addSource E i ip port w k)"

definition virtual_removeSource :: "'k env \<Rightarrow> int \<Rightarrow> worker \<Rightarrow> 'k \<Rightarrow> (worker \<times> 'k) res" where
  "virtual_removeSource E i w k =
     (case wclass w of RtcpClass \<Rightarrow> removeSource_rtcp E i w k | _ \<Rightarrow> removeSource E i w k)"

definition virtual_addDestination ::
    "'k env \<Rightarrow> int \<Rightarrow> int \<Rightarrow> string \<Rightarrow> int \<Rightarrow> worker \<Rightarrow> 'k \<Rightarrow> (worker \<times> 'k) res" where
  "virtual_addDestination E i d ip port w k =
     (case wclass w of
        RtcpClass \<Rightarrow> addDestination_rtcp E i d ip port w k
      | _ \<Rightarrow> addDestination E i d ip port w k)"

definition virtual_removeDestination ::
    "'k env \<Rightarrow> int \<Rightarrow> int \<Rightarrow> worker \<Rightarrow> 'k \<Rightarrow> (worker \<times> 'k) res" where
  "virtual_removeDestination E i d w k =
     (case wclass w of
        RtcpClass \<Rightarrow> removeDestination_rtcp E i d w k
      | _ \<Rightarrow> removeDestination E i d w k)"

text \<open>The worker objects the interface is promised for.\<close>

definition worker_good :: "worker \<Rightarrow> bool" where
  "worker_good w \<longleftrightarrow>
     worker_ok w \<and> wclass w \<noteq> RtcpClass \<and> (wclass w = StatsClass \<longrightarrow> stats_ok w)"

lemma worker_good_iff:
  "wclass w = StatsClass \<Longrightarrow> worker_good w = stats_good w"
  "wclass w \<noteq> StatsClass \<Longrightarrow> wclass w \<noteq> RtcpClass \<Longrightarrow> worker_good w = worker_ok w"
  by (auto simp: worker_good_def stats_good_def)

lemma virtual_stats:
  "wclass w = StatsClass \<Longrightarrow> virtual_addSource E i ip port w k = addSource_stats E i ip port w k"
  by (simp add: virtual_addSource_def)

lemma virtual_plain:
  "wclass w \<noteq> RtcpClass \<Longrightarrow> virtual_removeSource E i w k = removeSource E i w k"
  "wclass w \<noteq> RtcpClass \<Longrightarrow> virtual_addDestination E i d ip port w k = addDestination E i d ip port w k"
  "wclass w \<noteq> RtcpClass \<Longrightarrow> virtual_removeDestination E i d w k = removeDestination E i d w k"
  "wclass w \<noteq> RtcpClass \<Longrightarrow> wclass w \<noteq> StatsClass \<Longrightarrow>
     virtual_addSource E i ip port w k = addSource E i ip port w k"
  by (simp_all add: virtual_removeSource_def virtual_addDestination_def
      virtual_removeDestination_def virtual_addSource_def split: worker_class.splits)

lemma frame_class: "op_frame opn w k w' k' \<Longrightarrow> wclass w' = wclass w"
  by (simp add: op_frame_def same_worker_def)

lemma worker_goodI:
  "op_frame opn w k w' k' \<Longrightarrow> wclass w \<noteq> RtcpClass \<Longrightarrow> worker_ok w' \<Longrightarrow>
     (wclass w = StatsClass \<Longrightarrow> stats_ok w') \<Longrightarrow> worker_good w'"
  using frame_class by (fastforce simp: worker_good_def)

lemma good_stats_frame:
  assumes "wclass w = StatsClass"
  shows "ensures m (\<lambda>(w', k'). stats_good w' \<and> op_frame opn w k w' k' \<and> Q w' k') \<Longrightarrow>
    ensures m (\<lambda>(w', k'). worker_good w' \<and> op_frame opn w k w' k' \<and> Q w' k')"
  using assms by (fastforce simp: ensures_Inr stats_good_def intro: worker_goodI)

lemma good_plain_frame:
  assumes "wclass w \<noteq> StatsClass" and "wclass w \<noteq> RtcpClass"
  shows "ensures m (\<lambda>(w', k'). worker_ok w' \<and> op_frame opn w k w' k' \<and> Q w' k') \<Longrightarrow>
    ensures m (\<lambda>(w', k'). worker_good w' \<and> op_frame opn w k w' k' \<and> Q w' k')"
  using assms by (auto simp: ensures_Inr intro: worker_goodI)

interpretation vw: stream_worker worker_good virtual_addSource virtual_removeSource
  virtual_addDestination virtual_removeDestination
proof unfold_locales
  fix w E opn i ip port a d D and k :: 'k
  assume good: "worker_good w" and p: "platform_ok (E :: 'k env) opn" and fds: "fds_open opn w k"
  have nr: "wclass w \<noteq> RtcpClass" and ok: "worker_ok w" using good by (simp_all add: worker_good_def)
  show "ensures (virtual_addSource E i ip port w k) (\<lambda>(b, w', k').
        worker_good w' \<and> op_frame opn w k w' k' \<and> working w' = working w \<and>
        (if has_source (worker_abs w) a then \<not> b \<and> worker_abs w' = worker_abs w
         else if b then worker_abs w' = (worker_abs w)(i \<mapsto> (a, Map.empty)) \<and> hasPort port w'
         else worker_abs w' = worker_abs w \<and> \<not> hasPort port w))"
    if new: "i \<noteq> 0" "worker_abs w i = None" "valid_port port" "a = source_addr E ip port k"
  proof (cases "wclass w = StatsClass")
    case True
    have "stats_good w" using good True by (simp add: worker_good_iff)
    from sw.add_law [OF this p fds new] show ?thesis
      unfolding virtual_stats [OF True]
      by (rule ensures_mono) (use True in \<open>auto simp: stats_good_def intro: worker_goodI\<close>)
  next
    case False
    from fw.add_law [OF ok p fds new] show ?thesis
      unfolding virtual_plain(4) [OF nr False]
      by (rule ensures_mono) (use False nr in \<open>auto intro: worker_goodI\<close>)
  qed
  show "ensures (virtual_removeSource E i w k) (\<lambda>(w', k').
        worker_good w' \<and> op_frame opn w k w' k' \<and> worker_abs w' = (worker_abs w)(i := None) \<and>
        working w' = (working w \<and> \<not> isEmpty w') \<and>
        k' = (let k1 = after_close E w (port_of a) k
              in if isEmpty w' then sendMessage E (no_job_message w) k1 else k1))"
    if "worker_abs w i = Some (a, D)" "launched w"
    unfolding virtual_plain(1) [OF nr]
    using good_stats_frame [OF _ sw.rem_law [OF _ p fds that]]
      good_plain_frame [OF _ nr fw.rem_law [OF ok p fds that]] good
    by (cases "wclass w = StatsClass") (simp_all add: worker_good_iff)
  assume src: "worker_abs w i = Some (a, D)"
  show "ensures (virtual_addDestination E i d ip port w k) (\<lambda>(w', k').
        worker_good w' \<and> op_frame opn w k w' k' \<and> k' = k \<and> working w' = working w \<and>
        worker_abs w' = (worker_abs w)(i \<mapsto>
          (a, if D d = None then D(d \<mapsto> source_addr E ip port k) else D)))"
    unfolding virtual_plain(2) [OF nr]
    using good_stats_frame [OF _ sw.addd_law [OF _ p fds src]]
      good_plain_frame [OF _ nr fw.addd_law [OF ok p fds src]] good
    by (cases "wclass w = StatsClass") (simp_all add: worker_good_iff)
  show "ensures (virtual_removeDestination E i d w k) (\<lambda>(w', k').
        worker_good w' \<and> op_frame opn w k w' k' \<and> k' = k \<and> working w' = working w \<and>
        worker_abs w' = (worker_abs w)(i \<mapsto> (a, D(d := None))))"
    unfolding virtual_plain(3) [OF nr]
    using good_stats_frame [OF _ sw.remd_law [OF _ p fds src]]
      good_plain_frame [OF _ nr fw.remd_law [OF ok p fds src]] good
    by (cases "wclass w = StatsClass") (simp_all add: worker_good_iff)
qed (simp add: worker_good_def)

end
