(* ===== verification/Manager.thy ===== *)
theory Manager
  imports Worker_Virtual
begin

text \<open>
  \<^verbatim>\<open>class Manager\<close> (\<^verbatim>\<open>include/libstrmanager/Manager.h\<close>, \<^verbatim>\<open>src/Manager.cpp\<close>): the pool of workers,
  the two tables that point into it, the public operations and the handler of the messages the
  workers send. Workers are objects behind raw pointers, so a manager carries the objects; a
  \<^verbatim>\<open>Worker*\<close> is a \<open>nat option\<close>. Workers are never deleted by the code. The definitions carry the
  prefix \<open>Manager_\<close> where \<^verbatim>\<open>Worker\<close> has a function of the same name.
\<close>

record manager =
  currentWorkerId :: int
  srcIdWorker :: "(int, nat option) umap"
  workerIdWorker :: "(int, nat option) umap"
  isListeningMessages :: bool
  workers :: "nat \<Rightarrow> worker"
  next_worker :: nat

definition MAX_WORKERS :: "'k env \<Rightarrow> int" where
  "MAX_WORKERS E = hw_threads E"

definition Manager_new :: manager where
  "Manager_new = \<lparr>currentWorkerId = 0, srcIdWorker = [], workerIdWorker = [],
     isListeningMessages = True, workers = (\<lambda>_. Worker_new BaseClass 0), next_worker = 0\<rparr>"

definition set_worker :: "nat \<Rightarrow> worker \<Rightarrow> manager \<Rightarrow> manager" where
  "set_worker r w M = M\<lparr>workers := (workers M)(r := w)\<rparr>"

definition new_worker :: "worker \<Rightarrow> manager \<Rightarrow> nat option \<times> manager" where
  "new_worker w M =
     (Some (next_worker M), (set_worker (next_worker M) w M)\<lparr>next_worker := Suc (next_worker M)\<rparr>)"

section \<open>Choosing a worker\<close>

definition createWorker :: "int \<Rightarrow> manager \<Rightarrow> nat option \<times> manager" where
  "createWorker workerType M =
     (if workerType = FWD_WORKER_TYPE then new_worker (ForwardWorker_new (currentWorkerId M)) M
      else if workerType = RTCP_WORKER_TYPE then new_worker (RtcpWorker_new (currentWorkerId M)) M
      else if workerType = STATS_WORKER_TYPE then new_worker (StatsWorker_new (currentWorkerId M)) M
      else (None, M))"

definition getWorkerById :: "int \<Rightarrow> manager \<Rightarrow> nat option \<times> manager" where
  "getWorkerById workerId M =
     (if icount (workerIdWorker M) workerId > 0 then
        (case iindex None (workerIdWorker M) workerId of (p, t) \<Rightarrow> (p, M\<lparr>workerIdWorker := t\<rparr>))
      else (None, M))"

text \<open>The two search loops over the table of workers; \<open>Inr None\<close>: the loop ran to the end.\<close>

fun find_type :: "(nat \<Rightarrow> worker) \<Rightarrow> int \<Rightarrow> (int, nat option) umap \<Rightarrow> nat option res" where
  "find_type ws ty [] = Inr None"
| "find_type ws ty ((i, p) # es) =
     bindE (deref p) (\<lambda>r. if getWorkerType (ws r) = ty then Inr p else find_type ws ty es)"

fun find_port_type :: "(nat \<Rightarrow> worker) \<Rightarrow> int \<Rightarrow> int \<Rightarrow> (int, nat option) umap \<Rightarrow> nat option res" where
  "find_port_type ws port ty [] = Inr None"
| "find_port_type ws port ty ((i, p) # es) =
     bindE (deref p) (\<lambda>r. if hasPort port (ws r) \<and> isWorkerType ty (ws r) then Inr p
       else find_port_type ws port ty es)"

definition getWorkerByType :: "'k env \<Rightarrow> int \<Rightarrow> manager \<Rightarrow> nat option res" where
  "getWorkerByType E workerType M =
     find_type (workers M) workerType (iiter (key_order E) (workerIdWorker M))"

definition getWorkerByPortType :: "'k env \<Rightarrow> int \<Rightarrow> int \<Rightarrow> manager \<Rightarrow> nat option res" where
  "getWorkerByPortType E port workerType M =
     bindE (find_port_type (workers M) port workerType (iiter (key_order E) (workerIdWorker M)))
       (\<lambda>p. if p \<noteq> None then Inr p else getWorkerByType E workerType M)"

definition getWorker :: "'k env \<Rightarrow> int \<Rightarrow> int \<Rightarrow> manager \<Rightarrow> (nat option \<times> manager) res" where
  "getWorker E workerType port M =
     bindE (getWorkerByPortType E port workerType M) (\<lambda>p.
       if p = None then
         (case createWorker workerType M of (q, M1) \<Rightarrow>
           (case q of None \<Rightarrow> Inr (None, M1)
            | Some r \<Rightarrow> Inr (Some r, set_worker r (launch (workers M1 r)) M1)))
       else Inr (p, M))"

section \<open>Sources and destinations\<close>

definition Manager_addSource ::
    "'k env \<Rightarrow> int \<Rightarrow> int \<Rightarrow> string \<Rightarrow> int \<Rightarrow> manager \<Rightarrow> 'k \<Rightarrow> (int \<times> manager \<times> 'k) res" where
  "Manager_addSource E workerType src_id ip port M k =
     bindE (getWorker E workerType port M) (\<lambda>(s, M1).
       case s of None \<Rightarrow> Inr (-1, M1, k)
       | Some r \<Rightarrow> bindE (virtual_addSource E src_id ip port (workers M1 r) k) (\<lambda>(b, w, k1).
           let M2 = set_worker r w M1 in
           if b then
             let M3 = M2\<lparr>srcIdWorker := iput (srcIdWorker M2) src_id s,
                         workerIdWorker := iput (workerIdWorker M2) (getWorkerId w) s,
                         currentWorkerId := currentWorkerId M2 + 1\<rparr>;
                 M4 = (if currentWorkerId M3 \<ge> MAX_WORKERS E then M3\<lparr>currentWorkerId := 0\<rparr> else M3)
             in Inr (0, M4, k1)
           else Inr (-1, M2, k1)))"

definition Manager_removeSource ::
    "'k env \<Rightarrow> int \<Rightarrow> manager \<Rightarrow> 'k \<Rightarrow> (int \<times> manager \<times> 'k) res" where
  "Manager_removeSource E src_id M k =
     (if icount (srcIdWorker M) src_id > 0 then
        (case iindex None (srcIdWorker M) src_id of (s, t) \<Rightarrow>
          let M1 = M\<lparr>srcIdWorker := ierase t src_id\<rparr> in
          bindE (deref s) (\<lambda>r. bindE (virtual_removeSource E src_id (workers M1 r) k) (\<lambda>(w, k1).
            Inr (0, set_worker r w M1, k1))))
      else Inr (-1, M, k))"

definition Manager_addDestination ::
    "'k env \<Rightarrow> int \<Rightarrow> int \<Rightarrow> string \<Rightarrow> int \<Rightarrow> manager \<Rightarrow> 'k \<Rightarrow> (int \<times> manager \<times> 'k) res" where
  "Manager_addDestination E src_id dest_id ip port M k =
     (if icount (srcIdWorker M) src_id > 0 then
        (case iindex None (srcIdWorker M) src_id of (s, t) \<Rightarrow>
          let M1 = M\<lparr>srcIdWorker := t\<rparr> in
          bindE (deref s) (\<lambda>r.
            bindE (virtual_addDestination E src_id dest_id ip port (workers M1 r) k) (\<lambda>(w, k1).
              Inr (0, set_worker r w M1, k1))))
      else Inr (-1, M, k))"

definition Manager_removeDestination ::
    "'k env \<Rightarrow> int \<Rightarrow> int \<Rightarrow> manager \<Rightarrow> 'k \<Rightarrow> (int \<times> manager \<times> 'k) res" where
  "Manager_removeDestination E src_id dest_id M k =
     (if icount (srcIdWorker M) src_id > 0 then
        (case iindex None (srcIdWorker M) src_id of (s, t) \<Rightarrow>
          let M1 = M\<lparr>srcIdWorker := t\<rparr> in
          bindE (deref s) (\<lambda>r.
            bindE (virtual_removeDestination E src_id dest_id (workers M1 r) k) (\<lambda>(w, k1).
              Inr (0, set_worker r w M1, k1))))
      else Inr (-1, M, k))"

section \<open>Messages\<close>

definition handle_message :: "message \<Rightarrow> manager \<Rightarrow> manager" where
  "handle_message m M =
     (if msg_type m = 100 then M\<lparr>workerIdWorker := ierase (workerIdWorker M) (msg_from m)\<rparr> else M)"

text \<open>
  The handler's loop, cut off after a number of messages. \<open>mq_receive\<close> gives \<open>None\<close> when the call
  throws; the queue is removed on every way out.
\<close>

fun message_loop :: "nat \<Rightarrow> 'k env \<Rightarrow> manager \<Rightarrow> 'k \<Rightarrow> manager \<times> 'k" where
  "message_loop 0 E M k = (M, k)"
| "message_loop (Suc n) E M k =
     (if isListeningMessages M then
        (case mq_receive E k of
           (Some m, k1) \<Rightarrow> message_loop n E (handle_message m M) k1
         | (None, k1) \<Rightarrow> (M, mq_remove E k1))
      else (M, mq_remove E k))"

definition messageHandler :: "nat \<Rightarrow> 'k env \<Rightarrow> manager \<Rightarrow> 'k \<Rightarrow> manager \<times> 'k" where
  "messageHandler n E M k = message_loop n E M (mq_remove E k)"

section \<open>Printing and time stamps\<close>

fun print_workers :: "(worker \<Rightarrow> string res) \<Rightarrow> (nat \<Rightarrow> worker) \<Rightarrow> (int, nat option) umap \<Rightarrow> string res" where
  "print_workers pr ws [] = Inr []"
| "print_workers pr ws ((i, p) # es) =
     bindE (deref p) (\<lambda>r. bindE (pr (ws r)) (\<lambda>s. bindE (print_workers pr ws es) (\<lambda>rest.
       Inr (s @ newline @ rest))))"

definition Manager_printManagement :: "'k env \<Rightarrow> manager \<Rightarrow> string res" where
  "Manager_printManagement E M =
     bindE (print_workers (printManagement E) (workers M) (iiter (key_order E) (workerIdWorker M)))
       (\<lambda>s. Inr (''Printing management list of all workers'' @ newline @ s))"

definition Manager_printForwarding :: "'k env \<Rightarrow> manager \<Rightarrow> string res" where
  "Manager_printForwarding E M =
     bindE (print_workers (\<lambda>w. Inr (printForwarding E w)) (workers M) (iiter (key_order E) (srcIdWorker M)))
       (\<lambda>s. Inr (''Printing forwarding list of all workers'' @ newline @ s))"

definition Manager_printPortFd :: "'k env \<Rightarrow> manager \<Rightarrow> string res" where
  "Manager_printPortFd E M =
     bindE (print_workers (printPortFd E) (workers M) (iiter (key_order E) (srcIdWorker M)))
       (\<lambda>s. Inr (''Printing PortFd list of all workers'' @ newline @ s))"

definition Manager_readTimeStamp ::
    "'k env \<Rightarrow> int \<Rightarrow> manager \<Rightarrow> 'k \<Rightarrow> (int option \<times> manager \<times> 'k) res" where
  "Manager_readTimeStamp E src_id M k =
     (if icount (srcIdWorker M) src_id > 0 then
        (case iindex None (srcIdWorker M) src_id of (s, t) \<Rightarrow>
          let M1 = M\<lparr>srcIdWorker := t\<rparr> in
          bindE (deref s) (\<lambda>r. bindE (readTimeStamp src_id (workers M1 r)) (\<lambda>(ts, w).
            Inr (ts, set_worker r w M1, k))))
      else (case sys_time E k of (now, k1) \<Rightarrow> Inr (Some now, M, k1)))"

end
