(* ===== verification/Manager_Inv.thy ===== *)
theory Manager_Inv
  imports Manager
begin

text \<open>
  The consistency of a manager and its contract. \<open>pool_ok\<close>: every worker object satisfies the
  worker invariant, runs, has the type code of its class, and owns its descriptors alone.
  \<open>tables_ok\<close>: \<open>srcIdWorker\<close> names, for every source of every worker and for nothing else, the
  worker that holds it; \<open>workerIdWorker\<close> holds workers under their own identifier.
  \<open>manager_abs\<close> is the contract: the sources of the whole library with their destinations.
  Workers of type RTCP, whose sources come in pairs, are excluded by \<open>pool_ok\<close>.
\<close>

definition class_type :: "worker_class \<Rightarrow> int" where
  "class_type c =
     (case c of BaseClass \<Rightarrow> DEF_WORKER_TYPE | ForwardClass \<Rightarrow> FWD_WORKER_TYPE
      | StatsClass \<Rightarrow> STATS_WORKER_TYPE | RtcpClass \<Rightarrow> RTCP_WORKER_TYPE)"

definition member_ok :: "('k \<Rightarrow> int set) \<Rightarrow> worker \<Rightarrow> 'k \<Rightarrow> bool" where
  "member_ok opn w k \<longleftrightarrow>
     worker_good w \<and> launched w \<and> worker_type w = class_type (wclass w) \<and> fds_open opn w k"

definition pool_ok :: "('k \<Rightarrow> int set) \<Rightarrow> manager \<Rightarrow> 'k \<Rightarrow> bool" where
  "pool_ok opn M k \<longleftrightarrow>
     (\<forall>r < next_worker M. member_ok opn (workers M r) k) \<and>
     (\<forall>r < next_worker M. \<forall>s < next_worker M. r \<noteq> s \<longrightarrow>
        worker_fds (workers M r) \<inter> worker_fds (workers M s) = {})"

definition tables_ok :: "manager \<Rightarrow> bool" where
  "tables_ok M \<longleftrightarrow>
     iwf (srcIdWorker M) \<and> iwf (workerIdWorker M) \<and>
     (\<forall>i q. ifind (srcIdWorker M) i = Some q \<longrightarrow>
        (\<exists>r < next_worker M. q = Some r \<and> worker_abs (workers M r) i \<noteq> None)) \<and>
     (\<forall>r < next_worker M. \<forall>i. worker_abs (workers M r) i \<noteq> None \<longrightarrow>
        ifind (srcIdWorker M) i = Some (Some r)) \<and>
     (\<forall>i q. ifind (workerIdWorker M) i = Some q \<longrightarrow>
        (\<exists>r < next_worker M. q = Some r \<and> worker_id (workers M r) = i))"

definition manager_ok :: "('k \<Rightarrow> int set) \<Rightarrow> manager \<Rightarrow> 'k \<Rightarrow> bool" where
  "manager_ok opn M k \<longleftrightarrow> pool_ok opn M k \<and> tables_ok M"

definition manager_abs :: "manager \<Rightarrow> int \<Rightarrow> (sockaddr_in \<times> (int \<Rightarrow> sockaddr_in option)) option" where
  "manager_abs M i =
     (case ifind (srcIdWorker M) i of Some (Some r) \<Rightarrow> worker_abs (workers M r) i | _ \<Rightarrow> None)"

section \<open>Reading the invariant\<close>

lemma manager_okD:
  assumes "manager_ok opn M k"
  shows "pool_ok opn M k" "tables_ok M"
  using assms by (simp_all add: manager_ok_def)

lemma pool_member: "pool_ok opn M k \<Longrightarrow> r < next_worker M \<Longrightarrow> member_ok opn (workers M r) k"
  by (simp add: pool_ok_def)

lemma pool_disjoint:
  "pool_ok opn M k \<Longrightarrow> r < next_worker M \<Longrightarrow> s < next_worker M \<Longrightarrow> r \<noteq> s \<Longrightarrow>
     worker_fds (workers M r) \<inter> worker_fds (workers M s) = {}"
  by (simp add: pool_ok_def)

lemma tables_src:
  assumes "tables_ok M" and "ifind (srcIdWorker M) i = Some q"
  obtains r a D where "q = Some r" "r < next_worker M" "worker_abs (workers M r) i = Some (a, D)"
    "manager_abs M i = Some (a, D)"
proof -
  from assms obtain r where r: "r < next_worker M" "q = Some r" "worker_abs (workers M r) i \<noteq> None"
    unfolding tables_ok_def by blast
  then obtain a D where "worker_abs (workers M r) i = Some (a, D)" by auto
  with r assms(2) that show thesis by (simp add: manager_abs_def)
qed

lemma tables_abs:
  assumes "tables_ok M" and "r < next_worker M" and "worker_abs (workers M r) i = Some x"
  shows "ifind (srcIdWorker M) i = Some (Some r)" "manager_abs M i = Some x"
proof -
  show *: "ifind (srcIdWorker M) i = Some (Some r)"
    using assms unfolding tables_ok_def by blast
  show "manager_abs M i = Some x" using assms(3) by (simp add: manager_abs_def *)
qed

lemma manager_abs_None: "tables_ok M \<Longrightarrow> manager_abs M i = None \<longleftrightarrow> ifind (srcIdWorker M) i = None"
  by (cases "ifind (srcIdWorker M) i") (auto simp: manager_abs_def elim: tables_src)

lemma tables_wid:
  assumes "tables_ok M" and "ifind (workerIdWorker M) i = Some q"
  obtains r where "q = Some r" "r < next_worker M" "worker_id (workers M r) = i"
  using assms unfolding tables_ok_def by blast

section \<open>Changing one worker\<close>

lemma member_frame:
  assumes "member_ok opn w k" and "op_frame opn w k w' k'" and "worker_good w'"
  shows "member_ok opn w' k'"
  using assms by (auto simp: member_ok_def op_frame_def same_worker_def)

lemma pool_update:
  assumes pool: "pool_ok opn M k" and r: "r < next_worker M" and good: "worker_good w'"
    and fr: "op_frame opn (workers M r) k w' k'"
  shows "pool_ok opn (set_worker r w' M) k'"
  unfolding pool_ok_def
proof (intro conjI allI impI)
  have new: "worker_fds w' - worker_fds (workers M r) \<subseteq> opn k' - opn k"
      "opn k - opn k' \<subseteq> worker_fds (workers M r)"
    using fr by (simp_all add: op_frame_def)
  have old: "worker_fds (workers M s) \<subseteq> opn k" if "s < next_worker M" for s
    using pool_member [OF pool that] by (simp add: member_ok_def fds_open_subset)
  have apart: "worker_fds w' \<inter> worker_fds (workers M s) = {}" if "s < next_worker M" "s \<noteq> r" for s
    using pool_disjoint [OF pool that(1) r that(2)] new(1) old [OF that(1)] by blast
  fix s
  assume "s < next_worker (set_worker r w' M)"
  then have s: "s < next_worker M" by (simp add: set_worker_def)
  show "member_ok opn (workers (set_worker r w' M) s) k'"
  proof (cases "s = r")
    case True
    then show ?thesis
      using member_frame [OF pool_member [OF pool r] fr good] by (simp add: set_worker_def)
  next
    case False
    have "worker_fds (workers M s) \<subseteq> opn k'"
      using old [OF s] pool_disjoint [OF pool s r False] new(2) by blast
    then show ?thesis
      using pool_member [OF pool s] False by (simp add: set_worker_def member_ok_def fds_open_subset)
  qed
  fix t
  assume "t < next_worker (set_worker r w' M)" and "s \<noteq> t"
  then show "worker_fds (workers (set_worker r w' M) s) \<inter> worker_fds (workers (set_worker r w' M) t) = {}"
    using s apart pool_disjoint [OF pool s, of t]
    by (cases "s = r"; cases "t = r") (auto simp: set_worker_def)
qed

text \<open>
  A change of the view of one worker at one identifier, together with the entry of \<open>srcIdWorker\<close>
  that goes with it.
\<close>

lemma tables_update:
  assumes tab: "tables_ok M" and r: "r < next_worker M"
    and view: "worker_abs w' = (worker_abs (workers M r))(i := x)" and id: "worker_id w' = worker_id (workers M r)"
    and own: "ifind (srcIdWorker M) i = None \<or> ifind (srcIdWorker M) i = Some (Some r)"
    and t: "iwf t" "\<And>j. ifind t j =
      (if j = i then (if x = None then None else Some (Some r)) else ifind (srcIdWorker M) j)"
  shows "tables_ok ((set_worker r w' M)\<lparr>srcIdWorker := t\<rparr>)"
    and "manager_abs ((set_worker r w' M)\<lparr>srcIdWorker := t\<rparr>) = (manager_abs M)(i := x)"
proof -
  let ?M = "(set_worker r w' M)\<lparr>srcIdWorker := t\<rparr>"
  have fields: "srcIdWorker ?M = t" "workerIdWorker ?M = workerIdWorker M"
      "next_worker ?M = next_worker M" "workers ?M = (workers M)(r := w')"
    by (simp_all add: set_worker_def)
  have views: "worker_abs (workers (set_worker r w' M) s) j =
      (if s = r \<and> j = i then x else worker_abs (workers M s) j)" for s j
    by (simp add: set_worker_def view)
  have elsewhere: "worker_abs (workers M s) i = None" if "s < next_worker M" "s \<noteq> r" for s
    using tables_abs(1) [OF tab that(1)] own that(2) by (cases "worker_abs (workers M s) i") force+
  show "tables_ok ?M"
    unfolding tables_ok_def fields(1-3)
  proof (intro conjI allI impI)
    show "iwf t" "iwf (workerIdWorker M)" using t tab by (simp_all add: tables_ok_def)
    fix j q
    show "\<exists>s<next_worker M. q = Some s \<and> worker_abs (workers ?M s) j \<noteq> None" if q: "ifind t j = Some q"
    proof (cases "j = i")
      case True
      then show ?thesis using q r t(2) [of i] by (intro exI [of _ r]) (auto simp: set_worker_def view split: if_splits)
    next
      case False
      then have "ifind (srcIdWorker M) j = Some q" using q t(2) by simp
      with False show ?thesis by (elim tables_src [OF tab]) (auto simp: set_worker_def view)
    qed
    show "ifind t j = Some (Some s)" if "s < next_worker M" "worker_abs (workers ?M s) j \<noteq> None" for s
    proof (cases "j = i")
      case True
      then have "s = r" using that elsewhere [OF that(1)] by (cases "s = r") (auto simp: set_worker_def)
      with True that show ?thesis by (auto simp: t(2) set_worker_def view)
    next
      case False
      then have "worker_abs (workers M s) j \<noteq> None" using that views [of s j] by simp
      then show ?thesis using tables_abs(1) [OF tab that(1)] False t(2) by auto
    qed
    show "\<exists>s<next_worker M. q = Some s \<and> worker_id (workers ?M s) = j"
      if "ifind (workerIdWorker M) j = Some q"
      using tables_wid [OF tab that] by (metis fields(4) fun_upd_apply id)
  qed
  show "manager_abs ?M = (manager_abs M)(i := x)"
  proof
    fix j
    show "manager_abs ?M j = ((manager_abs M)(i := x)) j"
      by (auto simp: manager_abs_def t(2) views split: option.splits)
  qed
qed

lemma manager_ok_cong:
  assumes "workers M' = workers M" "next_worker M' = next_worker M"
    "srcIdWorker M' = srcIdWorker M"
  shows "pool_ok opn M' k = pool_ok opn M k" "manager_abs M' = manager_abs M"
    "tables_ok M \<Longrightarrow> iwf (workerIdWorker M') \<Longrightarrow>
      (\<And>i q. ifind (workerIdWorker M') i = Some q \<Longrightarrow>
        \<exists>r < next_worker M. q = Some r \<and> worker_id (workers M r) = i) \<Longrightarrow> tables_ok M'"
  using assms by (simp_all add: pool_ok_def manager_abs_def [abs_def] tables_ok_def cong: option.case_cong)

text \<open>No worker object disappears, and none that has stopped works again.\<close>

definition fades :: "manager \<Rightarrow> manager \<Rightarrow> bool" where
  "fades M M' \<longleftrightarrow> next_worker M \<le> next_worker M' \<and>
     (\<forall>r < next_worker M. working (workers M' r) \<longrightarrow> working (workers M r))"

lemma fades_refl: "fades M M"
  by (simp add: fades_def)

lemma fades_trans: "fades M M1 \<Longrightarrow> fades M1 M2 \<Longrightarrow> fades M M2"
  by (simp add: fades_def)

lemma fades_set:
  "(working w' \<Longrightarrow> working (workers M r)) \<Longrightarrow> workers M' = (workers M)(r := w') \<Longrightarrow>
     next_worker M' = next_worker M \<Longrightarrow> fades M M'"
  by (simp add: fades_def)

section \<open>Choosing a worker\<close>

lemma find_type_spec:
  assumes "\<forall>i p. (i, p) \<in> set es \<longrightarrow> (\<exists>r. p = Some r \<and> P r)"
  shows "ensures (find_type ws ty es) (\<lambda>q. case q of
      None \<Rightarrow> \<forall>i r. (i, Some r) \<in> set es \<longrightarrow> worker_type (ws r) \<noteq> ty
    | Some r \<Rightarrow> P r \<and> worker_type (ws r) = ty)"
  using assms
proof (induction es)
  case (Cons e es)
  obtain i r where e: "e = (i, Some r)" "P r" using Cons.prems by (cases e) auto
  show ?case
  proof (cases "worker_type (ws r) = ty")
    case False
    have "ensures (find_type ws ty es) (\<lambda>q. case q of
        None \<Rightarrow> \<forall>i r. (i, Some r) \<in> set es \<longrightarrow> worker_type (ws r) \<noteq> ty
      | Some r \<Rightarrow> P r \<and> worker_type (ws r) = ty)"
      using Cons by auto
    then show ?thesis
      using False by (simp add: e getWorkerType_def) (erule ensures_mono, auto simp: e(1) split: option.splits)
  qed (simp add: e getWorkerType_def)
qed simp

lemma find_port_type_spec:
  assumes "\<forall>i p. (i, p) \<in> set es \<longrightarrow> (\<exists>r. p = Some r \<and> P r)"
  shows "ensures (find_port_type ws port ty es) (\<lambda>q. case q of
      None \<Rightarrow> \<forall>i r. (i, Some r) \<in> set es \<longrightarrow> \<not> (hasPort port (ws r) \<and> worker_type (ws r) = ty)
    | Some r \<Rightarrow> P r \<and> worker_type (ws r) = ty \<and> hasPort port (ws r))"
  using assms
proof (induction es)
  case (Cons e es)
  obtain i r where e: "e = (i, Some r)" "P r" using Cons.prems by (cases e) auto
  show ?case
  proof (cases "hasPort port (ws r) \<and> isWorkerType ty (ws r)")
    case False
    then show ?thesis
      using Cons by (auto simp: e isWorkerType_def elim!: ensures_mono split: option.splits if_splits)
  qed (simp add: e isWorkerType_def split: if_splits)
qed simp

lemma wid_iter:
  assumes "tables_ok M" and "ord_ok (key_order E)"
  shows "set (iiter (key_order E) (workerIdWorker M)) = set (workerIdWorker M)"
    and "\<forall>i p. (i, p) \<in> set (iiter (key_order E) (workerIdWorker M)) \<longrightarrow> (\<exists>r. p = Some r \<and> r < next_worker M)"
proof -
  have wf: "iwf (workerIdWorker M)" using assms(1) by (simp add: tables_ok_def)
  show *: "set (iiter (key_order E) (workerIdWorker M)) = set (workerIdWorker M)"
    by (rule iiter_set [OF assms(2) wf])
  show "\<forall>i p. (i, p) \<in> set (iiter (key_order E) (workerIdWorker M)) \<longrightarrow> (\<exists>r. p = Some r \<and> r < next_worker M)"
    unfolding * using ik.wf_find_in [OF wf] by (blast elim: tables_wid [OF assms(1)])
qed

text \<open>
  The choice: a worker of the table that has the type and the port if there is one, else one that
  has the type, else none; the program point where the pointer could be null is not reached.
\<close>

definition has_type :: "manager \<Rightarrow> int \<Rightarrow> nat \<Rightarrow> bool" where
  "has_type M ty r \<longleftrightarrow> (\<exists>i. ifind (workerIdWorker M) i = Some (Some r)) \<and> worker_type (workers M r) = ty"

lemma getWorkerByPortType_spec:
  assumes tab: "tables_ok M" and ord: "ord_ok (key_order E)"
  shows "ensures (getWorkerByPortType E port ty M) (\<lambda>q. case q of
      None \<Rightarrow> \<forall>r. \<not> has_type M ty r
    | Some r \<Rightarrow> r < next_worker M \<and> has_type M ty r \<and>
        ((\<exists>s. has_type M ty s \<and> hasPort port (workers M s)) \<longrightarrow> hasPort port (workers M r)))"
proof -
  note iter = wid_iter [OF tab ord]
  have wf: "iwf (workerIdWorker M)" using tab by (simp add: tables_ok_def)
  have mem: "ifind (workerIdWorker M) i = Some q \<longleftrightarrow> (i, q) \<in> set (workerIdWorker M)" for i q
    using ik.wf_find_in [OF wf] by (auto dest: um_find_SomeD)
  have ex: "\<forall>i p. (i, p) \<in> set (iiter (key_order E) (workerIdWorker M)) \<longrightarrow>
      (\<exists>r. p = Some r \<and> (r < next_worker M \<and> (\<exists>i. ifind (workerIdWorker M) i = Some (Some r))))"
    using iter unfolding mem by metis
  show ?thesis
    unfolding getWorkerByPortType_def ensures_bindE
  proof (rule ensures_mono [OF find_port_type_spec [OF ex, of "workers M" port ty]])
    fix q
    assume q: "case q of None \<Rightarrow> \<forall>i r. (i, Some r) \<in> set (iiter (key_order E) (workerIdWorker M)) \<longrightarrow> \<not> (hasPort port (workers M r) \<and> worker_type (workers M r) = ty)
      | Some r \<Rightarrow> (r < next_worker M \<and> (\<exists>i. ifind (workerIdWorker M) i = Some (Some r))) \<and>
          worker_type (workers M r) = ty \<and> hasPort port (workers M r)"
    show "ensures (if q \<noteq> None then Inr q else getWorkerByType E ty M) (\<lambda>q. case q of
      None \<Rightarrow> \<forall>r. \<not> has_type M ty r
    | Some r \<Rightarrow> r < next_worker M \<and> has_type M ty r \<and>
        ((\<exists>s. has_type M ty s \<and> hasPort port (workers M s)) \<longrightarrow> hasPort port (workers M r)))"
    proof (cases q)
      case (Some r)
      then show ?thesis using q by (auto simp: has_type_def)
    next
      case None
      have "ensures (getWorkerByType E ty M) (\<lambda>q. case q of
          None \<Rightarrow> \<forall>r. \<not> has_type M ty r
        | Some r \<Rightarrow> r < next_worker M \<and> has_type M ty r)"
        unfolding getWorkerByType_def
        by (rule ensures_mono [OF find_type_spec [OF ex, of "workers M" ty]])
          (use iter in \<open>auto simp: has_type_def mem split: option.splits\<close>)
      moreover have "\<not> (has_type M ty s \<and> hasPort port (workers M s))" for s
        using q None iter by (auto simp: has_type_def mem)
      ultimately show ?thesis by (simp add: None) (erule ensures_mono, auto split: option.splits)
    qed
  qed
qed

section \<open>A new worker\<close>

lemma worker_ok_launch: "worker_ok (launch w) = worker_ok w" "worker_abs (launch w) = worker_abs w"
proof -
  have r: "routes_inv (launch w) = routes_inv w" "worker_abs (launch w) = worker_abs w"
      "n_sources (launch w) = n_sources w"
    by (rule routes_inv_frame; simp add: launch_def)+
  show "worker_ok (launch w) = worker_ok w" "worker_abs (launch w) = worker_abs w"
    using r sockets_inv_frame [of "launch w" w] by (simp_all add: worker_ok_def launch_def)
qed

definition fresh_worker :: "worker \<Rightarrow> bool" where
  "fresh_worker w \<longleftrightarrow> worker_good w \<and> worker_type w = class_type (wclass w) \<and>
     worker_abs w = Map.empty \<and> portFd w = []"

lemma fresh_worker_new: "fresh_worker (ForwardWorker_new i)" "fresh_worker (StatsWorker_new i)"
proof -
  have "worker_abs (ForwardWorker_new i) = Map.empty" "worker_abs (StatsWorker_new i) = Map.empty"
    by (auto simp: worker_abs_def ForwardWorker_new_def StatsWorker_new_def setWorkerType_def Worker_new_def)
  then show "fresh_worker (ForwardWorker_new i)" "fresh_worker (StatsWorker_new i)"
    using worker_ok_stats_new stats_ok_new
    by (simp_all add: fresh_worker_def worker_good_def class_type_def)
      (simp_all add: ForwardWorker_new_def StatsWorker_new_def setWorkerType_def Worker_new_def)
qed

lemma stats_ok_launch: "stats_ok (launch w) = stats_ok w"
  by (simp add: stats_ok_def launch_def)

lemma pool_new:
  assumes pool: "pool_ok opn M k" and f: "fresh_worker w"
  shows "pool_ok opn ((set_worker (next_worker M) (launch w) M)\<lparr>next_worker := Suc (next_worker M)\<rparr>) k"
proof -
  have none: "worker_fds (launch w) = {}" using f by (simp add: fresh_worker_def worker_fds_def launch_def)
  have "worker_good (launch w)"
    using f worker_ok_launch [of w] stats_ok_launch [of w]
    by (simp add: fresh_worker_def worker_good_def) (simp add: launch_def)
  then have "member_ok opn (launch w) k"
    using f none by (simp add: member_ok_def fds_open_subset fresh_worker_def) (simp add: launch_def)
  then show ?thesis
    using pool none unfolding pool_ok_def by (auto simp: set_worker_def less_Suc_eq)
qed

lemma tables_new:
  assumes tab: "tables_ok M" and f: "worker_abs w = Map.empty"
  shows "tables_ok ((set_worker (next_worker M) w M)\<lparr>next_worker := Suc (next_worker M)\<rparr>)"
    and "manager_abs ((set_worker (next_worker M) w M)\<lparr>next_worker := Suc (next_worker M)\<rparr>) = manager_abs M"
proof -
  let ?M = "(set_worker (next_worker M) w M)\<lparr>next_worker := Suc (next_worker M)\<rparr>"
  have w: "workers ?M r = workers M r" if "r < next_worker M" for r
    using that by (simp add: set_worker_def)
  have t: "srcIdWorker ?M = srcIdWorker M" "workerIdWorker ?M = workerIdWorker M"
    by (simp_all add: set_worker_def)
  show "tables_ok ?M"
    unfolding tables_ok_def t
  proof (intro conjI allI impI)
    show "iwf (srcIdWorker M)" "iwf (workerIdWorker M)" using tab by (simp_all add: tables_ok_def)
    fix i q
    show "\<exists>r<next_worker ?M. q = Some r \<and> worker_abs (workers ?M r) i \<noteq> None"
      if q: "ifind (srcIdWorker M) i = Some q"
    proof -
      obtain r a D where "q = Some r" "r < next_worker M" "worker_abs (workers M r) i = Some (a, D)"
        by (rule tables_src [OF tab q])
      then show ?thesis by (intro exI [of _ r]) (simp add: set_worker_def)
    qed
    show "\<exists>r<next_worker ?M. q = Some r \<and> worker_id (workers ?M r) = i"
      if q: "ifind (workerIdWorker M) i = Some q"
    proof -
      obtain r where "q = Some r" "r < next_worker M" "worker_id (workers M r) = i"
        by (rule tables_wid [OF tab q])
      then show ?thesis by (intro exI [of _ r]) (simp add: set_worker_def)
    qed
    show "ifind (srcIdWorker M) i = Some (Some r)"
      if "r < next_worker ?M" "worker_abs (workers ?M r) i \<noteq> None" for r
    proof (cases "r = next_worker M")
      case True
      then show ?thesis using that f by (simp add: set_worker_def)
    next
      case False
      then have "r < next_worker M" using that by simp
      then show ?thesis using that(2) tables_abs(1) [OF tab] w by auto
    qed
  qed
  show "manager_abs ?M = manager_abs M"
  proof
    fix i
    show "manager_abs ?M i = manager_abs M i"
    proof (cases "ifind (srcIdWorker M) i")
      case (Some q)
      obtain r a D where r: "q = Some r" "r < next_worker M" "manager_abs M i = Some (a, D)"
          "worker_abs (workers M r) i = Some (a, D)"
        by (rule tables_src [OF tab Some])
      then have "manager_abs ?M i = Some (a, D)"
        by (simp add: manager_abs_def Some set_worker_def)
      then show ?thesis by (simp add: r(3))
    qed (simp add: manager_abs_def t)
  qed
qed

end
