(* ===== verification/Manager_Contract.thy ===== *)
theory Manager_Contract
  imports Manager_Inv
begin

text \<open>
  The public operations of \<^verbatim>\<open>Manager\<close> against their contract: each keeps the invariant of the
  manager, and acts on the map of sources as its name and its documentation in \<^verbatim>\<open>Manager.h\<close> say, with 0 or
  -1 as result. All of them rest on the interface of the workers (\<open>vw\<close>).
\<close>

section \<open>getWorker\<close>

lemma manager_ok_create:
  assumes ok: "manager_ok opn M k" and f: "fresh_worker w"
  shows "manager_ok opn ((set_worker (next_worker M) (launch w) M)\<lparr>next_worker := Suc (next_worker M)\<rparr>) k"
    and "manager_abs ((set_worker (next_worker M) (launch w) M)\<lparr>next_worker := Suc (next_worker M)\<rparr>) =
      manager_abs M"
proof -
  note parts = manager_okD [OF ok]
  have "worker_abs (launch w) = Map.empty" using f by (simp add: worker_ok_launch fresh_worker_def)
  note tables_new [OF parts(2) this]
  then show "manager_ok opn ((set_worker (next_worker M) (launch w) M)\<lparr>next_worker := Suc (next_worker M)\<rparr>) k"
    "manager_abs ((set_worker (next_worker M) (launch w) M)\<lparr>next_worker := Suc (next_worker M)\<rparr>) = manager_abs M"
    using pool_new [OF parts(1) f] by (simp_all add: manager_ok_def)
qed

lemma getWorker_contract:
  assumes ok: "manager_ok opn M k" and ord: "ord_ok (key_order E)" and ty: "ty \<noteq> RTCP_WORKER_TYPE"
  shows "ensures (getWorker E ty port M) (\<lambda>(s, M1).
    manager_ok opn M1 k \<and> manager_abs M1 = manager_abs M \<and> srcIdWorker M1 = srcIdWorker M \<and>
    fades M M1 \<and>
    (case s of
       None \<Rightarrow> M1 = M \<and> ty \<noteq> FWD_WORKER_TYPE \<and> ty \<noteq> STATS_WORKER_TYPE
     | Some r \<Rightarrow> r < next_worker M1 \<and> worker_type (workers M1 r) = ty \<and>
         (has_type M ty r \<or> \<not> (\<exists>s. has_type M ty s))))"
  unfolding getWorker_def ensures_bindE
proof (rule ensures_mono [OF getWorkerByPortType_spec [OF manager_okD(2) [OF ok] ord, of port ty]])
  fix p
  let ?Q = "\<lambda>(s, M1). manager_ok opn M1 k \<and> manager_abs M1 = manager_abs M \<and> srcIdWorker M1 = srcIdWorker M \<and>
    fades M M1 \<and>
    (case s of
       None \<Rightarrow> M1 = M \<and> ty \<noteq> FWD_WORKER_TYPE \<and> ty \<noteq> STATS_WORKER_TYPE
     | Some r \<Rightarrow> r < next_worker M1 \<and> worker_type (workers M1 r) = ty \<and>
         (has_type M ty r \<or> \<not> (\<exists>s. has_type M ty s)))"
  let ?new = "\<lambda>w. (set_worker (next_worker M) (launch w) M)\<lparr>next_worker := Suc (next_worker M)\<rparr>"
  assume p: "case p of None \<Rightarrow> \<forall>r. \<not> has_type M ty r
    | Some r \<Rightarrow> r < next_worker M \<and> has_type M ty r \<and>
        ((\<exists>s. has_type M ty s \<and> hasPort port (workers M s)) \<longrightarrow> hasPort port (workers M r))"
  show "ensures (if p = None then
      (case createWorker ty M of (q, M1) \<Rightarrow>
        (case q of None \<Rightarrow> Inr (None, M1)
         | Some r \<Rightarrow> Inr (Some r, set_worker r (launch (workers M1 r)) M1)))
      else Inr (p, M)) ?Q"
  proof (cases p)
    case (Some r)
    then show ?thesis using p ok by (auto simp: has_type_def fades_refl)
  next
    case None
    have create: "?Q (Some (next_worker M), ?new w)"
      if "fresh_worker w" "worker_type w = ty" for w
      using manager_ok_create [OF ok that(1)] p None that(2) by (simp add: set_worker_def launch_def fades_def)
    have types: "worker_type (ForwardWorker_new c) = FWD_WORKER_TYPE"
        "worker_type (StatsWorker_new c) = STATS_WORKER_TYPE" for c
      by (simp_all add: ForwardWorker_new_def StatsWorker_new_def setWorkerType_def)
    have launch: "(case new_worker w M of (q, M1) \<Rightarrow>
        (case q of None \<Rightarrow> Inr (None, M1)
         | Some r \<Rightarrow> Inr (Some r, set_worker r (launch (workers M1 r)) M1))) =
        (Inr (Some (next_worker M), ?new w) :: (nat option \<times> manager) res)" for w
      by (simp add: new_worker_def set_worker_def)
    consider "ty = FWD_WORKER_TYPE" | "ty = STATS_WORKER_TYPE"
      | "ty \<noteq> FWD_WORKER_TYPE" "ty \<noteq> STATS_WORKER_TYPE" by blast
    then show ?thesis
    proof cases
      case 1
      then show ?thesis
        using create [OF fresh_worker_new(1)] None by (simp add: createWorker_def types launch)
    next
      case 2
      then have "createWorker ty M = new_worker (StatsWorker_new (currentWorkerId M)) M"
        by (simp add: createWorker_def worker_type_defs)
      then show ?thesis
        using 2 create [OF fresh_worker_new(2)] None by (simp add: types launch)
    next
      case 3
      then show ?thesis using None ok ty by (simp add: createWorker_def fades_refl)
    qed
  qed
qed

section \<open>addSource\<close>

text \<open>What happens to the manager once the worker has answered: \<open>w'\<close> is the worker afterwards.\<close>

lemma manager_update:
  assumes ok: "manager_ok opn M k" and r: "r < next_worker M" and good: "worker_good w'"
    and fr: "op_frame opn (workers M r) k w' k'"
    and view: "worker_abs w' = (worker_abs (workers M r))(i := x)"
    and own: "ifind (srcIdWorker M) i = None \<or> ifind (srcIdWorker M) i = Some (Some r)"
    and t: "iwf t" "\<And>j. ifind t j =
      (if j = i then (if x = None then None else Some (Some r)) else ifind (srcIdWorker M) j)"
  shows "manager_ok opn ((set_worker r w' M)\<lparr>srcIdWorker := t\<rparr>) k'"
    and "manager_abs ((set_worker r w' M)\<lparr>srcIdWorker := t\<rparr>) = (manager_abs M)(i := x)"
proof -
  have id: "worker_id w' = worker_id (workers M r)"
    using fr by (simp add: op_frame_def same_worker_def)
  note tab = tables_update [OF manager_okD(2) [OF ok] r view id own t]
  have "pool_ok opn ((set_worker r w' M)\<lparr>srcIdWorker := t\<rparr>) k'"
    using pool_update [OF manager_okD(1) [OF ok] r good fr] by (simp add: pool_ok_def)
  then show "manager_ok opn ((set_worker r w' M)\<lparr>srcIdWorker := t\<rparr>) k'"
    using tab(1) by (simp add: manager_ok_def)
  show "manager_abs ((set_worker r w' M)\<lparr>srcIdWorker := t\<rparr>) = (manager_abs M)(i := x)"
    by (rule tab(2))
qed

text \<open>A worker whose view is unchanged.\<close>

lemma manager_same_view:
  assumes ok: "manager_ok opn M k" and r: "r < next_worker M" and good: "worker_good w'"
    and fr: "op_frame opn (workers M r) k w' k'"
    and view: "worker_abs w' = worker_abs (workers M r)"
  shows "manager_ok opn (set_worker r w' M) k'" and "manager_abs (set_worker r w' M) = manager_abs M"
proof -
  have id: "worker_id w' = worker_id (workers M r)"
    using fr by (simp add: op_frame_def same_worker_def)
  have v: "worker_abs (workers (set_worker r w' M) s) = worker_abs (workers M s)"
    "worker_id (workers (set_worker r w' M) s) = worker_id (workers M s)" for s
    by (simp_all add: set_worker_def view id)
  have t: "srcIdWorker (set_worker r w' M) = srcIdWorker M"
      "workerIdWorker (set_worker r w' M) = workerIdWorker M" "next_worker (set_worker r w' M) = next_worker M"
    by (simp_all add: set_worker_def)
  have "tables_ok (set_worker r w' M) = tables_ok M" by (simp add: tables_ok_def v t)
  then show "manager_ok opn (set_worker r w' M) k'"
    using manager_okD [OF ok] pool_update [OF _ r good fr] by (simp add: manager_ok_def)
  show "manager_abs (set_worker r w' M) = manager_abs M"
    by (simp add: manager_abs_def [abs_def] v t cong: option.case_cong)
qed

text \<open>Registering the worker under its identifier and moving the counter on.\<close>

lemma manager_ok_wid:
  assumes ok: "manager_ok opn M k" and r: "r < next_worker M" and i: "worker_id (workers M r) = i"
    and wid: "workerIdWorker M' = iput (workerIdWorker M) i (Some r)"
    and same: "workers M' = workers M" "next_worker M' = next_worker M" "srcIdWorker M' = srcIdWorker M"
  shows "manager_ok opn M' k" and "manager_abs M' = manager_abs M"
proof -
  note parts = manager_okD [OF ok]
  note cong = manager_ok_cong [OF same]
  have wf: "iwf (workerIdWorker M')" using parts(2) by (simp add: wid tables_ok_def)
  have "\<exists>s < next_worker M. q = Some s \<and> worker_id (workers M s) = j"
    if "ifind (workerIdWorker M') j = Some q" for j q
  proof (cases "j = i")
    case True
    then show ?thesis using that r i by (auto simp: wid)
  next
    case False
    then have "ifind (workerIdWorker M) j = Some q" using that by (simp add: wid)
    then show ?thesis using tables_wid [OF parts(2)] by metis
  qed
  then have "tables_ok M'" by (rule cong(3) [OF parts(2) wf])
  then show "manager_ok opn M' k" using parts(1) by (simp add: manager_ok_def cong(1))
  show "manager_abs M' = manager_abs M" by (rule cong(2))
qed

lemma Manager_addSource_contract:
  assumes ok: "manager_ok opn M k" and p: "platform_ok E opn" and ty: "ty \<noteq> RTCP_WORKER_TYPE"
    and new: "i \<noteq> 0" "manager_abs M i = None" and port: "valid_port port"
  shows "ensures (Manager_addSource E ty i ip port M k) (\<lambda>(ret, M', k').
    manager_ok opn M' k' \<and> fades M M' \<and>
    (if ret = 0
     then manager_abs M' = (manager_abs M)(i \<mapsto> (source_addr E ip port k, Map.empty)) \<and>
       (\<exists>r. ifind (srcIdWorker M') i = Some (Some r) \<and> worker_type (workers M' r) = ty \<and>
            hasPort port (workers M' r))
     else ret = -1 \<and> manager_abs M' = manager_abs M))"
  unfolding Manager_addSource_def ensures_bindE
proof (rule ensures_mono [OF getWorker_contract [OF ok platform_okD(3) [OF p] ty]], clarify)
  fix s M1
  assume ok1: "manager_ok opn M1 k" and abs1: "manager_abs M1 = manager_abs M"
    and src1: "srcIdWorker M1 = srcIdWorker M" and fd1: "fades M M1"
    and s: "case s of None \<Rightarrow> M1 = M \<and> ty \<noteq> FWD_WORKER_TYPE \<and> ty \<noteq> STATS_WORKER_TYPE
      | Some r \<Rightarrow> r < next_worker M1 \<and> worker_type (workers M1 r) = ty \<and>
         (has_type M ty r \<or> \<not> (\<exists>s. has_type M ty s))"
  let ?Q = "\<lambda>(ret, M', k'). manager_ok opn M' k' \<and> fades M M' \<and>
    (if ret = (0::int)
     then manager_abs M' = (manager_abs M)(i \<mapsto> (source_addr E ip port k, Map.empty)) \<and>
       (\<exists>r. ifind (srcIdWorker M') i = Some (Some r) \<and> worker_type (workers M' r) = ty \<and>
            hasPort port (workers M' r))
     else ret = -1 \<and> manager_abs M' = manager_abs M)"
  have none: "ifind (srcIdWorker M1) i = None"
    using manager_abs_None [OF manager_okD(2) [OF ok1], of i] new(2) by (simp add: abs1)
  show "ensures (case s of None \<Rightarrow> Inr (-1, M1, k)
    | Some r \<Rightarrow> bindE (virtual_addSource E i ip port (workers M1 r) k) (\<lambda>(b, w, k1).
        let M2 = set_worker r w M1 in
        if b then
          let M3 = M2\<lparr>srcIdWorker := iput (srcIdWorker M2) i s,
                      workerIdWorker := iput (workerIdWorker M2) (getWorkerId w) s,
                      currentWorkerId := currentWorkerId M2 + 1\<rparr>;
              M4 = (if currentWorkerId M3 \<ge> MAX_WORKERS E then M3\<lparr>currentWorkerId := 0\<rparr> else M3)
          in Inr (0, M4, k1)
        else Inr (-1, M2, k1))) ?Q"
  proof (cases s)
    case None
    then show ?thesis using ok1 abs1 fd1 by simp
  next
    case (Some r)
    with s have r: "r < next_worker M1" "worker_type (workers M1 r) = ty" by simp_all
    have mem: "worker_good (workers M1 r)" "fds_open opn (workers M1 r) k"
      using pool_member [OF manager_okD(1) [OF ok1] r(1)] by (simp_all add: member_ok_def)
    have fresh: "worker_abs (workers M1 r) i = None"
      using tables_abs(1) [OF manager_okD(2) [OF ok1] r(1)] none
      by (cases "worker_abs (workers M1 r) i") auto
    note law = vw.add_law [OF mem(1) p mem(2) new(1) fresh port refl, of ip]
    show ?thesis
      unfolding Some option.case ensures_bindE
    proof (rule ensures_mono [OF law], clarify)
      fix b w k1
      assume good: "worker_good w" and fr: "op_frame opn (workers M1 r) k w k1"
        and wk: "working w = working (workers M1 r)" and res: "if has_source (worker_abs (workers M1 r)) (source_addr E ip port k)
          then \<not> b \<and> worker_abs w = worker_abs (workers M1 r)
          else if b then worker_abs w = (worker_abs (workers M1 r))(i \<mapsto> (source_addr E ip port k, Map.empty)) \<and>
            hasPort port w
          else worker_abs w = worker_abs (workers M1 r) \<and> \<not> hasPort port (workers M1 r)"
      let ?M2 = "set_worker r w M1"
      have fd2: "fades M M'" if "workers M' = workers ?M2" "next_worker M' = next_worker ?M2" for M'
        using that wk by (intro fades_trans [OF fd1 fades_set [of w _ r]]) (simp_all add: set_worker_def)
      show "ensures (let M2 = ?M2 in
        if b then
          let M3 = M2\<lparr>srcIdWorker := iput (srcIdWorker M2) i (Some r),
                      workerIdWorker := iput (workerIdWorker M2) (getWorkerId w) (Some r),
                      currentWorkerId := currentWorkerId M2 + 1\<rparr>;
              M4 = (if currentWorkerId M3 \<ge> MAX_WORKERS E then M3\<lparr>currentWorkerId := 0\<rparr> else M3)
          in Inr (0, M4, k1)
        else Inr (-1, M2, k1)) ?Q"
      proof (cases b)
        case False
        then have "worker_abs w = worker_abs (workers M1 r)" using res by (simp split: if_splits)
        from manager_same_view [OF ok1 r(1) good fr this] False fd2 [of ?M2] show ?thesis
          by (simp add: abs1 Let_def)
      next
        case True
        then have view: "worker_abs w = (worker_abs (workers M1 r))(i \<mapsto> (source_addr E ip port k, Map.empty))"
            and hp: "hasPort port w"
          using res by (simp_all split: if_splits)
        let ?t = "iput (srcIdWorker M1) i (Some r)"
        let ?M3 = "(set_worker r w M1)\<lparr>srcIdWorker := ?t\<rparr>"
        have wf: "iwf ?t" using manager_okD(2) [OF ok1] by (simp add: tables_ok_def)
        note upd = manager_update [OF ok1 r(1) good fr view disjI1 [OF none] wf]
        have ok3: "manager_ok opn ?M3 k1"
            and abs3: "manager_abs ?M3 = (manager_abs M)(i \<mapsto> (source_addr E ip port k, Map.empty))"
          using upd by (simp_all add: abs1)
        have wt: "worker_type w = ty" using fr r(2) by (simp add: op_frame_def same_worker_def)
        have fin: "?Q (0, M', k1)"
          if "workerIdWorker M' = iput (workerIdWorker ?M3) (worker_id w) (Some r)"
            "workers M' = workers ?M3" "next_worker M' = next_worker ?M3" "srcIdWorker M' = srcIdWorker ?M3"
          for M'
        proof -
          have "r < next_worker ?M3" "worker_id (workers ?M3 r) = worker_id w"
            using r(1) by (simp_all add: set_worker_def)
          note wid = manager_ok_wid [OF ok3 this that]
          show ?thesis using wid abs3 hp wt that fd2 [of M'] by (simp add: set_worker_def)
        qed
        show ?thesis
          using True fin wt hp by (simp add: Let_def getWorkerId_def set_worker_def)
      qed
    qed
  qed
qed

section \<open>removeSource and the destinations\<close>

lemma count_src: "icount (srcIdWorker M) i > 0 \<longleftrightarrow> ifind (srcIdWorker M) i \<noteq> None"
  by (rule icount_pos)

lemma set_worker_src:
  "set_worker r w (M\<lparr>srcIdWorker := t\<rparr>) = (set_worker r w M)\<lparr>srcIdWorker := t\<rparr>"
  by (simp add: set_worker_def)

lemma live_source:
  assumes "manager_ok opn M k" and "manager_abs M i = Some (a, D)"
  obtains r where "ifind (srcIdWorker M) i = Some (Some r)" "r < next_worker M"
    "worker_abs (workers M r) i = Some (a, D)" "member_ok opn (workers M r) k"
proof -
  note parts = manager_okD [OF assms(1)]
  obtain q where q: "ifind (srcIdWorker M) i = Some q"
    using assms(2) by (cases "ifind (srcIdWorker M) i") (simp_all add: manager_abs_def)
  obtain r a' D' where r: "q = Some r" "r < next_worker M" "worker_abs (workers M r) i = Some (a', D')"
      "manager_abs M i = Some (a', D')"
    by (rule tables_src [OF parts(2) q])
  then show thesis using that [of r] q assms(2) pool_member [OF parts(1)] by simp
qed

lemma Manager_missing_source:
  assumes "manager_ok opn M k" and "manager_abs M i = None"
  shows "Manager_removeSource E i M k = Inr (-1, M, k)"
    and "Manager_addDestination E i d ip port M k = Inr (-1, M, k)"
    and "Manager_removeDestination E i d M k = Inr (-1, M, k)"
    and "Manager_readTimeStamp E i M k =
      Inr (Some (fst (sys_time E k)), M, snd (sys_time E k))"
  using manager_abs_None [OF manager_okD(2) [OF assms(1)], of i] assms(2) count_src [of M i]
  by (simp_all add: Manager_removeSource_def Manager_addDestination_def
      Manager_removeDestination_def Manager_readTimeStamp_def split: prod.split)

lemma Manager_removeSource_contract:
  assumes ok: "manager_ok opn M k" and p: "platform_ok E opn" and src: "manager_abs M i = Some (a, D)"
  shows "ensures (Manager_removeSource E i M k) (\<lambda>(ret, M', k').
    manager_ok opn M' k' \<and> fades M M' \<and> ret = 0 \<and> manager_abs M' = (manager_abs M)(i := None) \<and>
    workerIdWorker M' = workerIdWorker M)"
proof -
  obtain r where r: "ifind (srcIdWorker M) i = Some (Some r)" "r < next_worker M"
      "worker_abs (workers M r) i = Some (a, D)" "member_ok opn (workers M r) k"
    by (rule live_source [OF ok src])
  let ?t = "ierase (srcIdWorker M) i"
  have wf: "iwf ?t" using manager_okD(2) [OF ok] by (simp add: tables_ok_def)
  have mem: "worker_good (workers M r)" "fds_open opn (workers M r) k" "launched (workers M r)"
    using r(4) by (simp_all add: member_ok_def)
  have run: "Manager_removeSource E i M k =
      bindE (virtual_removeSource E i (workers M r) k) (\<lambda>(w, k1).
        Inr (0, (set_worker r w M)\<lparr>srcIdWorker := ?t\<rparr>, k1))"
    using r(1) count_src [of M i]
    by (simp add: Manager_removeSource_def um_index_snd_find Let_def set_worker_src)
  show ?thesis
    unfolding run ensures_bindE
  proof (rule ensures_mono [OF vw.rem_law [OF mem(1) p mem(2) r(3) mem(3)]], clarify)
    fix w k1
    assume good: "worker_good w" and fr: "op_frame opn (workers M r) k w k1"
      and view: "worker_abs w = (worker_abs (workers M r))(i := None)"
      and wk: "working w = (working (workers M r) \<and> \<not> isEmpty w)"
    note upd = manager_update [OF ok r(2) good fr view disjI2 [OF r(1)] wf]
    show "ensures (Inr (0 :: int, (set_worker r w M)\<lparr>srcIdWorker := ?t\<rparr>, k1)) (\<lambda>(ret, M', k').
        manager_ok opn M' k' \<and> fades M M' \<and> ret = 0 \<and> manager_abs M' = (manager_abs M)(i := None) \<and>
        workerIdWorker M' = workerIdWorker M)"
      using upd wk by (simp add: set_worker_def fades_def)
  qed
qed

text \<open>Both destination operations change the destinations of one source.\<close>

lemma manager_dest:
  assumes ok: "manager_ok opn M k" and src: "manager_abs M i = Some (a, D)"
    and r: "ifind (srcIdWorker M) i = Some (Some r)" "r < next_worker M"
    and law: "ensures m (\<lambda>(w', k'). worker_good w' \<and> op_frame opn (workers M r) k w' k' \<and> k' = k \<and>
        working w' = working (workers M r) \<and> worker_abs w' = (worker_abs (workers M r))(i \<mapsto> x))"
  shows "ensures (bindE m (\<lambda>(w, k1). Inr (0 :: int, set_worker r w M, k1))) (\<lambda>(ret, M', k').
    manager_ok opn M' k' \<and> fades M M' \<and> ret = 0 \<and> k' = k \<and> manager_abs M' = (manager_abs M)(i \<mapsto> x))"
  unfolding ensures_bindE
proof (rule ensures_mono [OF law], clarify)
  fix w
  assume good: "worker_good w" and fr: "op_frame opn (workers M r) k w k"
    and view: "worker_abs w = (worker_abs (workers M r))(i \<mapsto> x)"
    and wk: "working w = working (workers M r)"
  have fd: "fades M (set_worker r w M)"
    using wk by (intro fades_set [of w _ r]) (simp_all add: set_worker_def)
  have wf: "iwf (srcIdWorker M)" using manager_okD(2) [OF ok] by (simp add: tables_ok_def)
  have "(set_worker r w M)\<lparr>srcIdWorker := srcIdWorker M\<rparr> = set_worker r w M"
    by (simp add: set_worker_def)
  with manager_update [OF ok r(2) good fr view disjI2 [OF r(1)] wf] r(1) fd
  show "ensures (Inr (0 :: int, set_worker r w M, k)) (\<lambda>(ret, M', k').
      manager_ok opn M' k' \<and> fades M M' \<and> ret = 0 \<and> k' = k \<and> manager_abs M' = (manager_abs M)(i \<mapsto> x))"
    by simp
qed

lemma Manager_addDestination_contract:
  assumes ok: "manager_ok opn M k" and p: "platform_ok E opn" and src: "manager_abs M i = Some (a, D)"
  shows "ensures (Manager_addDestination E i d ip port M k) (\<lambda>(ret, M', k').
    manager_ok opn M' k' \<and> fades M M' \<and> ret = 0 \<and> k' = k \<and> manager_abs M' = (manager_abs M)(i \<mapsto>
      (a, if D d = None then D(d \<mapsto> source_addr E ip port k) else D)))"
proof -
  obtain r where r: "ifind (srcIdWorker M) i = Some (Some r)" "r < next_worker M"
      "worker_abs (workers M r) i = Some (a, D)" "member_ok opn (workers M r) k"
    by (rule live_source [OF ok src])
  have mem: "worker_good (workers M r)" "fds_open opn (workers M r) k"
    using r(4) by (simp_all add: member_ok_def)
  have "Manager_addDestination E i d ip port M k =
      bindE (virtual_addDestination E i d ip port (workers M r) k) (\<lambda>(w, k1).
        Inr (0, set_worker r w M, k1))"
    using r(1) count_src [of M i] by (simp add: Manager_addDestination_def um_index_snd_find Let_def)
  then show ?thesis
    using manager_dest [OF ok src r(1,2) vw.addd_law [OF mem(1) p mem(2) r(3)]] by simp
qed

lemma Manager_removeDestination_contract:
  assumes ok: "manager_ok opn M k" and p: "platform_ok E opn" and src: "manager_abs M i = Some (a, D)"
  shows "ensures (Manager_removeDestination E i d M k) (\<lambda>(ret, M', k').
    manager_ok opn M' k' \<and> fades M M' \<and> ret = 0 \<and> k' = k \<and>
    manager_abs M' = (manager_abs M)(i \<mapsto> (a, D(d := None))))"
proof -
  obtain r where r: "ifind (srcIdWorker M) i = Some (Some r)" "r < next_worker M"
      "worker_abs (workers M r) i = Some (a, D)" "member_ok opn (workers M r) k"
    by (rule live_source [OF ok src])
  have mem: "worker_good (workers M r)" "fds_open opn (workers M r) k"
    using r(4) by (simp_all add: member_ok_def)
  have "Manager_removeDestination E i d M k =
      bindE (virtual_removeDestination E i d (workers M r) k) (\<lambda>(w, k1).
        Inr (0, set_worker r w M, k1))"
    using r(1) count_src [of M i] by (simp add: Manager_removeDestination_def um_index_snd_find Let_def)
  then show ?thesis
    using manager_dest [OF ok src r(1,2) vw.remd_law [OF mem(1) p mem(2) r(3)]] by simp
qed

section \<open>The start and the messages\<close>

lemma manager_ok_new: "manager_ok opn Manager_new k" "manager_abs Manager_new = Map.empty"
  by (simp_all add: manager_ok_def pool_ok_def tables_ok_def Manager_new_def manager_abs_def fun_eq_iff)

lemma handle_message_ok:
  assumes ok: "manager_ok opn M k" and k: "opn k' = opn k"
  shows "manager_ok opn (handle_message m M) k'" and "manager_abs (handle_message m M) = manager_abs M"
proof -
  have same: "workers (handle_message m M) = workers M" "next_worker (handle_message m M) = next_worker M"
      "srcIdWorker (handle_message m M) = srcIdWorker M"
    by (simp_all add: handle_message_def)
  note cong = manager_ok_cong [OF same]
  note parts = manager_okD [OF ok]
  have "iwf (workerIdWorker (handle_message m M))"
    using parts(2) by (simp add: handle_message_def tables_ok_def)
  moreover have "\<exists>r < next_worker M. q = Some r \<and> worker_id (workers M r) = i"
    if "ifind (workerIdWorker (handle_message m M)) i = Some q" for i q
    using that tables_wid [OF parts(2), of i q] by (auto simp: handle_message_def split: if_splits)
  ultimately have "tables_ok (handle_message m M)" by (rule cong(3) [OF parts(2)])
  moreover have "pool_ok opn M k' = pool_ok opn M k"
    by (simp add: pool_ok_def member_ok_def fds_open_def k)
  ultimately show "manager_ok opn (handle_message m M) k'"
    using parts(1) by (simp add: manager_ok_def cong(1))
  show "manager_abs (handle_message m M) = manager_abs M" by (rule cong(2))
qed

end
