(* ===== verification/Worker_Loop.thy ===== *)
theory Worker_Loop
  imports Worker_Virtual
begin

text \<open>
  The thread of a worker: \<^verbatim>\<open>run\<close>, \<^verbatim>\<open>build_select_list\<close> and \<^verbatim>\<open>check_select_list\<close> around the virtual
  \<^verbatim>\<open>process\<close>. The locale \<open>packet_processor\<close> states what the loop needs of a \<^verbatim>\<open>process\<close>: called on
  a descriptor of the worker it keeps the invariant and leaves the sources alone, up to the
  undefined operations in \<open>errs\<close>, which may depend on the platform. It is interpreted on the two
  implementations. Both read an unwritten sender where a receive fails; a \<^verbatim>\<open>StatsWorker\<close> can also overflow
  the byte counter of a list.
\<close>

section \<open>Composing frames\<close>

lemma op_frame_trans:
  assumes "op_frame opn w k w1 k1" and "op_frame opn w1 k1 w2 k2"
  shows "op_frame opn w k w2 k2"
proof -
  have "same_worker w w2" "fds_open opn w2 k2"
    using assms by (simp_all add: op_frame_def same_worker_def)
  moreover have "worker_fds w2 - worker_fds w \<subseteq> opn k2 - opn k" "opn k - opn k2 \<subseteq> worker_fds w"
    using assms unfolding op_frame_def fds_open_subset by blast+
  ultimately show ?thesis by (simp add: op_frame_def)
qed

text \<open>The fields of the select loop are read by no invariant.\<close>

definition set_select :: "int list \<Rightarrow> int \<Rightarrow> int \<times> int \<Rightarrow> worker \<Rightarrow> worker" where
  "set_select fs h t w = w\<lparr>fdset := fs, highsock := h, timeout := t\<rparr>"

lemma set_select_ok:
  "worker_ok (set_select fs h t w) = worker_ok w" "worker_abs (set_select fs h t w) = worker_abs w"
  "stats_ok (set_select fs h t w) = stats_ok w"
proof -
  have r: "routes_inv (set_select fs h t w) = routes_inv w"
      "worker_abs (set_select fs h t w) = worker_abs w"
      "n_sources (set_select fs h t w) = n_sources w"
    by (rule routes_inv_frame; simp add: set_select_def)+
  then show "worker_ok (set_select fs h t w) = worker_ok w"
    "worker_abs (set_select fs h t w) = worker_abs w"
    using sockets_inv_frame [of "set_select fs h t w" w] by (simp_all add: worker_ok_def set_select_def)
  show "stats_ok (set_select fs h t w) = stats_ok w" by (simp add: stats_ok_def set_select_def)
qed

lemma set_select_simps [simp]:
  "portFd (set_select fs h t w) = portFd w" "working (set_select fs h t w) = working w"
  "fdset (set_select fs h t w) = fs" "highsock (set_select fs h t w) = h"
  "timeout (set_select fs h t w) = t" "same_worker w (set_select fs h t w)"
  "set_select fs h t (set_select fs' h' t' w) = set_select fs h t w"
  "set_select (fdset w) (highsock w) (timeout w) w = w"
  by (simp_all add: set_select_def same_worker_def)

section \<open>Building the set\<close>

lemma set_fds_eq:
  "set_fds es w =
     (if \<forall>fd \<in> snd ` set es. 0 \<le> fd \<and> fd < FD_SETSIZE
      then Inr (set_select (fold List.insert (map snd es) (fdset w))
             (fold max (map snd es) (highsock w)) (timeout w) w)
      else Inl FdSetRange)"
proof (induction es arbitrary: w)
  case (Cons e es)
  obtain p fd where e: "e = (p, fd)" by (cases e)
  have "max fd h = (if fd > h then fd else h)" for h :: int by simp
  then show ?case
    using Cons [of "w\<lparr>fdset := List.insert fd (fdset w),
                      highsock := (if fd > highsock w then fd else highsock w)\<rparr>"]
    by (simp add: e set_select_def)
qed simp

lemma set_fold_insert: "set (fold List.insert xs ys) = set xs \<union> set ys"
  by (induction xs arbitrary: ys) auto

lemma fold_max_start: "y \<le> fold max xs (y :: int)"
proof (induction xs arbitrary: y)
  case (Cons x xs)
  show ?case using Cons [of "max x y"] by simp
qed simp

lemma fold_max_ge: "x \<in> set xs \<Longrightarrow> x \<le> fold max xs (y :: int)"
proof (induction xs arbitrary: y)
  case (Cons a xs)
  then show ?case using fold_max_start [of "max a y" xs] by auto
qed simp

lemma build_select_list_spec:
  assumes ord: "ord_ok (key_order E)" and wf: "iwf (portFd w)"
  shows "within {FdSetRange} (build_select_list E w) (\<lambda>w'.
      set (fdset w') = worker_fds w \<and> (\<forall>fd \<in> worker_fds w. fd < highsock w') \<and>
      w' = set_select (fdset w') (highsock w') (15, 0) w)"
    and "(\<exists>w'. build_select_list E w = Inr w') \<longleftrightarrow> worker_fds w \<subseteq> {0..<FD_SETSIZE}"
proof -
  let ?es = "iiter (key_order E) (portFd w)"
  have "ifind (portFd w) p = Some fd \<longleftrightarrow> (p, fd) \<in> set (portFd w)" for p fd
    using ik.wf_find_in [OF wf] by (auto dest: um_find_SomeD)
  then have fds: "snd ` set ?es = worker_fds w"
    by (force simp: iiter_set [OF ord wf] worker_fds_def)
  have run: "build_select_list E w =
     (if worker_fds w \<subseteq> {0..<FD_SETSIZE}
      then Inr (set_select (fold List.insert (map snd ?es) [])
             (fold max (map snd ?es) (-1) + 1) (15, 0) w)
      else Inl FdSetRange)"
  proof -
    have "(\<forall>fd \<in> snd ` set ?es. 0 \<le> fd \<and> fd < FD_SETSIZE) \<longleftrightarrow> worker_fds w \<subseteq> {0..<FD_SETSIZE}"
      unfolding fds by auto
    then show ?thesis by (simp add: build_select_list_def set_fds_eq set_select_def Let_def)
  qed
  have "\<forall>fd \<in> worker_fds w. fd < fold max (map snd ?es) (-1) + 1"
    using fold_max_ge [of _ "map snd ?es" "-1"] fds by fastforce
  then show "within {FdSetRange} (build_select_list E w) (\<lambda>w'.
      set (fdset w') = worker_fds w \<and> (\<forall>fd \<in> worker_fds w. fd < highsock w') \<and>
      w' = set_select (fdset w') (highsock w') (15, 0) w)"
    using fds by (simp add: run set_fold_insert)
  show "(\<exists>w'. build_select_list E w = Inr w') \<longleftrightarrow> worker_fds w \<subseteq> {0..<FD_SETSIZE}"
    by (simp add: run)
qed

section \<open>What the loop asks of process\<close>

locale packet_processor =
  fixes good :: "worker \<Rightarrow> bool"
    and errs :: "'k env \<Rightarrow> ub set"
    and proc :: "'k env \<Rightarrow> int \<Rightarrow> worker \<Rightarrow> 'k \<Rightarrow> (worker \<times> 'k) res"
  assumes good_wf: "good w \<Longrightarrow> iwf (portFd w)"
    and good_select: "good w \<Longrightarrow> good (set_select fs h t w)"
    and proc_law: "good w \<Longrightarrow> platform_ok E opn \<Longrightarrow> fds_open opn w k \<Longrightarrow>
      ifind (portFd w) p = Some fd \<Longrightarrow>
      within (errs E) (proc E fd w k) (\<lambda>(w', k').
        good w' \<and> op_frame opn w k w' k' \<and> worker_abs w' = worker_abs w \<and>
        working w' = working w \<and> portFd w' = portFd w)"
begin

definition kept :: "('k \<Rightarrow> int set) \<Rightarrow> worker \<Rightarrow> 'k \<Rightarrow> worker \<Rightarrow> 'k \<Rightarrow> bool" where
  "kept opn w k w' k' \<longleftrightarrow> good w' \<and> op_frame opn w k w' k' \<and> worker_abs w' = worker_abs w \<and>
     working w' = working w \<and> portFd w' = portFd w"

lemma kept_refl: "good w \<Longrightarrow> fds_open opn w k \<Longrightarrow> kept opn w k w k"
  by (simp add: kept_def op_frame_refl)

lemma kept_trans: "kept opn w k w1 k1 \<Longrightarrow> kept opn w1 k1 w2 k2 \<Longrightarrow> kept opn w k w2 k2"
  unfolding kept_def using op_frame_trans by metis

lemma kept_fds: "kept opn w k w' k' \<Longrightarrow> fds_open opn w' k'"
  by (simp add: kept_def op_frame_def)

lemma kept_select:
  "good w \<Longrightarrow> fds_open opn w k \<Longrightarrow> opn k' = opn k \<Longrightarrow> kept opn w k (set_select fs h t w) k'"
  unfolding kept_def
  by (intro conjI good_select op_frame_cong) (simp_all add: set_select_ok)

lemma check_fds_law:
  assumes "good w" and p: "platform_ok E opn" and "fds_open opn w k"
    and "set es \<subseteq> set (portFd w)"
  shows "within (errs E) (check_fds (proc E) es w k) (\<lambda>(w', k'). kept opn w k w' k')"
  using assms(1,3,4)
proof (induction es arbitrary: w k)
  case Nil
  then show ?case by (simp add: kept_refl)
next
  case (Cons e es)
  obtain q fd where e: "e = (q, fd)" by (cases e)
  show ?case
  proof (cases "fd \<in> set (fdset w)")
    case False
    then show ?thesis using Cons by (simp add: e)
  next
    case True
    have "ifind (portFd w) q = Some fd"
      using Cons.prems(1,3) by (intro ik.wf_find_in good_wf) (simp_all add: e)
    note law = proc_law [OF Cons.prems(1) p Cons.prems(2) this]
    have "within (errs E) (bindE (proc E fd w k) (\<lambda>(w1, k1). check_fds (proc E) es w1 k1))
        (\<lambda>(w', k'). kept opn w k w' k')"
      unfolding within_bindE
    proof (rule within_mono [OF law subset_refl], clarify)
      fix w1 k1
      assume "good w1" "op_frame opn w k w1 k1" "worker_abs w1 = worker_abs w"
        "working w1 = working w" "portFd w1 = portFd w"
      then have one: "kept opn w k w1 k1" by (simp add: kept_def)
      have "within (errs E) (check_fds (proc E) es w1 k1) (\<lambda>(w', k'). kept opn w1 k1 w' k')"
        using Cons.prems(3) one by (intro Cons.IH kept_fds [OF one]) (simp_all add: kept_def)
      then show "within (errs E) (check_fds (proc E) es w1 k1) (\<lambda>(w', k'). kept opn w k w' k')"
        by (rule within_mono) (auto intro: kept_trans [OF one])
    qed
    with True show ?thesis by (simp add: e)
  qed
qed

lemma run_body_law:
  assumes good: "good w" and p: "platform_ok E opn" and fds: "fds_open opn w k"
  shows "within (errs E) (run_body E (proc E) w k) (\<lambda>(w', k'). kept opn w k w' k')"
proof (cases "length (portFd w) > 0")
  case False
  then show ?thesis by (simp add: run_body_def kept_refl [OF good fds])
next
  case True
  note os = platform_okD(1) [OF p] and ord = platform_okD(3) [OF p]
  have "worker_fds w \<subseteq> {0..<FD_SETSIZE}"
    using fds platform_okD(4) [OF p] unfolding fds_open_subset descriptor_limit_def FD_SETSIZE_def by blast
  then obtain w1 where w1: "build_select_list E w = Inr w1"
    using build_select_list_spec(2) [OF ord good_wf [OF good]] by blast
  then have shape: "w1 = set_select (fdset w1) (highsock w1) (15, 0) w"
    using build_select_list_spec(1) [OF ord good_wf [OF good]] by simp
  obtain n ready k1 where sel: "sys_select E (highsock w1 + 1) (fdset w1) (timeout w1) k = ((n, ready), k1)"
    by (metis prod.exhaust)
  have opn1: "opn k1 = opn k"
    using sockets_ok_neutral(2) [OF os, of "highsock w1 + 1" "fdset w1" "timeout w1" k] by (simp add: sel)
  define w2 where "w2 = w1\<lparr>fdset := ready\<rparr>"
  have w2: "w2 = set_select ready (highsock w1) (15, 0) w"
    unfolding w2_def by (subst shape) (simp add: set_select_def)
  have "run_body E (proc E) w k =
      (if n > 0 then check_select_list E (proc E) w2 k1
       else bindE (mk_message 0 (worker_id w2) idle_body) (\<lambda>m. Inr (w2, sendMessage E m k1)))"
    using True by (simp add: run_body_def w1 sel w2_def [symmetric])
  moreover have here: "kept opn w k w2 k1" unfolding w2 by (rule kept_select [OF good fds opn1])
  moreover have "within (errs E) (check_select_list E (proc E) w2 k1) (\<lambda>(w', k'). kept opn w k w' k')"
  proof -
    have "good w2" using here by (simp add: kept_def)
    then have "within (errs E) (check_fds (proc E) (iiter (key_order E) (portFd w2)) w2 k1)
        (\<lambda>(w', k'). kept opn w2 k1 w' k')"
      by (intro check_fds_law p kept_fds [OF here]) (simp_all add: iiter_set [OF ord good_wf])
    then show ?thesis
      unfolding check_select_list_def by (rule within_mono) (auto intro: kept_trans [OF here])
  qed
  moreover have "kept opn w k w2 (sendMessage E m k1)" for m
    unfolding w2 by (rule kept_select [OF good fds]) (simp add: opn_sendMessage [OF os] opn1)
  ultimately show ?thesis by simp
qed

text \<open>The thread, for as many rounds as it runs.\<close>

lemma run_law:
  assumes "good w" and p: "platform_ok E opn" and "fds_open opn w k"
  shows "within (errs E) (run n E (proc E) w k) (\<lambda>(w', k'). kept opn w k w' k')"
  using assms(1,3)
proof (induction n arbitrary: w k)
  case 0
  then show ?case by (simp add: kept_refl)
next
  case (Suc n)
  have "within (errs E) (bindE (run_body E (proc E) w k) (\<lambda>(w1, k1). run n E (proc E) w1 k1))
      (\<lambda>(w', k'). kept opn w k w' k')"
    unfolding within_bindE
  proof (rule within_mono [OF run_body_law [OF Suc.prems(1) p Suc.prems(2)] subset_refl], clarify)
    fix w1 k1
    assume one: "kept opn w k w1 k1"
    have "within (errs E) (run n E (proc E) w1 k1) (\<lambda>(w', k'). kept opn w1 k1 w' k')"
      using one by (intro Suc.IH kept_fds [OF one]) (simp add: kept_def)
    then show "within (errs E) (run n E (proc E) w1 k1) (\<lambda>(w', k'). kept opn w k w' k')"
      by (rule within_mono) (auto intro: kept_trans [OF one])
  qed
  then show ?case using Suc.prems by (simp add: kept_refl)
qed

end

section \<open>ForwardWorker in the loop\<close>

lemma getStreamListBySocket_keeps:
  "getStreamListBySocket a w = (q, w') \<Longrightarrow> portFd w' = portFd w"
  by (auto simp: getStreamListBySocket_def getListIdBySocket_def getStreamList_def split: prod.splits)

lemma process_forward_keeps:
  "process_forward E fd w k = Inr (w', k') \<Longrightarrow> portFd w' = portFd w"
  by (auto simp: process_forward_def Let_def set_list_def split: prod.splits if_splits option.splits
      dest!: getStreamListBySocket_keeps)

lemma ok_wf: "worker_ok w \<Longrightarrow> iwf (portFd w)"
  by (simp add: worker_ok_def sockets_inv_def fds_inverse_def)

interpretation fp: packet_processor worker_ok recv_errs process_forward
proof unfold_locales
  fix w E opn p fd fs h t and k :: 'k
  show "worker_ok w \<Longrightarrow> iwf (portFd w)" by (rule ok_wf)
  show "worker_ok w \<Longrightarrow> worker_ok (set_select fs h t w)" by (simp add: set_select_ok)
  assume ok: "worker_ok w" and pl: "platform_ok (E :: 'k env) opn" and fds: "fds_open opn w k"
    and fd: "ifind (portFd w) p = Some fd"
  have "within (recv_errs E) (process_forward E fd w k) (\<lambda>(w', k'). worker_ok w' \<and> op_frame opn w k w' k' \<and>
      worker_abs w' = worker_abs w \<and> working w' = working w)"
    by (rule ft.forward_any [OF ok platform_okD(1) [OF pl] fds fd])
  then show "within (recv_errs E) (process_forward E fd w k) (\<lambda>(w', k'). worker_ok w' \<and> op_frame opn w k w' k' \<and>
      worker_abs w' = worker_abs w \<and> working w' = working w \<and> portFd w' = portFd w)"
    by (rule within_mono) (auto dest: process_forward_keeps)
qed

section \<open>StatsWorker in the loop\<close>

lemma source_entry_stats:
  assumes "stats_ok w" and "source_entry w j r u"
  obtains s where "stats (store w r) = Some s"
  using assms by (auto simp: stats_ok_def source_entry_def has_stats_def)

text \<open>
  A packet of a known source, statistics kept: the worker's counter grows by the length in 32-bit
  arithmetic, the counter of the list too as long as the sum stays an \<^verbatim>\<open>int\<close>.
\<close>

lemma stats_hit:
  assumes good: "stats_good w" and os: "sockets_ok E opn" and fds: "fds_open opn w k"
    and fd: "ifind (portFd w) p = Some fd"
    and recv: "sys_recvfrom E fd k = ((ret, buf, from), k1)" and len: "word_of_int ret \<noteq> (0 :: 32 word)"
    and got: "0 \<le> ret" and src: "worker_abs w j = Some (a, D)" and key: "sock_addr_cmp a (packet_key from p)"
  shows "\<exists>r u s. source_entry w j r u \<and> stats (store w r) = Some s \<and>
    (if fits_int (sint (list_inputBytes s) + sint (word_of_int ret :: 32 word))
     then ensures (process_stats E fd w k) (\<lambda>(w', k').
       stats_good w' \<and> op_frame opn w k w' k' \<and> worker_abs w' = worker_abs w \<and> working w' = working w \<and>
       delivers E fd buf (word_of_int ret) D k1 k' \<and>
       inputBytes w' = inputBytes w + word_of_int ret \<and>
       stats (store w' r) = Some (s\<lparr>list_inputBytes := list_inputBytes s + word_of_int ret\<rparr>))
     else process_stats E fd w k = Inl SignedOverflow)"
proof -
  have ok: "worker_ok w" "stats_ok w" using good by (simp_all add: stats_good_def)
  note inv = worker_okD [OF ok(1)]
  obtain r u where e: "source_entry w j r u" and u: "addr u = a" and D: "dest_map (store w r) = D"
    by (rule entry_of_abs [OF src])
  obtain s where s: "stats (store w r) = Some s" by (rule source_entry_stats [OF ok(2) e])
  let ?len = "word_of_int ret :: 32 word"
  define l where "l = (store w r)\<lparr>stats := Some (s\<lparr>list_inputBytes := list_inputBytes s + ?len\<rparr>)\<rparr>"
  define w0 where "w0 = w\<lparr>inputBytes := inputBytes w + ?len\<rparr>"
  have hit: "getStreamListBySocket (from\<lparr>sin_port := htons (word_of_int p)\<rparr>) w = (Some r, w)"
    by (rule route_hit [OF inv(1) e]) (use key in \<open>simp add: u packet_key_def\<close>)
  have run: "process_stats E fd w k =
      (if fits_int (sint (list_inputBytes s) + sint ?len)
       then Inr (set_list r l w0, send_all E fd buf ?len (destinations (store w r)) k1)
       else Inl SignedOverflow)"
    using len got by (simp add: process_stats_def recv Let_def open_port_fdPort [OF ok(1) fd] hit s sender_of_def
        word_gt_0 updateInputBytes_def getDestinations_def w0_def l_def)
  have same0: "routes_inv w0 = routes_inv w" "worker_abs w0 = worker_abs w" "n_sources w0 = n_sources w"
    by (rule routes_inv_frame; simp add: w0_def)+
  have ok0: "worker_ok w0"
    by (rule worker_ok_tables [OF ok(1)]) (simp_all add: same0 inv(1), simp_all add: w0_def)
  have st0: "stats_ok w0" "fds_open opn w0 k" "source_entry w0 j r u" "store w0 = store w"
    using ok(2) fds e by (simp_all add: stats_ok_def fds_open_def source_entry_def w0_def)
  have keep: "source l = source (store w0 r)" "listId l = listId (store w0 r)" "dest_ok l"
    using entry_dest_ok [OF inv(1) e] by (simp_all add: l_def dest_ok_def st0)
  note res = set_list_ok [OF ok0 st0(2,3) keep]
  let ?w = "set_list r l w0" and ?k = "send_all E fd buf ?len (destinations (store w r)) k1"
  have "has_stats (store w r)" using ok(2) e unfolding stats_ok_def source_entry_def by blast
  then have "has_stats l" by (simp add: l_def has_stats_def)
  then have "stats_good ?w" using res(1) stats_ok_set_list [OF st0(1)] by (simp add: stats_good_def)
  moreover have "worker_abs ?w = worker_abs w"
  proof -
    have "dest_map l = D" using D by (simp add: l_def dest_map_def)
    with src show ?thesis by (simp add: res(3) u same0 fun_upd_idem)
  qed
  moreover have "op_frame opn w k ?w ?k"
    using sockets_ok_neutral(3) [OF os, of fd k]
    by (intro op_frame_cong) (simp_all add: same_worker_def set_list_def w0_def fds opn_send_all [OF os] recv)
  moreover have "delivers E fd buf ?len D k1 ?k"
    unfolding delivers_def
    using entry_dest_ok [OF inv(1) e] D by (auto simp: dest_ok_def dest_map_def)
  moreover have "working ?w = working w" "inputBytes ?w = inputBytes w + ?len" "store ?w r = l"
    by (simp_all add: set_list_def w0_def)
  ultimately show ?thesis
    using e s by (intro exI [of _ r] exI [of _ u] exI [of _ s]) (simp add: run, simp add: l_def)
qed

lemma stats_miss:
  assumes good: "stats_good w" and os: "sockets_ok E opn" and fds: "fds_open opn w k"
    and fd: "ifind (portFd w) p = Some fd"
    and recv: "sys_recvfrom E fd k = ((ret, buf, from), k1)"
    and got: "0 \<le> ret \<or> word_of_int ret = (0 :: 32 word)"
    and none: "\<not> has_source (worker_abs w) (packet_key from p) \<or> word_of_int ret = (0 :: 32 word)"
  shows "ensures (process_stats E fd w k) (\<lambda>(w', k').
    stats_good w' \<and> op_frame opn w k w' k' \<and> worker_abs w' = worker_abs w \<and> working w' = working w \<and>
    store w' = store w \<and> inputBytes w' = inputBytes w \<and> k' = k1)"
proof -
  have ok: "worker_ok w" "stats_ok w" using good by (simp_all add: stats_good_def)
  have opn1: "opn k1 = opn k" using sockets_ok_neutral(3) [OF os, of fd k] by (simp add: recv)
  show ?thesis
  proof (cases "word_of_int ret = (0 :: 32 word)")
    case True
    have "op_frame opn w k w k1" by (intro op_frame_cong) (simp_all add: fds opn1)
    then show ?thesis using True good by (simp add: process_stats_def recv Let_def)
  next
    case False
    with none have "\<not> has_source (worker_abs w) (packet_key from p)" by simp
    then obtain m f where miss:
        "getStreamListBySocket (packet_key from p) w = (None, w\<lparr>management := m, forwarding := f\<rparr>)"
        "routes_inv (w\<lparr>management := m, forwarding := f\<rparr>)"
        "worker_abs (w\<lparr>management := m, forwarding := f\<rparr>) = worker_abs w"
        "n_sources (w\<lparr>management := m, forwarding := f\<rparr>) = n_sources w"
      using route_miss [OF worker_okD(1) [OF ok(1)], of "packet_key from p"] by metis
    let ?w = "w\<lparr>management := m, forwarding := f\<rparr>"
    have "worker_ok ?w" by (rule worker_ok_tables [OF ok(1) miss(2,4)]) simp_all
    moreover have "stats_ok ?w"
      unfolding stats_ok_def
    proof (intro allI impI)
      fix i r
      assume i: "ifind (management ?w) i = Some (Some r)"
      then have "list_conforms ?w i r" by (rule routes_entry [OF miss(2)])
      then obtain u where "source (store w r) = Some u" by (auto simp: list_conforms_def)
      then have "worker_abs ?w i = Some (addr u, dest_map (store w r))"
        using i by (simp add: worker_abs_def)
      then have "\<exists>r' u'. source_entry w i r' u'" unfolding miss(3) by (auto simp: worker_abs_Some)
      then obtain r' u' where e: "source_entry w i r' u'" by blast
      have "m = snd (iindex None (management w) (fst (getListIdBySocket (packet_key from p) w)))"
      proof -
        have "m = management (snd (getStreamListBySocket (packet_key from p) w))" by (simp add: miss(1))
        then show ?thesis
          by (simp add: getStreamListBySocket_def getListIdBySocket_def getStreamList_def split: prod.splits)
      qed
      then have "r = r'" using i e by (auto simp: source_entry_def split: if_splits)
      then have "has_stats (store w r')"
        using ok(2) e unfolding stats_ok_def source_entry_def by blast
      with \<open>r = r'\<close> show "has_stats (store ?w r)" by simp
    qed
    moreover have "op_frame opn w k ?w k1"
      by (intro op_frame_cong) (simp_all add: fds opn1 same_worker_def)
    moreover have "process_stats E fd w k = Inr (?w, k1)"
      using False got miss(1) by (simp add: process_stats_def recv Let_def open_port_fdPort [OF ok(1) fd]
          packet_key_def word_gt_0 sender_of_def)
    ultimately show ?thesis using miss(3) by (simp add: stats_good_def)
  qed
qed

lemma process_stats_keeps:
  "process_stats E fd w k = Inr (w', k') \<Longrightarrow> portFd w' = portFd w"
  by (auto simp: process_stats_def Let_def set_list_def bindE_Inr_iff
      split: prod.splits if_splits option.splits dest!: getStreamListBySocket_keeps)

interpretation sp: packet_processor stats_good "\<lambda>E. insert SignedOverflow (recv_errs E)" process_stats
proof unfold_locales
  fix w E opn p fd fs h t and k :: 'k
  show "stats_good w \<Longrightarrow> iwf (portFd w)" by (simp add: ok_wf stats_good_def)
  show "stats_good w \<Longrightarrow> stats_good (set_select fs h t w)" by (simp add: set_select_ok stats_good_def)
  assume good: "stats_good w" and pl: "platform_ok (E :: 'k env) opn" and fds: "fds_open opn w k"
    and fd: "ifind (portFd w) p = Some fd"
  note os = platform_okD(1) [OF pl]
  obtain ret buf frm k1 where recv: "sys_recvfrom E fd k = ((ret, buf, frm), k1)" by (metis prod.exhaust)
  have "within (insert SignedOverflow (recv_errs E)) (process_stats E fd w k) (\<lambda>(w', k'). stats_good w' \<and>
      op_frame opn w k w' k' \<and> worker_abs w' = worker_abs w \<and> working w' = working w)"
  proof -
    consider (failed) "ret < 0" "word_of_int ret \<noteq> (0 :: 32 word)"
      | (known) "has_source (worker_abs w) (packet_key frm p)" "word_of_int ret \<noteq> (0 :: 32 word)" "0 \<le> ret"
      | (other) "0 \<le> ret \<or> word_of_int ret = (0 :: 32 word)"
          "\<not> has_source (worker_abs w) (packet_key frm p) \<or> word_of_int ret = (0 :: 32 word)"
      by linarith
    then show ?thesis
    proof cases
      case failed
      then show ?thesis by (simp add: process_failed [OF recv] recv_errsI [OF recv])
    next
      case known
      then obtain j a D where src: "worker_abs w j = Some (a, D)" and key: "sock_addr_cmp a (packet_key frm p)"
        by (auto simp: has_source_def)
      from stats_hit [OF good os fds fd recv known(2,3) src key] show ?thesis
        by (auto simp: ensures_Inr split: if_splits)
    next
      case other
      from stats_miss [OF good os fds fd recv other] show ?thesis
        by (intro ensures_within) (erule ensures_mono, auto)
    qed
  qed
  then show "within (insert SignedOverflow (recv_errs E)) (process_stats E fd w k) (\<lambda>(w', k'). stats_good w' \<and>
      op_frame opn w k w' k' \<and> worker_abs w' = worker_abs w \<and> working w' = working w \<and>
      portFd w' = portFd w)"
    by (rule within_mono) (auto dest: process_stats_keeps)
qed

section \<open>The base class, and dispatch\<close>

interpretation bp: packet_processor worker_ok "\<lambda>_. {}" "\<lambda>E. process_base"
  by unfold_locales (simp_all add: ok_wf set_select_ok process_base_def op_frame_refl)

text \<open>The packet thread of any worker the interface is promised for.\<close>

lemma process_of_law:
  assumes good: "worker_good w" and p: "platform_ok E opn" and fds: "fds_open opn w k"
    and fd: "ifind (portFd w) q = Some fd"
  shows "within (insert SignedOverflow (recv_errs E)) (process_of E (wclass w) fd w k) (\<lambda>(w', k').
    worker_good w' \<and> op_frame opn w k w' k' \<and> worker_abs w' = worker_abs w \<and> working w' = working w)"
proof (cases "wclass w")
  case StatsClass
  then have "stats_good w" using good by (simp add: worker_good_iff)
  from sp.proc_law [OF this p fds fd] show ?thesis
    unfolding StatsClass process_of_def worker_class.case
    by (rule within_mono) (use StatsClass in \<open>auto simp: stats_good_def intro: worker_goodI\<close>)
next
  case RtcpClass
  then show ?thesis using good by (simp add: worker_good_def)
next
  case ForwardClass
  then have "worker_ok w" using good by (simp add: worker_good_def)
  from fp.proc_law [OF this p fds fd] show ?thesis
    unfolding ForwardClass process_of_def worker_class.case
    by (rule within_mono) (use ForwardClass in \<open>auto intro: worker_goodI\<close>)
next
  case BaseClass
  then show ?thesis using good fds by (simp add: process_of_def process_base_def op_frame_refl)
qed

lemma run_body_of_law:
  assumes good: "worker_good w" and p: "platform_ok E opn" and fds: "fds_open opn w k"
  shows "within (insert SignedOverflow (recv_errs E)) (run_body E (process_of E (wclass w)) w k) (\<lambda>(w', k').
    worker_good w' \<and> op_frame opn w k w' k' \<and> worker_abs w' = worker_abs w \<and> working w' = working w)"
proof (cases "wclass w")
  case StatsClass
  then have "stats_good w" using good by (simp add: worker_good_iff)
  from sp.run_body_law [OF this p fds] show ?thesis
    unfolding StatsClass process_of_def worker_class.case
    by (rule within_mono) (use StatsClass in \<open>auto simp: stats_good_def sp.kept_def intro: worker_goodI\<close>)
next
  case RtcpClass
  then show ?thesis using good by (simp add: worker_good_def)
next
  case ForwardClass
  then have "worker_ok w" using good by (simp add: worker_good_def)
  from fp.run_body_law [OF this p fds] show ?thesis
    unfolding ForwardClass process_of_def worker_class.case
    by (rule within_mono) (use ForwardClass in \<open>auto simp: fp.kept_def intro: worker_goodI\<close>)
next
  case BaseClass
  then have "worker_ok w" using good by (simp add: worker_good_def)
  from bp.run_body_law [OF this p fds] show ?thesis
    unfolding BaseClass process_of_def worker_class.case
    by (rule within_mono) (use BaseClass in \<open>auto simp: bp.kept_def intro: worker_goodI\<close>)
qed

end
