(* ===== verification/System.thy ===== *)
theory System
  imports Manager_Contract Worker_Loop
begin

text \<open>
  The library as a whole: a step relation whose steps are the calls of a client, the messages the
  manager's thread handles, the packets and rounds of the workers' threads and the rounds of the
  statistics threads, in any order. The invariant of the manager holds in every reachable state,
  and every step acts on the map of sources as the abstract specification \<open>spec_event\<close> of that call states.
\<close>

section \<open>Steps\<close>

datatype event =
    CallAddSource int int string int      \<comment> \<open>worker type, identifier, address, port\<close>
  | CallRemoveSource int
  | CallAddDestination int int string int \<comment> \<open>source, identifier, address, port\<close>
  | CallRemoveDestination int int         \<comment> \<open>source, identifier\<close>
  | Internal                          \<comment> \<open>a step of a thread of the library\<close>

text \<open>
  \<open>lib_event E c n s t\<close>: the call or thread step \<open>c\<close> takes the library from \<open>s\<close> to \<open>t\<close> and returns \<open>n\<close>
  to its caller (0 for a step of a thread).
\<close>

inductive lib_event :: "'k env \<Rightarrow> event \<Rightarrow> int \<Rightarrow> manager \<times> 'k \<Rightarrow> manager \<times> 'k \<Rightarrow> bool" for E :: "'k env" where
  ev_add: "i \<noteq> 0 \<Longrightarrow> manager_abs M i = None \<Longrightarrow> valid_port port \<Longrightarrow> ty \<noteq> RTCP_WORKER_TYPE \<Longrightarrow>
    Manager_addSource E ty i ip port M k = Inr (ret, M', k') \<Longrightarrow>
    lib_event E (CallAddSource ty i ip port) ret (M, k) (M', k')"
| ev_remove: "Manager_removeSource E i M k = Inr (ret, M', k') \<Longrightarrow>
    lib_event E (CallRemoveSource i) ret (M, k) (M', k')"
| ev_add_dest: "Manager_addDestination E i d ip port M k = Inr (ret, M', k') \<Longrightarrow>
    lib_event E (CallAddDestination i d ip port) ret (M, k) (M', k')"
| ev_remove_dest: "Manager_removeDestination E i d M k = Inr (ret, M', k') \<Longrightarrow>
    lib_event E (CallRemoveDestination i d) ret (M, k) (M', k')"
| ev_message: "mq_receive E k = (Some m, k') \<Longrightarrow> lib_event E Internal 0 (M, k) (handle_message m M, k')"
| ev_packet: "r < next_worker M \<Longrightarrow> working (workers M r) \<Longrightarrow> ifind (portFd (workers M r)) p = Some fd \<Longrightarrow>
    process_of E (wclass (workers M r)) fd (workers M r) k = Inr (w', k') \<Longrightarrow>
    lib_event E Internal 0 (M, k) (set_worker r w' M, k')"
| ev_round: "r < next_worker M \<Longrightarrow> working (workers M r) \<Longrightarrow>
    run_body E (process_of E (wclass (workers M r))) (workers M r) k = Inr (w', k') \<Longrightarrow>
    lib_event E Internal 0 (M, k) (set_worker r w' M, k')"
| ev_stats: "r < next_worker M \<Longrightarrow> working (workers M r) \<Longrightarrow> wclass (workers M r) = StatsClass \<Longrightarrow>
    generateStats_round E (workers M r) k = Inr (w', out, k') \<Longrightarrow>
    lib_event E Internal 0 (M, k) (set_worker r w' M, k')"

definition lib_step :: "'k env \<Rightarrow> manager \<times> 'k \<Rightarrow> manager \<times> 'k \<Rightarrow> bool" where
  "lib_step E s t \<longleftrightarrow> (\<exists>c n. lib_event E c n s t)"

lemma lib_stepI: "lib_event E c n s t \<Longrightarrow> lib_step E s t"
  by (auto simp: lib_step_def)

lemmas step_add = ev_add [THEN lib_stepI]
lemmas step_remove = ev_remove [THEN lib_stepI]
lemmas step_add_dest = ev_add_dest [THEN lib_stepI]
lemmas step_packet = ev_packet [THEN lib_stepI]

section \<open>The specification\<close>

type_synonym sources = "int \<Rightarrow> (sockaddr_in \<times> (int \<Rightarrow> sockaddr_in option)) option"

text \<open>
  What each call makes of the map of sources and what it returns. Only adding a source has two results,
  as the system may not give it a socket.
\<close>

fun spec_event :: "'k env \<Rightarrow> 'k \<Rightarrow> event \<Rightarrow> int \<Rightarrow> sources \<Rightarrow> sources \<Rightarrow> bool" where
  "spec_event E k (CallAddSource ty i ip port) n A A' \<longleftrightarrow>
     (if n = 0 then A' = A(i \<mapsto> (source_addr E ip port k, Map.empty)) else n = -1 \<and> A' = A)"
| "spec_event E k (CallRemoveSource i) n A A' \<longleftrightarrow> n = (if A i = None then -1 else 0) \<and> A' = A(i := None)"
| "spec_event E k (CallAddDestination i d ip port) n A A' \<longleftrightarrow>
     (case A i of None \<Rightarrow> n = -1 \<and> A' = A
      | Some (a, D) \<Rightarrow> n = 0 \<and>
          A' = A(i \<mapsto> (a, if D d = None then D(d \<mapsto> source_addr E ip port k) else D)))"
| "spec_event E k (CallRemoveDestination i d) n A A' \<longleftrightarrow>
     (case A i of None \<Rightarrow> n = -1 \<and> A' = A
      | Some (a, D) \<Rightarrow> n = 0 \<and> A' = A(i \<mapsto> (a, D(d := None))))"
| "spec_event E k Internal n A A' \<longleftrightarrow> A' = A"

text \<open>What one step gives: the invariant, the effect that the specification states, and no worker back.\<close>

definition simulates ::
    "'k env \<Rightarrow> ('k \<Rightarrow> int set) \<Rightarrow> event \<Rightarrow> int \<Rightarrow> manager \<times> 'k \<Rightarrow> manager \<times> 'k \<Rightarrow> bool" where
  "simulates E opn c n s t \<longleftrightarrow>
     manager_ok opn (fst t) (snd t) \<and> fades (fst s) (fst t) \<and>
     spec_event E (snd s) c n (manager_abs (fst s)) (manager_abs (fst t))"

lemma simulates_same_view:
  assumes ok: "manager_ok opn M k" and r: "r < next_worker M" and good: "worker_good w'"
    and fr: "op_frame opn (workers M r) k w' k'" and view: "worker_abs w' = worker_abs (workers M r)"
    and wk: "working w' \<Longrightarrow> working (workers M r)"
  shows "simulates E opn Internal n (M, k) (set_worker r w' M, k')"
  using manager_same_view [OF ok r good fr view] wk
  by (simp add: simulates_def fades_def set_worker_def)

lemma ensuresD: "ensures m Q \<Longrightarrow> m = Inr x \<Longrightarrow> Q x"
  by simp

lemma withinD: "within errs m Q \<Longrightarrow> m = Inr x \<Longrightarrow> Q x"
  by simp

lemma add_simulates:
  assumes ok: "manager_ok opn M k" and p: "platform_ok E opn" and ty: "ty \<noteq> RTCP_WORKER_TYPE"
    and new: "i \<noteq> 0" "manager_abs M i = None" and port: "valid_port port"
    and run: "Manager_addSource E ty i ip port M k = Inr (ret, M', k')"
  shows "simulates E opn (CallAddSource ty i ip port) ret (M, k) (M', k')"
  using ensuresD [OF Manager_addSource_contract [OF ok p ty new port] run]
  by (simp add: simulates_def split: if_splits)

lemma remove_simulates:
  assumes ok: "manager_ok opn M k" and p: "platform_ok E opn"
    and run: "Manager_removeSource E i M k = Inr (ret, M', k')"
  shows "simulates E opn (CallRemoveSource i) ret (M, k) (M', k')"
proof (cases "manager_abs M i")
  case None
  then show ?thesis
    using run ok Manager_missing_source(1) [OF ok] by (auto simp: simulates_def fades_refl fun_upd_idem)
next
  case (Some x)
  obtain a D where "x = (a, D)" by (cases x)
  from ensuresD [OF Manager_removeSource_contract [OF ok p Some [unfolded this]] run] Some
  show ?thesis by (simp add: simulates_def)
qed

lemma add_dest_simulates:
  assumes ok: "manager_ok opn M k" and p: "platform_ok E opn"
    and run: "Manager_addDestination E i d ip port M k = Inr (ret, M', k')"
  shows "simulates E opn (CallAddDestination i d ip port) ret (M, k) (M', k')"
proof (cases "manager_abs M i")
  case None
  then show ?thesis using run ok Manager_missing_source(2) [OF ok] by (simp add: simulates_def fades_refl)
next
  case (Some x)
  obtain a D where "x = (a, D)" by (cases x)
  with ensuresD [OF Manager_addDestination_contract [OF ok p Some [unfolded this]] run] Some
  show ?thesis by (auto simp: simulates_def)
qed

lemma remove_dest_simulates:
  assumes ok: "manager_ok opn M k" and p: "platform_ok E opn"
    and run: "Manager_removeDestination E i d M k = Inr (ret, M', k')"
  shows "simulates E opn (CallRemoveDestination i d) ret (M, k) (M', k')"
proof (cases "manager_abs M i")
  case None
  then show ?thesis using run ok Manager_missing_source(3) [OF ok] by (simp add: simulates_def fades_refl)
next
  case (Some x)
  obtain a D where "x = (a, D)" by (cases x)
  with ensuresD [OF Manager_removeDestination_contract [OF ok p Some [unfolded this]] run] Some
  show ?thesis by (auto simp: simulates_def)
qed

lemma message_simulates:
  assumes ok: "manager_ok opn M k" and p: "platform_ok E opn" and m: "mq_receive E k = (q, k')"
  shows "simulates E opn Internal n (M, k) (handle_message m' M, k')"
proof -
  have "opn k' = opn k" using sockets_ok_neutral(7) [OF platform_okD(1) [OF p], of k] by (simp add: m)
  from handle_message_ok [OF ok this] show ?thesis
    by (simp add: simulates_def) (simp add: fades_def handle_message_def)
qed

text \<open>Every step: the simulation, and no worker comes back to work.\<close>

lemma lib_event_law:
  assumes "lib_event E c n s t" and "manager_ok opn (fst s) (snd s)" and p: "platform_ok E opn"
  shows "simulates E opn c n s t"
  using assms(1,2)
proof (induction rule: lib_event.induct)
  case (ev_add i M port ty ip k ret M' k')
  then have ok: "manager_ok opn M k" by simp
  show ?case
    using add_simulates [OF ok p ev_add(4,1-3,5)] by simp
next
  case (ev_remove i M k ret M' k')
  then show ?case using remove_simulates [OF _ p ev_remove(1)] by simp
next
  case (ev_add_dest i d ip port M k ret M' k')
  then show ?case using add_dest_simulates [OF _ p ev_add_dest(1)] by simp
next
  case (ev_remove_dest i d M k ret M' k')
  then show ?case using remove_dest_simulates [OF _ p ev_remove_dest(1)] by simp
next
  case (ev_message k m k' M)
  then show ?case using message_simulates [OF _ p ev_message(1)] by simp
next
  case (ev_packet r M q fd k w' k')
  then have ok: "manager_ok opn M k" by simp
  have mem: "worker_good (workers M r)" "fds_open opn (workers M r) k"
    using pool_member [OF manager_okD(1) [OF ok] ev_packet(1)] by (simp_all add: member_ok_def)
  from withinD [OF process_of_law [OF mem(1) p mem(2) ev_packet(3)] ev_packet(4)]
  show ?case using simulates_same_view [OF ok ev_packet(1)] by (simp add: ev_packet(2))
next
  case (ev_round r M k w' k')
  then have ok: "manager_ok opn M k" by simp
  have mem: "worker_good (workers M r)" "fds_open opn (workers M r) k"
    using pool_member [OF manager_okD(1) [OF ok] ev_round(1)] by (simp_all add: member_ok_def)
  from withinD [OF run_body_of_law [OF mem(1) p mem(2)] ev_round(3)]
  show ?case using simulates_same_view [OF ok ev_round(1)] by (simp add: ev_round(2))
next
  case (ev_stats r M k w' out k')
  then have ok: "manager_ok opn M k" by simp
  have mem: "worker_good (workers M r)" "fds_open opn (workers M r) k"
    using pool_member [OF manager_okD(1) [OF ok] ev_stats(1)] by (simp_all add: member_ok_def)
  have good: "worker_ok (workers M r)" "stats_ok (workers M r)"
    using mem(1) ev_stats(3) by (simp_all add: worker_good_def)
  from withinD [OF generateStats_round_ok [OF good platform_okD(2,1) [OF p] mem(2) platform_okD(3) [OF p]] ev_stats(4)]
  have res: "worker_ok w'" "stats_ok w'" "worker_abs w' = worker_abs (workers M r)"
      "op_frame opn (workers M r) k w' k'"
    by simp_all
  have "worker_good w'" using res ev_stats(3) by (intro worker_goodI [OF res(4)]) simp_all
  then show ?case
    using simulates_same_view [OF ok ev_stats(1)] res by (simp add: ev_stats(2))
qed

lemma lib_step_law:
  assumes "lib_step E s t" and "manager_ok opn (fst s) (snd s)" and "platform_ok E opn"
  shows "manager_ok opn (fst t) (snd t)" and "fades (fst s) (fst t)"
proof -
  obtain c n where "lib_event E c n s t" using assms(1) by (auto simp: lib_step_def)
  from lib_event_law [OF this assms(2,3)] show "manager_ok opn (fst t) (snd t)" "fades (fst s) (fst t)"
    by (simp_all add: simulates_def)
qed

definition reachable :: "'k env \<Rightarrow> 'k \<Rightarrow> manager \<Rightarrow> 'k \<Rightarrow> bool" where
  "reachable E k0 M k \<longleftrightarrow> (lib_step E)\<^sup>*\<^sup>* (Manager_new, k0) (M, k)"

lemma reachable_ok:
  assumes "reachable E k0 M k" and p: "platform_ok E opn"
  shows "manager_ok opn M k"
proof -
  have "(lib_step E)\<^sup>*\<^sup>* s t \<Longrightarrow> manager_ok opn (fst s) (snd s) \<Longrightarrow> manager_ok opn (fst t) (snd t)" for s t
  proof (induction rule: rtranclp_induct)
    case (step t u)
    have "lib_step E (fst t, snd t) u" using step.hyps(2) by simp
    from lib_step_law(1) [OF this _ p] step.IH [OF step.prems] show ?case by simp
  qed simp
  from this [of "(Manager_new, k0)" "(M, k)"] show ?thesis
    using assms(1) manager_ok_new(1) [of opn k0] by (simp add: reachable_def)
qed

end
