(* ===== verification/Lingering.thy ===== *)
theory Lingering
  imports System
begin

text \<open>
  A worker is empty when its management table has no entry, and looking a list up by the address of an
  unknown sender enters a null pointer under the identifier 0. \<open>lingers w\<close>: the worker \<open>w\<close> has such an
  entry. No operation on a source other than 0 takes it away, so while the
  application adds no source 0, which would replace it, a worker that lingers is never empty and never
  stops.
\<close>

definition lingers :: "worker \<Rightarrow> bool" where
  "lingers w \<longleftrightarrow> ifind (management w) 0 \<noteq> None"

definition stays :: "worker \<Rightarrow> worker \<Rightarrow> bool" where
  "stays w w' \<longleftrightarrow> lingers w \<longrightarrow> lingers w' \<and> working w' = working w"

named_theorems staying

lemma stays_refl [staying]: "stays w w"
  by (simp add: stays_def)

lemma stays_trans: "stays w w1 \<Longrightarrow> stays w1 w2 \<Longrightarrow> stays w w2"
  by (simp add: stays_def)

lemma stays_same: "management w' = management w \<Longrightarrow> working w' = working w \<Longrightarrow> stays w w'"
  by (simp add: stays_def lingers_def)

section \<open>The tables\<close>

lemma lookup_stays:
  "getStreamList i w = (p, w') \<Longrightarrow> stays w w'"
  "getListIdBySocket a w = (j, w') \<Longrightarrow> stays w w'"
  "getStreamListBySocket a w = (q, w') \<Longrightarrow> stays w w'"
  by (auto simp: stays_def lingers_def getStreamListBySocket_def getStreamList_def getListIdBySocket_def
      um_index_def split: prod.splits option.splits)

lemma addStreamList_stays: "addStreamList i p w = Inr w' \<Longrightarrow> stays w w'"
  by (auto simp: stays_def lingers_def addStreamList_def bindE_Inr_iff Let_def)

lemma set_list_stays: "stays w (set_list r l w)" "stays w (snd (new_list l w))"
  by (simp_all add: stays_same set_list_def new_list_def)

lemma socket_stays:
  "add_socket E p w k = (b, w', k') \<Longrightarrow> stays w w'" "remove_socket E p w k = (c, w', k') \<Longrightarrow> stays w w'"
  by (auto simp: stays_def lingers_def add_socket_def remove_socket_def Let_def split: prod.splits if_splits)

lemma removeStreamList_stays: "removeStreamList i w = Inr w' \<Longrightarrow> i \<noteq> 0 \<Longrightarrow> stays w w'"
  by (auto simp: stays_def lingers_def removeStreamList_def bindE_Inr_iff getStreamList_def um_index_def
      split: prod.splits option.splits)

section \<open>The operations\<close>

lemmas table_defs = stays_def lingers_def getListIdBySocket_def getStreamList_def new_list_def set_list_def
  addStreamList_def removeStreamList_def um_index_def

lemma add_socket_rest:
  "add_socket E p w k = (b, w', k') \<Longrightarrow> management w' = management w \<and> working w' = working w"
  by (simp add: add_socket_frame)

lemma addSource_stays: "addSource E i ip port w k = Inr (b, w', k') \<Longrightarrow> stays w w'"
  by (auto simp: addSource_def Let_def table_defs bindE_Inr_iff split: prod.splits if_splits option.splits
      dest!: add_socket_rest)

lemma addSource_stats_stays: "addSource_stats E i ip port w k = Inr (b, w', k') \<Longrightarrow> stays w w'"
  by (auto simp: addSource_stats_def Let_def table_defs bindE_Inr_iff split: prod.splits if_splits option.splits
      dest!: add_socket_rest)

lemma removeSource_stays:
  assumes run: "removeSource E i w k = Inr (w', k')" and i: "i \<noteq> 0"
  shows "stays w w'"
proof -
  obtain p w1 where g: "getStreamList i w = (p, w1)" by fastforce
  obtain r port where r: "deref p = Inr r" "getSourcePort (store w1 r) = Inr port"
    using run by (auto simp: removeSource_def g bindE_Inr_iff)
  obtain b w2 k1 where s: "remove_socket E port w1 k = (b, w2, k1)" by (metis prod_cases3)
  obtain w3 where w3: "removeStreamList i w2 = Inr w3" using run by (auto simp: removeSource_def g r s bindE_Inr_iff)
  have st: "stays w w3"
    using lookup_stays(1) [OF g] socket_stays(2) [OF s] removeStreamList_stays [OF w3 i] stays_trans by blast
  show ?thesis
  proof (cases "isEmpty w3")
    case True
    then have "\<not> lingers w3" by (simp add: lingers_def isEmpty_def split: if_splits)
    then show ?thesis using st by (simp add: stays_def)
  next
    case False
    then show ?thesis using run st by (simp add: removeSource_def g r s w3)
  qed
qed

lemma addDestination_stays: "addDestination E i d ip port w k = Inr (w', k') \<Longrightarrow> stays w w'"
  by (auto simp: addDestination_def Let_def table_defs bindE_Inr_iff split: prod.splits if_splits option.splits)

lemma removeDestination_stays: "removeDestination E i d w k = Inr (w', k') \<Longrightarrow> stays w w'"
  by (auto simp: removeDestination_def Let_def table_defs bindE_Inr_iff split: prod.splits if_splits option.splits)

section \<open>The threads\<close>

lemma process_forward_stays: "process_forward E fd w k = Inr (w', k') \<Longrightarrow> stays w w'"
  by (auto simp: process_forward_def Let_def getStreamListBySocket_def table_defs updateTimeStamp_def
      split: prod.splits if_splits option.splits)

lemma process_stats_stays: "process_stats E fd w k = Inr (w', k') \<Longrightarrow> stays w w'"
  by (auto simp: process_stats_def Let_def getStreamListBySocket_def table_defs bindE_Inr_iff
      split: prod.splits if_splits option.splits)

lemma process_of_stays: "process_of E c fd w k = Inr (w', k') \<Longrightarrow> stays w w'"
  by (cases c) (auto simp: process_of_def process_base_def stays_refl dest: process_forward_stays process_stats_stays)

lemma set_fds_stays: "set_fds es w = Inr w' \<Longrightarrow> stays w w'"
  by (auto simp: set_fds_eq split: if_splits) (simp add: stays_same set_select_def)

lemma check_fds_stays:
  assumes "\<And>fd w k w' k'. proc fd w k = Inr (w', k') \<Longrightarrow> stays w w'"
  shows "check_fds proc es w k = Inr (w', k') \<Longrightarrow> stays w w'"
proof (induction es arbitrary: w k)
  case Nil
  then show ?case by (simp add: stays_refl)
next
  case (Cons e es)
  obtain q fd where e: "e = (q, fd)" by (cases e)
  show ?case
  proof (cases "fd \<in> set (fdset w)")
    case True
    then obtain w1 k1 where "proc fd w k = Inr (w1, k1)" "check_fds proc es w1 k1 = Inr (w', k')"
      using Cons.prems by (auto simp: e bindE_Inr_iff)
    then show ?thesis using assms Cons.IH stays_trans by blast
  next
    case False
    then show ?thesis using Cons by (simp add: e)
  qed
qed

lemma run_body_stays:
  assumes "run_body E (process_of E c) w k = Inr (w', k')"
  shows "stays w w'"
proof (cases "length (portFd w) > 0")
  case True
  then obtain w1 where w1: "build_select_list E w = Inr w1" using assms by (auto simp: run_body_def bindE_Inr_iff)
  then have b: "stays w w1"
    by (auto simp: build_select_list_def bindE_Inr_iff dest!: set_fds_stays) (simp add: stays_def lingers_def)
  obtain n ready k1 where sel: "sys_select E (highsock w1 + 1) (fdset w1) (timeout w1) k = ((n, ready), k1)"
    by (metis prod.exhaust)
  have "stays w1 (w1\<lparr>fdset := ready\<rparr>)" by (simp add: stays_same)
  moreover have "stays (w1\<lparr>fdset := ready\<rparr>) w'"
    using assms True check_fds_stays [OF process_of_stays]
    by (auto simp: run_body_def w1 sel Let_def check_select_list_def bindE_Inr_iff stays_refl split: if_splits)
  ultimately show ?thesis using b stays_trans by blast
qed (use assms in \<open>simp add: run_body_def stays_refl\<close>)

lemma update_lists_stays: "update_lists E es w k = Inr (w', out, k') \<Longrightarrow> stays w w'"
proof (induction es arbitrary: w k out)
  case (Cons e es)
  then show ?case
    by (cases e) (auto simp: bindE_Inr_iff split: option.splits intro: stays_trans [OF set_list_stays(1)])
qed (simp add: stays_refl)

lemma generateStats_stays: "generateStats_round E w k = Inr (w', out, k') \<Longrightarrow> stays w w'"
  by (auto simp: generateStats_round_def Let_def bindE_Inr_iff dest!: update_lists_stays)
    (simp add: stays_def lingers_def)

section \<open>The library\<close>

lemma virtual_stays:
  assumes "wclass w \<noteq> RtcpClass"
  shows "virtual_addSource E i ip port w k = Inr (b, w', k') \<Longrightarrow> stays w w'"
    and "virtual_removeSource E i w k = Inr (w', k') \<Longrightarrow> i \<noteq> 0 \<Longrightarrow> stays w w'"
    and "virtual_addDestination E i d ip port w k = Inr (w', k') \<Longrightarrow> stays w w'"
    and "virtual_removeDestination E i d w k = Inr (w', k') \<Longrightarrow> stays w w'"
  using assms
  by (cases "wclass w"; auto simp: virtual_addSource_def virtual_removeSource_def virtual_addDestination_def
      virtual_removeDestination_def dest: addSource_stays addSource_stats_stays removeSource_stays
      addDestination_stays removeDestination_stays)+

lemma member_class: "manager_ok opn M k \<Longrightarrow> r < next_worker M \<Longrightarrow> wclass (workers M r) \<noteq> RtcpClass"
  using pool_member [OF manager_okD(1), of opn M k r] by (simp add: member_ok_def worker_good_def)

lemma source_nonzero:
  assumes "manager_ok opn M k" and "ifind (srcIdWorker M) i = Some q"
  shows "i \<noteq> 0"
proof -
  obtain r a D where r: "r < next_worker M" "worker_abs (workers M r) i = Some (a, D)"
    by (rule tables_src [OF manager_okD(2) [OF assms(1)] assms(2)])
  have "routes_inv (workers M r)"
    using pool_member [OF manager_okD(1) [OF assms(1)] r(1)]
    by (auto simp: member_ok_def worker_good_def worker_ok_def)
  then show ?thesis using r(2) abs_id_nonzero by blast
qed

lemma getWorker_old:
  "getWorker E ty port M = Inr (q, M1) \<Longrightarrow> r < next_worker M \<Longrightarrow> workers M1 r = workers M r"
  by (auto simp: getWorker_def createWorker_def new_worker_def set_worker_def bindE_Inr_iff
      split: option.splits if_splits)

lemma set_worker_stays: "stays (workers M q) w' \<Longrightarrow> stays (workers M r) (workers (set_worker q w' M) r)"
  by (simp add: set_worker_def stays_refl)

lemma add_stays:
  assumes ok: "manager_ok opn M k" and r: "r < next_worker M"
    and run: "Manager_addSource E ty i ip port M k = Inr (ret, M', k')"
  shows "stays (workers M r) (workers M' r)"
proof -
  obtain q M1 where g: "getWorker E ty port M = Inr (q, M1)" using run by (auto simp: Manager_addSource_def bindE_Inr_iff)
  note old = getWorker_old [OF g r]
  show ?thesis
  proof (cases q)
    case None
    then show ?thesis using run old by (simp add: Manager_addSource_def g stays_refl)
  next
    case (Some s)
    obtain b w k1 where v: "virtual_addSource E i ip port (workers M1 s) k = Inr (b, w, k1)"
      using run by (auto simp: Manager_addSource_def g Some bindE_Inr_iff)
    have M': "workers M' = (workers M1)(s := w)"
      using run by (auto simp: Manager_addSource_def g Some v set_worker_def Let_def split: if_splits)
    show ?thesis
    proof (cases "s = r")
      case True
      then show ?thesis using virtual_stays(1) [OF _ v] member_class [OF ok r] old by (simp add: M')
    qed (simp add: M' old stays_refl)
  qed
qed

lemma change_stays:
  assumes ok: "manager_ok opn M k" and r: "r < next_worker M"
  shows "Manager_removeSource E i M k = Inr (ret, M', k') \<Longrightarrow> stays (workers M r) (workers M' r)"
    and "Manager_addDestination E i d ip port M k = Inr (ret, M', k') \<Longrightarrow> stays (workers M r) (workers M' r)"
    and "Manager_removeDestination E i d M k = Inr (ret, M', k') \<Longrightarrow> stays (workers M r) (workers M' r)"
proof -
  have live: "\<exists>s < next_worker M. ifind (srcIdWorker M) i = Some (Some s) \<and> i \<noteq> 0 \<and>
      wclass (workers M s) \<noteq> RtcpClass" if live: "0 < icount (srcIdWorker M) i"
  proof -
    obtain q where q: "ifind (srcIdWorker M) i = Some q"
      using live unfolding icount_pos by blast
    show ?thesis
      by (rule tables_src [OF manager_okD(2) [OF ok] q])
        (use q source_nonzero [OF ok q] member_class [OF ok] in blast)
  qed
  show "stays (workers M r) (workers M' r)" if run: "Manager_removeSource E i M k = Inr (ret, M', k')"
  proof (cases "0 < icount (srcIdWorker M) i")
    case True
    then obtain s where s: "ifind (srcIdWorker M) i = Some (Some s)" "i \<noteq> 0" "wclass (workers M s) \<noteq> RtcpClass"
      using live by blast
    then obtain w where "virtual_removeSource E i (workers M s) k = Inr (w, k')" "workers M' = (workers M)(s := w)"
      using run True by (auto simp: Manager_removeSource_def um_index_def bindE_Inr_iff set_worker_def)
    then show ?thesis using virtual_stays(2) [OF s(3)] s(2) by (auto simp: stays_refl)
  qed (use run in \<open>simp add: Manager_removeSource_def stays_refl\<close>)
  show "stays (workers M r) (workers M' r)" if run: "Manager_addDestination E i d ip port M k = Inr (ret, M', k')"
  proof (cases "0 < icount (srcIdWorker M) i")
    case True
    then obtain s where s: "ifind (srcIdWorker M) i = Some (Some s)" "wclass (workers M s) \<noteq> RtcpClass"
      using live by blast
    then obtain w where "virtual_addDestination E i d ip port (workers M s) k = Inr (w, k')"
        "workers M' = (workers M)(s := w)"
      using run True by (auto simp: Manager_addDestination_def um_index_def bindE_Inr_iff set_worker_def)
    then show ?thesis using virtual_stays(3) [OF s(2)] by (auto simp: stays_refl)
  qed (use run in \<open>simp add: Manager_addDestination_def stays_refl\<close>)
  show "stays (workers M r) (workers M' r)" if run: "Manager_removeDestination E i d M k = Inr (ret, M', k')"
  proof (cases "0 < icount (srcIdWorker M) i")
    case True
    then obtain s where s: "ifind (srcIdWorker M) i = Some (Some s)" "wclass (workers M s) \<noteq> RtcpClass"
      using live by blast
    then obtain w where "virtual_removeDestination E i d (workers M s) k = Inr (w, k')"
        "workers M' = (workers M)(s := w)"
      using run True by (auto simp: Manager_removeDestination_def um_index_def bindE_Inr_iff set_worker_def)
    then show ?thesis using virtual_stays(4) [OF s(2)] by (auto simp: stays_refl)
  qed (use run in \<open>simp add: Manager_removeDestination_def stays_refl\<close>)
qed

lemma lib_event_stays:
  assumes "lib_event E c n s t" and "manager_ok opn (fst s) (snd s)" and "r < next_worker (fst s)"
  shows "stays (workers (fst s) r) (workers (fst t) r)"
  using assms
proof (induction rule: lib_event.induct)
  case (ev_add i M port ty ip k ret M' k')
  then show ?case using add_stays [of opn M k r] by simp
next
  case (ev_message k m k' M)
  then show ?case by (simp add: handle_message_def stays_refl)
next
  case (ev_packet q M p fd k w' k')
  then show ?case using process_of_stays [OF ev_packet(4)] set_worker_stays by simp
next
  case (ev_round q M k w' k')
  then show ?case using run_body_stays [OF ev_round(3)] set_worker_stays by simp
next
  case (ev_stats q M k w' out k')
  then show ?case using generateStats_stays [OF ev_stats(4)] set_worker_stays by simp
qed (use change_stays [of opn] in \<open>auto\<close>)

lemma lib_step_stays:
  "lib_step E s t \<Longrightarrow> manager_ok opn (fst s) (snd s) \<Longrightarrow> r < next_worker (fst s) \<Longrightarrow>
     stays (workers (fst s) r) (workers (fst t) r)"
  unfolding lib_step_def using lib_event_stays [of E _ _ s t opn r] by blast

text \<open>From a reachable state on, a worker that lingers does so for ever.\<close>

lemma lingers_forever:
  assumes reach: "reachable E k0 M k" and p: "platform_ok E opn"
    and steps: "(lib_step E)\<^sup>*\<^sup>* (M, k) (M', k')"
    and r: "r < next_worker M" and w: "lingers (workers M r)"
  shows "r < next_worker M' \<and> lingers (workers M' r) \<and> working (workers M' r) = working (workers M r)"
proof -
  have "(lib_step E)\<^sup>*\<^sup>* s t \<Longrightarrow> manager_ok opn (fst s) (snd s) \<Longrightarrow>
      manager_ok opn (fst t) (snd t) \<and> fades (fst s) (fst t) \<and>
      (r < next_worker (fst s) \<longrightarrow> stays (workers (fst s) r) (workers (fst t) r))" for s t
  proof (induction rule: rtranclp_induct)
    case (step t u)
    then have ok: "manager_ok opn (fst t) (snd t)" and f: "fades (fst s) (fst t)" by simp_all
    note law = lib_step_law [OF step.hyps(2) ok p]
    have "r < next_worker (fst s) \<Longrightarrow> r < next_worker (fst t)" using f by (simp add: fades_def)
    then have "r < next_worker (fst s) \<longrightarrow> stays (workers (fst s) r) (workers (fst u) r)"
      using lib_step_stays [OF step.hyps(2) ok] step.IH [OF step.prems] stays_trans by blast
    then show ?case using law fades_trans [OF f] by simp
  qed (simp add: fades_refl stays_refl)
  from this [OF steps] reachable_ok [OF reach p] have "fades M M'" "stays (workers M r) (workers M' r)"
    using r by simp_all
  then show ?thesis using r w by (simp add: fades_def stays_def)
qed

section \<open>The packet of a stranger\<close>

lemma stranger_run:
  assumes good: "worker_good w" and p: "platform_ok E opn" and fds: "fds_open opn w k"
    and cls: "wclass w = ForwardClass \<or> wclass w = StatsClass" and fd: "ifind (portFd w) port = Some fd"
    and recv: "sys_recvfrom E fd k = ((ret, buf, sender), k1)"
    and got: "0 \<le> ret \<or> word_of_int ret = (0 :: 32 word)"
    and none: "\<not> has_source (worker_abs w) (packet_key sender port)"
  obtains w' where "process_of E (wclass w) fd w k = Inr (w', k1)" "store w' = store w"
    "worker_abs w' = worker_abs w" "working w' = working w"
proof (cases "wclass w = StatsClass")
  case True
  then have "stats_good w" using good by (simp add: worker_good_iff)
  from stats_miss [OF this platform_okD(1) [OF p] fds fd recv got disjI1 [OF none]] True that
  show thesis unfolding ensures_Inr2 by (auto simp: process_of_def)
next
  case False
  have "worker_ok w" using good by (simp add: worker_good_def)
  from forward_miss [OF this platform_okD(1) [OF p] fds fd recv got none] False cls that
  show thesis unfolding ensures_Inr2 by (auto simp: process_of_def)
qed

lemma reachable_packet:
  assumes "reachable E k0 M k" and "r < next_worker M" "working (workers M r)"
    and "ifind (portFd (workers M r)) port = Some fd"
    and "process_of E (wclass (workers M r)) fd (workers M r) k = Inr (w', k')"
  shows "reachable E k0 (set_worker r w' M) k'"
  using assms(1) step_packet [OF assms(2-5)] unfolding reachable_def by (rule rtranclp.rtrancl_into_rtrancl)

lemma lingers_not_empty: "lingers w \<Longrightarrow> \<not> isEmpty w"
  by (auto simp: lingers_def isEmpty_def)

lemma stranger_lingers:
  assumes good: "worker_good w" and p: "platform_ok E opn" and fds: "fds_open opn w k"
    and fd: "ifind (portFd w) port = Some fd"
    and recv: "sys_recvfrom E fd k = ((ret, buf, sender), k1)" and len: "word_of_int ret \<noteq> (0 :: 32 word)"
    and got: "0 \<le> ret"
    and none: "\<not> has_source (worker_abs w) (packet_key sender port)"
    and cls: "wclass w = ForwardClass \<or> wclass w = StatsClass"
    and run: "process_of E (wclass w) fd w k = Inr (w', k')"
  shows "lingers w'"
proof -
  have ok: "worker_ok w" using good by (auto simp: worker_good_def)
  note inv = worker_okD(1) [OF ok]
  obtain i w1 where g: "getListIdBySocket (packet_key sender port) w = (i, w1)" by fastforce
  have "i = 0" using none by (simp add: has_source_forwarding [OF inv] getListIdBySocket_inv(4) [OF inv g])
  obtain q w2 where h: "getStreamListBySocket (packet_key sender port) w = (q, w2)" by fastforce
  then have l: "lingers w2" using g \<open>i = 0\<close>
    by (auto simp: getStreamListBySocket_def getStreamList_def lingers_def um_index_def split: option.splits)
  have q: "q = None"
    by (rule route_miss [OF inv none]) (use h in simp)
  have "process_forward E fd w k = Inr (w2, k1)" "process_stats E fd w k = Inr (w2, k1)"
    using len got h by (simp_all add: process_forward_def process_stats_def recv Let_def open_port_fdPort [OF ok fd]
        packet_key_def word_gt_0 q)
  then show ?thesis using run cls l by (auto simp: process_of_def)
qed

end
