(* ===== verification/Demo_Runs.thy ===== *)
theory Demo_Runs
  imports System
begin

text \<open>
  One concrete run of the library on the simulated platform: a forwarded source 5 with a
  destination 7, then a statistics source 6 with a destination 8, three datagrams waiting. The
  states are computed from the definitions; the witnesses of the properties are about them.
\<close>

fun run_or :: "'a \<Rightarrow> 'a res \<Rightarrow> 'a" where
  "run_or d (Inl e) = d"
| "run_or d (Inr x) = x"

definition returns :: "int \<Rightarrow> (int \<times> 'a) res \<Rightarrow> bool" where
  "returns n m = (case m of Inl _ \<Rightarrow> False | Inr (r, _) \<Rightarrow> r = n)"

lemma returns_run: "returns n m \<Longrightarrow> m = Inr (n, snd (run_or d m))"
  by (cases m) (auto simp: returns_def)

definition host :: "16 word \<Rightarrow> 32 word \<Rightarrow> sockaddr_in" where
  "host port a = \<lparr>sin_family = AF_INET, sin_port = htons port, sin_addr = a\<rparr>"

text \<open>Descriptors are handed out from 3 on, so the first socket is 3 and the second 4.\<close>

definition demo_start :: sim where
  "demo_start = sim_init\<lparr>sim_in :=
     [(3, [10, 20, 30], host 9999 1), (4, [40, 50], host 9998 1), (3, [60], host 9997 9)]\<rparr>"

definition demo_step :: "(int \<times> manager \<times> sim) res \<Rightarrow> manager \<times> sim" where
  "demo_step m = snd (run_or (0, Manager_new, demo_start) m)"

lemma demo_step_run: "returns n m \<Longrightarrow> m = Inr (n, fst (demo_step m), snd (demo_step m))"
  using returns_run [of n m "(0, Manager_new, demo_start)"] by (simp add: demo_step_def)

definition demo1 :: "manager \<times> sim" where
  "demo1 = demo_step (Manager_addSource sim_env FWD_WORKER_TYPE 5 ''1'' 4000 Manager_new demo_start)"

definition demo2 :: "manager \<times> sim" where
  "demo2 = demo_step (case demo1 of (M, k) \<Rightarrow> Manager_addDestination sim_env 5 7 ''2'' 5000 M k)"

definition demo3 :: "manager \<times> sim" where
  "demo3 = demo_step (case demo2 of (M, k) \<Rightarrow> Manager_addSource sim_env STATS_WORKER_TYPE 6 ''1'' 4001 M k)"

definition demo4 :: "manager \<times> sim" where
  "demo4 = demo_step (case demo3 of (M, k) \<Rightarrow> Manager_addDestination sim_env 6 8 ''3'' 6000 M k)"

abbreviation demo_manager :: manager where "demo_manager \<equiv> fst demo4"
abbreviation demo_state :: sim where "demo_state \<equiv> snd demo4"

lemma demo_run1:
  "Manager_addSource sim_env FWD_WORKER_TYPE 5 ''1'' 4000 Manager_new demo_start =
     Inr (0, fst demo1, snd demo1)"
  unfolding demo1_def by (rule demo_step_run) code_simp

lemma demo_run2:
  "Manager_addDestination sim_env 5 7 ''2'' 5000 (fst demo1) (snd demo1) = Inr (0, fst demo2, snd demo2)"
  proof -
  have "returns 0 (case demo1 of (M, k) \<Rightarrow> Manager_addDestination sim_env 5 7 ''2'' 5000 M k)"
    by code_simp
  from demo_step_run [OF this] show ?thesis by (simp add: demo2_def case_prod_beta)
qed

lemma demo_run3:
  "Manager_addSource sim_env STATS_WORKER_TYPE 6 ''1'' 4001 (fst demo2) (snd demo2) =
     Inr (0, fst demo3, snd demo3)"
  proof -
  have "returns 0 (case demo2 of (M, k) \<Rightarrow> Manager_addSource sim_env STATS_WORKER_TYPE 6 ''1'' 4001 M k)"
    by code_simp
  from demo_step_run [OF this] show ?thesis by (simp add: demo3_def case_prod_beta)
qed

lemma demo_run4:
  "Manager_addDestination sim_env 6 8 ''3'' 6000 (fst demo3) (snd demo3) = Inr (0, fst demo4, snd demo4)"
  proof -
  have "returns 0 (case demo3 of (M, k) \<Rightarrow> Manager_addDestination sim_env 6 8 ''3'' 6000 M k)"
    by code_simp
  from demo_step_run [OF this] show ?thesis by (simp add: demo4_def case_prod_beta)
qed

lemma sim_source_addr:
  "inet_aton sim_env ip = Some x \<Longrightarrow> source_addr sim_env ip port k = host (word_of_int port) x"
  by (simp add: source_addr_def setAddr_def UdpStream_new_def setId_def Let_def host_def sim_env_def zero_addr_def)

lemma demo_hosts:
  "inet_aton sim_env ''1'' = Some 1" "inet_aton sim_env ''2'' = Some 2" "inet_aton sim_env ''3'' = Some 3"
  "inet_aton sim_env ''9'' = Some 9" "inet_aton sim_env [] = None"
  by code_simp+

lemma demo_ports: "valid_port 4000" "valid_port 4001" "valid_port 4002"
  by (simp_all add: valid_port_def)

lemma demo_types:
  "FWD_WORKER_TYPE \<noteq> RTCP_WORKER_TYPE" "STATS_WORKER_TYPE \<noteq> RTCP_WORKER_TYPE"
  by (simp_all add: worker_type_defs)

lemma demo_ok1: "manager_ok sim_open (fst demo1) (snd demo1)"
    "manager_abs (fst demo1) = [5 \<mapsto> (host 4000 1, Map.empty)]"
  using ensuresD [OF Manager_addSource_contract [where i = 5 and ip = "''1''",
      OF manager_ok_new(1) sim_platform_ok demo_types(1) _ _ demo_ports(1)] demo_run1]
  by (simp_all del: prod.collapse add: manager_ok_new(2) sim_source_addr [OF demo_hosts(1)])

lemma demo_ok2: "manager_ok sim_open (fst demo2) (snd demo2)"
    "manager_abs (fst demo2) = [5 \<mapsto> (host 4000 1, [7 \<mapsto> host 5000 2])]"
  using ensuresD [OF Manager_addDestination_contract [OF demo_ok1(1) sim_platform_ok, of 5 "host 4000 1"
      Map.empty 7 "''2''" 5000] demo_run2]
  by (auto simp del: prod.collapse simp: demo_ok1(2) sim_source_addr [OF demo_hosts(2)])

lemma demo_ok3: "manager_ok sim_open (fst demo3) (snd demo3)"
    "manager_abs (fst demo3) = [5 \<mapsto> (host 4000 1, [7 \<mapsto> host 5000 2]), 6 \<mapsto> (host 4001 1, Map.empty)]"
  using ensuresD [OF Manager_addSource_contract [where i = 6 and ip = "''1''",
      OF demo_ok2(1) sim_platform_ok demo_types(2) _ _ demo_ports(2)] demo_run3]
  by (simp_all del: prod.collapse add: demo_ok2(2) sim_source_addr [OF demo_hosts(1)])

lemma demo_ok: "manager_ok sim_open demo_manager demo_state"
    "manager_abs demo_manager = [5 \<mapsto> (host 4000 1, [7 \<mapsto> host 5000 2]), 6 \<mapsto> (host 4001 1, [8 \<mapsto> host 6000 3])]"
  using ensuresD [OF Manager_addDestination_contract [OF demo_ok3(1) sim_platform_ok, of 6 "host 4001 1"
      Map.empty 8 "''3''" 6000] demo_run4]
  by (auto simp del: prod.collapse simp: demo_ok3(2) sim_source_addr [OF demo_hosts(3)])

lemma demo_step1: "lib_step sim_env (Manager_new, demo_start) demo1"
proof -
  have "lib_step sim_env (Manager_new, demo_start) (fst demo1, snd demo1)"
    by (rule step_add [OF _ _ demo_ports(1) demo_types(1) demo_run1]) (simp_all add: manager_ok_new(2))
  then show ?thesis by simp
qed

lemma demo_step2: "lib_step sim_env demo1 demo2"
proof -
  have "lib_step sim_env (fst demo1, snd demo1) (fst demo2, snd demo2)"
    by (rule step_add_dest [OF demo_run2])
  then show ?thesis by simp
qed

lemma demo_step3: "lib_step sim_env demo2 demo3"
proof -
  have "lib_step sim_env (fst demo2, snd demo2) (fst demo3, snd demo3)"
    by (rule step_add [OF _ _ demo_ports(2) demo_types(2) demo_run3]) (simp_all add: demo_ok2(2))
  then show ?thesis by simp
qed

lemma demo_step4: "lib_step sim_env demo3 demo4"
proof -
  have "lib_step sim_env (fst demo3, snd demo3) (fst demo4, snd demo4)"
    by (rule step_add_dest [OF demo_run4])
  then show ?thesis by simp
qed

lemma demo_reachable: "reachable sim_env demo_start demo_manager demo_state"
proof -
  have "(lib_step sim_env)\<^sup>*\<^sup>* (Manager_new, demo_start) demo1"
    using demo_step1 by (rule r_into_rtranclp)
  also have "lib_step sim_env demo1 demo2" by (rule demo_step2)
  also have "lib_step sim_env demo2 demo3" by (rule demo_step3)
  also have "lib_step sim_env demo3 demo4" by (rule demo_step4)
  finally have "(lib_step sim_env)\<^sup>*\<^sup>* (Manager_new, demo_start) demo4" .
  then show ?thesis by (simp add: reachable_def)
qed

text \<open>What the run looks like inside.\<close>

lemma demo_tables:
  "next_worker demo_manager = 2"
  "ifind (srcIdWorker demo_manager) 5 = Some (Some 0)" "ifind (srcIdWorker demo_manager) 6 = Some (Some 1)"
  "wclass (workers demo_manager 0) = ForwardClass" "wclass (workers demo_manager 1) = StatsClass"
  "ifind (portFd (workers demo_manager 0)) 4000 = Some 3"
  "ifind (portFd (workers demo_manager 1)) 4001 = Some 4"
  "working (workers demo_manager 0)" "working (workers demo_manager 1)"
  by code_simp+

lemma demo_receive:
  "sys_recvfrom sim_env 3 demo_state = ((3, [10, 20, 30], host 9999 1),
     demo_state\<lparr>sim_in := [(4, [40, 50], host 9998 1), (3, [60], host 9997 9)]\<rparr>)"
  "sys_recvfrom sim_env 4 demo_state = ((2, [40, 50], host 9998 1),
     demo_state\<lparr>sim_in := [(3, [10, 20, 30], host 9999 1), (3, [60], host 9997 9)]\<rparr>)"
  by code_simp+

lemma demo_member:
  "member_ok sim_open (workers demo_manager 0) demo_state"
  "member_ok sim_open (workers demo_manager 1) demo_state"
  using pool_member [OF manager_okD(1) [OF demo_ok(1)]] by (simp_all add: demo_tables(1))

text \<open>The forwarding worker and the statistics worker of the run.\<close>

abbreviation fwd_worker :: worker where "fwd_worker \<equiv> workers demo_manager 0"
abbreviation stats_worker :: worker where "stats_worker \<equiv> workers demo_manager 1"

lemma demo_fwd:
  "worker_good fwd_worker" "worker_ok fwd_worker" "launched fwd_worker"
  "fds_open sim_open fwd_worker demo_state"
  using demo_member(1) by (simp_all add: member_ok_def worker_good_def)

lemma demo_stats:
  "worker_good stats_worker" "stats_good stats_worker" "launched stats_worker"
  "fds_open sim_open stats_worker demo_state"
  using demo_member(2) demo_tables(5) by (simp_all add: member_ok_def worker_good_def stats_good_def)

lemma demo_views:
  "worker_abs fwd_worker 5 = Some (host 4000 1, [7 \<mapsto> host 5000 2])"
  "worker_abs stats_worker 6 = Some (host 4001 1, [8 \<mapsto> host 6000 3])"
  using demo_ok(2) demo_tables(2,3) by (auto simp: manager_abs_def fun_eq_iff split: if_splits dest: spec [of _ 5] spec [of _ 6])

lemma demo_view_none: "worker_abs fwd_worker i = None" if "i \<noteq> 5"
proof (rule ccontr)
  assume "worker_abs fwd_worker i \<noteq> None"
  then obtain x where x: "worker_abs fwd_worker i = Some x" by auto
  note own = tables_abs [OF manager_okD(2) [OF demo_ok(1)] _ x]
  have "ifind (srcIdWorker demo_manager) i = Some (Some 0)" "manager_abs demo_manager i = Some x"
    using own by (simp_all add: demo_tables(1))
  then show False using that demo_tables(3) by (auto simp: demo_ok(2) split: if_splits)
qed

lemma demo_view: "worker_abs fwd_worker = [5 \<mapsto> (host 4000 1, [7 \<mapsto> host 5000 2])]"
  using demo_views(1) demo_view_none by (auto simp: fun_eq_iff)

text \<open>The first datagram is processed; the next one on its socket comes from a stranger.\<close>

definition demo5 :: "manager \<times> sim" where
  "demo5 = (case demo4 of (M, k) \<Rightarrow>
     case run_or (workers M 0, k) (process_of sim_env (wclass (workers M 0)) 3 (workers M 0) k) of
       (w, k') \<Rightarrow> (set_worker 0 w M, k'))"

lemma demo_run5:
  obtains w where "process_of sim_env (wclass fwd_worker) 3 fwd_worker demo_state = Inr (w, snd demo5)"
    "fst demo5 = set_worker 0 w demo_manager"
proof -
  have "case process_of sim_env (wclass fwd_worker) 3 fwd_worker demo_state of Inl e \<Rightarrow> False | Inr x \<Rightarrow> True"
    by code_simp
  then obtain w k where run: "process_of sim_env (wclass fwd_worker) 3 fwd_worker demo_state = Inr (w, k)"
    by (auto split: sum.splits)
  then have "fst demo5 = set_worker 0 w demo_manager" "snd demo5 = k"
    by (simp_all add: demo5_def case_prod_beta)
  with run that [of w] show thesis by simp
qed

lemma demo_reachable5: "reachable sim_env demo_start (fst demo5) (snd demo5)"
proof -
  obtain w where run: "process_of sim_env (wclass fwd_worker) 3 fwd_worker demo_state = Inr (w, snd demo5)"
      "fst demo5 = set_worker 0 w demo_manager"
    by (rule demo_run5)
  have "lib_step sim_env (demo_manager, demo_state) (set_worker 0 w demo_manager, snd demo5)"
    by (rule step_packet [OF _ demo_tables(8,6) run(1)]) (simp add: demo_tables(1))
  then show ?thesis
    using demo_reachable unfolding reachable_def run(2) by (rule rtranclp.rtrancl_into_rtrancl [rotated])
qed

lemma demo_view5: "worker_abs (workers (fst demo5) 0) = [5 \<mapsto> (host 4000 1, [7 \<mapsto> host 5000 2])]"
proof -
  obtain w where run: "process_of sim_env (wclass fwd_worker) 3 fwd_worker demo_state = Inr (w, snd demo5)"
      "fst demo5 = set_worker 0 w demo_manager"
    by (rule demo_run5)
  have "worker_abs w = worker_abs fwd_worker"
    using withinD [OF process_of_law [OF demo_fwd(1) sim_platform_ok demo_fwd(4) demo_tables(6)] run(1)] by simp
  then show ?thesis by (simp add: run(2) set_worker_def demo_view)
qed

lemma demo_inside5:
  "next_worker (fst demo5) = 2" "wclass (workers (fst demo5) 0) = ForwardClass"
  "ifind (portFd (workers (fst demo5) 0)) 4000 = Some 3"
  "sys_recvfrom sim_env 3 (snd demo5) = ((1, [60], host 9997 9),
     (snd demo5)\<lparr>sim_in := [(4, [40, 50], host 9998 1)]\<rparr>)"
  by code_simp+

end
