(* ===== verification/Traffic.thy ===== *)
theory Traffic
  imports Worker_Loop
begin

text \<open>
  The byte counter of a \<^verbatim>\<open>StatsWorker\<close> under its two users: the packets its thread processes and
  the rounds of its statistics thread, in any order. \<open>traffic E s c rs t\<close>: from state \<open>s\<close> to state
  \<open>t\<close> packets of known sources with \<open>c\<close> bytes in all arrived and the rounds took away the counts \<open>rs\<close>.
\<close>

inductive traffic ::
    "'k env \<Rightarrow> worker \<times> 'k \<Rightarrow> 32 word \<Rightarrow> 32 word list \<Rightarrow> worker \<times> 'k \<Rightarrow> bool"
  for E :: "'k env" and s :: "worker \<times> 'k" where
  traffic_start: "traffic E s 0 [] s"
| traffic_packet: "traffic E s c rs (w, k) \<Longrightarrow> ifind (portFd w) p = Some fd \<Longrightarrow>
    sys_recvfrom E fd k = ((ret, buf, sender), k1) \<Longrightarrow> process_stats E fd w k = Inr (w', k') \<Longrightarrow>
    traffic E s (c + (if has_source (worker_abs w) (packet_key sender p) then word_of_int ret else 0))
      rs (w', k')"
| traffic_round: "traffic E s c rs (w, k) \<Longrightarrow> generateStats_round E w k = Inr (w', out, k') \<Longrightarrow>
    traffic E s c (rs @ [inputBytes w]) (w', k')"

lemma process_stats_counts:
  assumes good: "stats_good w" and p: "platform_ok E opn" and fds: "fds_open opn w k"
    and fd: "ifind (portFd w) q = Some fd" and recv: "sys_recvfrom E fd k = ((ret, buf, sender), k1)"
    and run: "process_stats E fd w k = Inr (w', k')"
  shows "stats_good w'" and "fds_open opn w' k'"
    and "inputBytes w' = inputBytes w +
      (if has_source (worker_abs w) (packet_key sender q) then word_of_int ret else 0)"
proof -
  note os = platform_okD(1) [OF p]
  have got: "0 \<le> ret \<or> word_of_int ret = (0 :: 32 word)"
    using process_failed(2) [OF recv, of w] run by fastforce
  from sp.proc_law [OF good p fds fd] run show "stats_good w'" "fds_open opn w' k'"
    by (simp_all add: op_frame_def)
  show "inputBytes w' = inputBytes w +
      (if has_source (worker_abs w) (packet_key sender q) then word_of_int ret else 0)"
  proof (cases "has_source (worker_abs w) (packet_key sender q) \<and> word_of_int ret \<noteq> (0 :: 32 word)")
    case False
    then have "\<not> has_source (worker_abs w) (packet_key sender q) \<or> word_of_int ret = (0 :: 32 word)"
      by blast
    from stats_miss [OF good os fds fd recv got this] False run show ?thesis by auto
  next
    case True
    then obtain j a D where src: "worker_abs w j = Some (a, D)"
        and key: "sock_addr_cmp a (packet_key sender q)"
      by (auto simp: has_source_def)
    from stats_hit [OF good os fds fd recv conjunct2 [OF True] _ src key] got True run show ?thesis
      by (auto split: if_splits)
  qed
qed

lemma round_resets:
  assumes good: "stats_good w" and p: "platform_ok E opn" and fds: "fds_open opn w k"
    and run: "generateStats_round E w k = Inr (w', out, k')"
  shows "stats_good w'" and "fds_open opn w' k'" and "inputBytes w' = 0"
proof -
  have ok: "worker_ok w" "stats_ok w" using good by (simp_all add: stats_good_def)
  from generateStats_round_ok [OF ok platform_okD(2,1) [OF p] fds platform_okD(3) [OF p]] run
  show "stats_good w'" "fds_open opn w' k'" "inputBytes w' = 0"
    by (simp_all add: stats_good_def op_frame_def)
qed

lemma traffic_balance:
  assumes "traffic E s c rs t" and p: "platform_ok E opn"
    and "stats_good (fst s)" "fds_open opn (fst s) (snd s)"
  shows "stats_good (fst t) \<and> fds_open opn (fst t) (snd t) \<and>
    sum_list rs + inputBytes (fst t) = inputBytes (fst s) + c"
  using assms(1,3,4)
proof (induction rule: traffic.induct)
  case (traffic_packet c rs w k q fd ret buf sender k1 w' k')
  then have "stats_good w" "fds_open opn w k" by simp_all
  from process_stats_counts [OF this(1) p this(2) traffic_packet(2-4)] traffic_packet
  show ?case by (simp add: algebra_simps)
next
  case (traffic_round c rs w k w' out k')
  then have "stats_good w" "fds_open opn w k" by simp_all
  from round_resets [OF this(1) p this(2) traffic_round(2)] traffic_round
  show ?case by (simp add: algebra_simps)
qed simp

end
