(* ===== verification/Rtcp_Inv.thy ===== *)
theory Rtcp_Inv
  imports Worker_Virtual
begin

text \<open>
  The invariant of \<^verbatim>\<open>RtcpWorker\<close>. Its comments put RTP on an even port and RTCP on the next, odd one; under
  that discipline, and with even source identifiers, the tables stay consistent in a shape of their
  own: opening a pair counts the odd port once in \<^verbatim>\<open>add_socket(port)\<close> and once in
  \<^verbatim>\<open>add_socket(port+1)\<close>, and closing the last pair leaves the count -1 at the odd port.
\<close>

section \<open>Two socket tables\<close>

lemma fds_inverse_open:
  assumes "fds_inverse w" and "ifind (portFd w) p = None" and "fd \<notin> worker_fds w"
  shows "fds_inverse (w\<lparr>portFd := iput (portFd w) p fd, fdPort := iput (fdPort w) fd p\<rparr>)"
proof -
  have "ifind (fdPort w) f \<noteq> Some p" for f using assms(1,2) by (force simp: fds_inverse_def)
  moreover have "ifind (portFd w) q \<noteq> Some fd" for q using assms(3) by (auto simp: worker_fds_def)
  ultimately show ?thesis using assms(1) by (auto simp: fds_inverse_def)
qed

lemma fds_inverse_close:
  assumes "fds_inverse w" and "ifind (portFd w) p = Some fd"
  shows "fds_inverse (w\<lparr>portFd := ierase (portFd w) p, fdPort := ierase (fdPort w) fd\<rparr>)"
proof -
  have inv: "ifind (portFd w) q = Some f \<longleftrightarrow> ifind (fdPort w) f = Some q" for q f
    using assms(1) by (simp add: fds_inverse_def)
  have "ifind (portFd w) q = Some fd \<longleftrightarrow> q = p" for q using inv assms(2) by auto
  moreover have "ifind (fdPort w) f = Some p \<longleftrightarrow> f = fd" for f using inv [of p f] assms(2) by auto
  ultimately show ?thesis using assms(1) inv by (auto simp: fds_inverse_def)
qed

lemma fds_inverse_cong:
  "portFd w' = portFd w \<Longrightarrow> fdPort w' = fdPort w \<Longrightarrow> fds_inverse w' = fds_inverse w"
  by (simp add: fds_inverse_def)

lemma fds_unique:
  "fds_inverse w \<Longrightarrow> ifind (portFd w) p = Some fd \<Longrightarrow> ifind (portFd w) q = Some fd \<Longrightarrow> p = q"
  by (simp add: fds_inverse_def)

section \<open>The shape of the socket tables\<close>

definition rtcp_shape :: "worker \<Rightarrow> (int \<Rightarrow> nat) \<Rightarrow> bool" where
  "rtcp_shape w cnt \<longleftrightarrow> fds_inverse w \<and> iwf (portListener w) \<and>
     (\<forall>p. even p \<longrightarrow> listeners w p = int (cnt p) \<and>
       (if cnt p = 0
        then (listeners w (p + 1) = 0 \<or> listeners w (p + 1) = -1) \<and>
          ifind (portFd w) p = None \<and> ifind (portFd w) (p + 1) = None
        else listeners w (p + 1) = int (cnt p) + 1 \<and>
          ifind (portFd w) p \<noteq> None \<and> ifind (portFd w) (p + 1) \<noteq> None))"

lemma rtcp_shape_at:
  assumes "rtcp_shape w cnt" and "even p"
  shows "listeners w p = int (cnt p)"
    and "cnt p = 0 \<Longrightarrow> listeners w (p + 1) = 0 \<or> listeners w (p + 1) = -1"
    and "cnt p = 0 \<Longrightarrow> ifind (portFd w) p = None \<and> ifind (portFd w) (p + 1) = None"
    and "cnt p \<noteq> 0 \<Longrightarrow> listeners w (p + 1) = int (cnt p) + 1"
    and "cnt p \<noteq> 0 \<Longrightarrow> ifind (portFd w) p \<noteq> None \<and> ifind (portFd w) (p + 1) \<noteq> None"
  using assms unfolding rtcp_shape_def by (auto split: if_splits)

lemma rtcp_shape_even:
  assumes "rtcp_shape w cnt" and "\<And>p. even p \<Longrightarrow> cnt' p = cnt p"
  shows "rtcp_shape w cnt'"
  using assms unfolding rtcp_shape_def by simp

lemma rtcp_shape_cong:
  "portFd w' = portFd w \<Longrightarrow> fdPort w' = fdPort w \<Longrightarrow> portListener w' = portListener w \<Longrightarrow>
     rtcp_shape w' cnt = rtcp_shape w cnt"
  by (simp add: rtcp_shape_def fds_inverse_def listeners_def)

text \<open>Changes at one pair of ports \<open>p\<close>, \<open>p + 1\<close> with \<open>p\<close> even leave the other pairs alone.\<close>

lemma rtcp_shape_change:
  assumes shape: "rtcp_shape w cnt" and p: "even p"
    and inv: "fds_inverse w'" "iwf (portListener w')"
    and others: "\<And>q. q \<noteq> p \<Longrightarrow> q \<noteq> p + 1 \<Longrightarrow>
      listeners w' q = listeners w q \<and> ifind (portFd w') q = ifind (portFd w) q"
    and here: "listeners w' p = int n"
      "if n = 0 then (listeners w' (p + 1) = 0 \<or> listeners w' (p + 1) = -1) \<and>
          ifind (portFd w') p = None \<and> ifind (portFd w') (p + 1) = None
       else listeners w' (p + 1) = int n + 1 \<and>
          ifind (portFd w') p \<noteq> None \<and> ifind (portFd w') (p + 1) \<noteq> None"
  shows "rtcp_shape w' (cnt(p := n))"
  unfolding rtcp_shape_def
proof (intro conjI allI impI)
  fix q :: int
  assume q: "even q"
  have q1: "q + 1 \<noteq> p" and q2: "q \<noteq> p + 1" using p q by auto
  show "listeners w' q = int ((cnt(p := n)) q)"
    using here(1) others [of q] rtcp_shape_at(1) [OF shape q] q2 by (cases "q = p") simp_all
  show "if (cnt(p := n)) q = 0
        then (listeners w' (q + 1) = 0 \<or> listeners w' (q + 1) = -1) \<and>
          ifind (portFd w') q = None \<and> ifind (portFd w') (q + 1) = None
        else listeners w' (q + 1) = int ((cnt(p := n)) q) + 1 \<and>
          ifind (portFd w') q \<noteq> None \<and> ifind (portFd w') (q + 1) \<noteq> None"
  proof (cases "q = p")
    case True
    then show ?thesis using here(2) by simp
  next
    case False
    then show ?thesis
      using q2 others [of q] others [of "q + 1"] q1 rtcp_shape_at(2-5) [OF shape q] by simp
  qed
qed (use inv in auto)

section \<open>Opening a pair\<close>

lemma add_socket_rtcp_frame:
  assumes "add_socket_rtcp E port w k = (ret, w', k')"
  shows "management w' = management w" "forwarding w' = forwarding w" "store w' = store w"
    "next_ref w' = next_ref w" "working w' = working w" "launched w' = launched w"
    "worker_id w' = worker_id w" "worker_type w' = worker_type w" "wclass w' = wclass w"
  using assms by (auto simp: add_socket_rtcp_def Let_def split: prod.splits if_splits)

lemma remove_socket_rtcp_frame:
  assumes "remove_socket_rtcp E port w k = (b, w', k')"
  shows "management w' = management w" "forwarding w' = forwarding w" "store w' = store w"
    "next_ref w' = next_ref w" "working w' = working w" "launched w' = launched w"
    "worker_id w' = worker_id w" "worker_type w' = worker_type w" "wclass w' = wclass w"
  using assms by (auto simp: remove_socket_rtcp_def Let_def split: prod.splits if_splits)

lemma iindex_listeners:
  "fst (iindex 0 (portListener w) p) = listeners w p"
  by (simp add: um_index_fst listeners_def)

lemma listeners_pl: "listeners w p = (case ifind (portListener w) p of None \<Rightarrow> 0 | Some n \<Rightarrow> n)"
  by (simp add: listeners_def)

text \<open>A second user of a port.\<close>

lemma add_socket_rtcp_reuse:
  assumes "listeners w p \<noteq> 0"
  shows "add_socket_rtcp E p w k =
    (0, w\<lparr>portListener := iput (portListener w) p (listeners w p + 1)\<rparr>, k)"
proof -
  obtain n where "ifind (portListener w) p = Some n"
    using assms by (auto simp: listeners_def split: option.splits)
  then have "iindex 0 (portListener w) p = (listeners w p, portListener w)"
    by (simp add: um_index_def listeners_def)
  with assms show ?thesis by (simp add: add_socket_rtcp_def Let_def)
qed

lemma add_pair_open:
  assumes shape: "rtcp_shape w cnt" and p: "even p" and c0: "cnt p = 0"
    and os: "sockets_ok E opn" and fds: "fds_open opn w k"
    and s: "add_socket_rtcp E p w k = (ret, w1, k1)" and ret: "ret \<noteq> -1"
  shows "\<exists>fd fd2. opn k1 = insert fd2 (insert fd (opn k)) \<and> fd \<notin> opn k \<and> fd2 \<notin> insert fd (opn k) \<and>
    fds_inverse w1 \<and> iwf (portListener w1) \<and>
    (\<forall>q. listeners w1 q = (if q = p \<or> q = p + 1 then 1 else listeners w q)) \<and>
    (\<forall>q. ifind (portFd w1) q = (if q = p then Some fd else if q = p + 1 then Some fd2
        else ifind (portFd w) q))"
proof -
  note at = rtcp_shape_at [OF shape p]
  obtain pl where pl: "iindex 0 (portListener w) p = (0, pl)"
    using iindex_listeners [of w p] at(1) c0 by (cases "iindex 0 (portListener w) p") simp
  have pl': "pl = snd (iindex 0 (portListener w) p)" by (simp add: pl)
  obtain fd ka where fd: "init_socket E p k = (fd, ka)" by fastforce
  obtain fd2 kb where fd2: "init_socket E (p + 1) ka = (fd2, kb)" by fastforce
  have ok: "fd \<noteq> -1" "fd2 \<noteq> -1" using s ret by (auto simp: add_socket_rtcp_def pl Let_def fd fd2 split: if_splits)
  note o1 = init_socket_ok [OF os fd ok(1)] and o2 = init_socket_ok [OF os fd2 ok(2)]
  let ?w1 = "w\<lparr>portListener := iput (iput pl p 1) (p + 1) 1,
      portFd := iput (iput (portFd w) p fd) (p + 1) fd2, fdPort := iput (iput (fdPort w) fd p) fd2 (p + 1)\<rparr>"
  have w1: "w1 = ?w1" "k1 = kb" using s ok by (auto simp: add_socket_rtcp_def pl Let_def fd fd2)
  have sub: "worker_fds w \<subseteq> opn k" using fds by (simp add: fds_open_subset)
  let ?wa = "w\<lparr>portFd := iput (portFd w) p fd, fdPort := iput (fdPort w) fd p\<rparr>"
  have "fds_inverse ?wa"
    by (rule fds_inverse_open) (use shape at(3) c0 sub o1(2) in \<open>auto simp: rtcp_shape_def\<close>)
  then have "fds_inverse (?wa\<lparr>portFd := iput (portFd ?wa) (p + 1) fd2, fdPort := iput (fdPort ?wa) fd2 (p + 1)\<rparr>)"
    by (rule fds_inverse_open)
      (use at(3) c0 sub o1(3) o2(2) in \<open>auto simp: worker_fds_def split: if_splits\<close>)
  then have "fds_inverse w1" unfolding w1 by (subst fds_inverse_cong) auto
  moreover have "iwf (portListener w1)"
    using shape by (simp add: w1 pl' rtcp_shape_def)
  moreover have "listeners w1 q = (if q = p \<or> q = p + 1 then 1 else listeners w q)" for q
    by (simp add: w1 listeners_pl pl' split: option.splits)
  ultimately show ?thesis
    using o1 o2 by (intro exI [of _ fd] exI [of _ fd2]) (auto simp: w1)
qed

lemma add_pair:
  assumes shape: "rtcp_shape w cnt" and p: "even p" and os: "sockets_ok E opn" and fds: "fds_open opn w k"
    and s1: "add_socket_rtcp E p w k = (ret, w1, k1)" and s2: "add_socket_rtcp E (p + 1) w1 k1 = (ret2, w2, k2)"
    and ret: "ret \<noteq> -1"
  shows "ret2 \<noteq> -1 \<and> rtcp_shape w2 (cnt(p := Suc (cnt p))) \<and> fds_open opn w2 k2 \<and>
    worker_fds w2 - worker_fds w \<subseteq> opn k2 - opn k \<and> opn k \<subseteq> opn k2"
proof (cases "cnt p = 0")
  case False
  note at = rtcp_shape_at [OF shape p]
  have w1: "w1 = w\<lparr>portListener := iput (portListener w) p (int (cnt p) + 1)\<rparr>" "k1 = k"
    using s1 add_socket_rtcp_reuse [of w p E k] at(1) False by auto
  have l1: "listeners w1 (p + 1) = int (cnt p) + 1" using at(4) False by (simp add: w1)
  have n2: "int (cnt p) + 1 + 1 = int (cnt p) + 2" by simp
  have w2: "ret2 = 0" "w2 = w1\<lparr>portListener := iput (portListener w1) (p + 1) (int (cnt p) + 2)\<rparr>" "k2 = k"
    using s2 add_socket_rtcp_reuse [of w1 "p + 1" E k1, unfolded l1 n2] w1(2) by auto
  have "rtcp_shape w2 (cnt(p := Suc (cnt p)))"
    by (rule rtcp_shape_change [OF shape p])
      (use shape at(5) False in \<open>auto simp: w2 w1 rtcp_shape_def fds_inverse_def\<close>)
  then show ?thesis using fds w2 by (simp add: w1 fds_open_def worker_fds_def)
next
  case True
  obtain fd fd2 where op: "opn k1 = insert fd2 (insert fd (opn k))" "fd \<notin> opn k" "fd2 \<notin> insert fd (opn k)"
      "fds_inverse w1" "iwf (portListener w1)"
      and li: "\<And>q. listeners w1 q = (if q = p \<or> q = p + 1 then 1 else listeners w q)"
      and pf: "\<And>q. ifind (portFd w1) q = (if q = p then Some fd else if q = p + 1 then Some fd2
        else ifind (portFd w) q)"
    using add_pair_open [OF shape p True os fds s1 ret] by blast
  have w2: "ret2 = 0" "w2 = w1\<lparr>portListener := iput (portListener w1) (p + 1) 2\<rparr>" "k2 = k1"
    using s2 add_socket_rtcp_reuse [of w1 "p + 1" E k1] li [of "p + 1"] by auto
  have "rtcp_shape w2 (cnt(p := Suc (cnt p)))"
    by (rule rtcp_shape_change [OF shape p])
      (use op(4,5) True li pf in \<open>auto simp: w2 fds_inverse_def\<close>)
  moreover have "fds_open opn w2 k2"
    using fds op(1) by (auto simp: fds_open_def w2 pf split: if_splits)
  moreover have "worker_fds w2 - worker_fds w \<subseteq> opn k2 - opn k"
    using op(1-3) by (auto simp: worker_fds_def w2 pf split: if_splits)
  ultimately show ?thesis using op(1) by (auto simp: w2)
qed

end
