(* ===== verification/Rtcp_Contract.thy ===== *)
theory Rtcp_Contract
  imports Rtcp_Inv Worker_Loop
begin

text \<open>
  The contract of \<^verbatim>\<open>RtcpWorker\<close> under the discipline its comments describe: RTP sources have even
  identifiers and even ports, the RTCP sources are the next ones. \<open>rtcp_ok\<close> holds then between the
  calls, and adding or removing a source acts on both sources of a pair.
\<close>

section \<open>Closing a pair of sockets\<close>

lemma remove_socket_rtcp_keep:
  assumes "listeners w p = n" and "n \<noteq> 1" and "iwf (portListener w)"
  shows "\<exists>pl. remove_socket_rtcp E p w k = (False, w\<lparr>portListener := pl\<rparr>, k) \<and> iwf pl \<and>
    (\<forall>q. listeners (w\<lparr>portListener := pl\<rparr>) q = (if q = p then n - 1 else listeners w q))"
proof -
  obtain m pl where pl: "iindex 0 (portListener w) p = (m, pl)" by fastforce
  have m: "m = n" using iindex_listeners [of w p] assms(1) by (simp add: pl)
  have pl': "pl = snd (iindex 0 (portListener w) p)" by (simp add: pl)
  have "iwf (iput pl p (n - 1))" using assms(3) by (simp add: pl')
  moreover have "listeners (w\<lparr>portListener := iput pl p (n - 1)\<rparr>) q = (if q = p then n - 1 else listeners w q)" for q
    by (simp add: listeners_pl pl' split: option.splits)
  moreover have "remove_socket_rtcp E p w k = (False, w\<lparr>portListener := iput pl p (n - 1)\<rparr>, k)"
    using assms(2) m by (simp add: remove_socket_rtcp_def pl Let_def)
  ultimately show ?thesis by blast
qed

lemma remove_pair_last:
  assumes shape: "rtcp_shape w cnt" and p: "even p" and one: "cnt p = 1"
    and os: "sockets_ok E opn" and fds: "fds_open opn w k"
  shows "\<exists>w1 k1 fd fd2. remove_socket_rtcp E p w k = (True, w1, k1) \<and>
    ifind (portFd w) p = Some fd \<and> ifind (portFd w) (p + 1) = Some fd2 \<and> opn k1 = opn k - {fd, fd2} \<and>
    fds_inverse w1 \<and> iwf (portListener w1) \<and>
    (\<forall>q. listeners w1 q = (if q = p \<or> q = p + 1 then 0 else listeners w q)) \<and>
    (\<forall>q. ifind (portFd w1) q = (if q = p \<or> q = p + 1 then None else ifind (portFd w) q))"
proof -
  note at = rtcp_shape_at [OF shape p]
  obtain fd fd2 where fd: "ifind (portFd w) p = Some fd" "ifind (portFd w) (p + 1) = Some fd2"
    using at(5) one by auto
  have inv: "fds_inverse w" "iwf (portListener w)" using shape by (simp_all add: rtcp_shape_def)
  have ne: "fd \<noteq> fd2" using fds_unique [OF inv(1) fd(1), of "p + 1"] fd(2) by auto
  have l: "ifind (portListener w) p = Some 1"
    using at(1) one by (auto simp: listeners_def split: option.splits)
  have i: "iindex 0 (portListener w) p = (1, portListener w)" by (simp add: um_index_def l)
  have ix: "iindex 0 (portFd w) p = (fd, portFd w)" "iindex 0 (portFd w) (p + 1) = (fd2, portFd w)"
    using fd by (simp_all add: um_index_def)
  define w1 where "w1 = w\<lparr>portFd := ierase (ierase (portFd w) p) (p + 1), fdPort := ierase (ierase (fdPort w) fd) fd2,
      portListener := ierase (ierase (iput (portListener w) p 0) p) (p + 1)\<rparr>"
  have run: "remove_socket_rtcp E p w k = (True, w1, sys_close E fd2 (sys_close E fd k))"
    using fd ne by (simp add: remove_socket_rtcp_def i ix Let_def w1_def)
  let ?wa = "w\<lparr>portFd := ierase (portFd w) p, fdPort := ierase (fdPort w) fd\<rparr>"
  have "fds_inverse ?wa" by (rule fds_inverse_close [OF inv(1) fd(1)])
  then have "fds_inverse (?wa\<lparr>portFd := ierase (portFd ?wa) (p + 1), fdPort := ierase (fdPort ?wa) fd2\<rparr>)"
    by (rule fds_inverse_close) (use fd in simp)
  then have "fds_inverse w1" by (subst fds_inverse_cong) (simp_all add: w1_def)
  moreover have "iwf (portListener w1)" using inv(2) by (simp add: w1_def)
  moreover have "listeners w1 q = (if q = p \<or> q = p + 1 then 0 else listeners w q)" for q
    by (simp add: listeners_pl w1_def)
  moreover have "ifind (portFd w1) q = (if q = p \<or> q = p + 1 then None else ifind (portFd w) q)" for q
    by (simp add: w1_def)
  moreover have "opn (sys_close E fd2 (sys_close E fd k)) = opn k - {fd, fd2}"
    by (auto simp: sockets_ok_close [OF os])
  ultimately show ?thesis using run fd by blast
qed

lemma remove_pair:
  assumes shape: "rtcp_shape w cnt" and p: "even p" and used: "cnt p \<noteq> 0"
    and os: "sockets_ok E opn" and fds: "fds_open opn w k"
    and s1: "remove_socket_rtcp E p w k = (b1, w1, k1)" and s2: "remove_socket_rtcp E (p + 1) w1 k1 = (b2, w2, k2)"
  shows "rtcp_shape w2 (cnt(p := cnt p - 1)) \<and> fds_open opn w2 k2 \<and> worker_fds w2 \<subseteq> worker_fds w \<and>
    opn k - opn k2 \<subseteq> worker_fds w \<and> opn k2 \<subseteq> opn k"
proof (cases "cnt p = 1")
  case True
  obtain fd fd2 where r: "b1" "ifind (portFd w) p = Some fd" "ifind (portFd w) (p + 1) = Some fd2"
      "opn k1 = opn k - {fd, fd2}" "fds_inverse w1" "iwf (portListener w1)"
      and li: "\<And>q. listeners w1 q = (if q = p \<or> q = p + 1 then 0 else listeners w q)"
      and pf: "\<And>q. ifind (portFd w1) q = (if q = p \<or> q = p + 1 then None else ifind (portFd w) q)"
    using remove_pair_last [OF shape p True os fds] s1 by auto
  have "listeners w1 (p + 1) = 0" using li [of "p + 1"] by simp
  from remove_socket_rtcp_keep [OF this _ r(6), of E k1] obtain pl where
    w2: "w2 = w1\<lparr>portListener := pl\<rparr>" "k2 = k1" "iwf pl"
      "\<And>q. listeners w2 q = (if q = p + 1 then -1 else listeners w1 q)"
    using s2 by auto
  have inv: "fds_inverse w" using shape by (simp add: rtcp_shape_def)
  have inv2: "fds_inverse w2" using r(5) by (simp add: w2(1) fds_inverse_def)
  have wf2: "iwf (portListener w2)" using w2(3) by (simp add: w2(1))
  have li2: "listeners w2 q = (if q = p then 0 else if q = p + 1 then -1 else listeners w q)" for q
    by (simp add: w2(4) li)
  have pf2: "ifind (portFd w2) q = (if q = p \<or> q = p + 1 then None else ifind (portFd w) q)" for q
    by (simp add: w2(1) pf)
  have "rtcp_shape w2 (cnt(p := 0))"
    by (rule rtcp_shape_change [OF shape p inv2 wf2]) (simp_all add: li2 pf2)
  moreover have "f \<in> opn k2" if f: "ifind (portFd w2) q = Some f" for q f
  proof -
    have q: "q \<noteq> p" "q \<noteq> p + 1" "ifind (portFd w) q = Some f" using f by (auto simp: pf2 split: if_splits)
    then have "f \<in> opn k" "f \<noteq> fd" "f \<noteq> fd2"
      using fds fds_unique [OF inv r(2)] fds_unique [OF inv r(3)] by (auto simp: fds_open_def)
    then show ?thesis by (simp add: w2(2) r(4))
  qed
  moreover have "worker_fds w2 \<subseteq> worker_fds w" by (auto simp: worker_fds_def w2(1) pf split: if_splits)
  moreover have "{fd, fd2} \<subseteq> worker_fds w" using r(2,3) by (auto simp: worker_fds_def)
  ultimately show ?thesis using True r(4) w2(2) by (auto simp: fds_open_def)
next
  case False
  note at = rtcp_shape_at [OF shape p]
  have inv: "fds_inverse w" "iwf (portListener w)" using shape by (simp_all add: rtcp_shape_def)
  obtain pl where w1: "w1 = w\<lparr>portListener := pl\<rparr>" "k1 = k" "iwf pl"
      "\<And>q. listeners w1 q = (if q = p then int (cnt p) - 1 else listeners w q)"
    using remove_socket_rtcp_keep [OF at(1) _ inv(2), of E k] False s1 by auto
  have l2: "listeners w1 (p + 1) = int (cnt p) + 1" using w1(4) [of "p + 1"] at(4) used by simp
  obtain pl2 where w2: "w2 = w1\<lparr>portListener := pl2\<rparr>" "k2 = k" "iwf pl2"
      "\<And>q. listeners w2 q = (if q = p + 1 then int (cnt p) else listeners w1 q)"
    using remove_socket_rtcp_keep [OF l2, of E k1] used w1 s2 by auto
  have inv2: "fds_inverse w2" using inv(1) by (simp add: w2(1) w1(1) fds_inverse_def)
  have wf2: "iwf (portListener w2)" using w2(3) by (simp add: w2(1))
  have li2: "listeners w2 q = (if q = p then int (cnt p) - 1 else if q = p + 1 then int (cnt p) else listeners w q)" for q
    by (simp add: w2(4) w1(4))
  have pf2: "portFd w2 = portFd w" by (simp add: w2(1) w1(1))
  have n: "int (cnt p - 1) = int (cnt p) - 1" "cnt p - 1 \<noteq> 0" using used False by auto
  have "rtcp_shape w2 (cnt(p := cnt p - 1))"
    by (rule rtcp_shape_change [OF shape p inv2 wf2]) (use n at(5) used in \<open>simp_all add: li2 pf2\<close>)
  then show ?thesis using fds by (simp add: w2 w1 fds_open_def worker_fds_def)
qed

section \<open>Pairs of sources\<close>

definition pair_at :: "(int \<Rightarrow> (sockaddr_in \<times> (int \<Rightarrow> sockaddr_in option)) option) \<Rightarrow> int \<Rightarrow> bool" where
  "pair_at A i \<longleftrightarrow> (case A i of
       None \<Rightarrow> A (i + 1) = None
     | Some (a, D) \<Rightarrow> even (port_of a) \<and> (\<exists>b D'. A (i + 1) = Some (b, D') \<and> port_of b = port_of a + 1))"

definition paired :: "(int \<Rightarrow> (sockaddr_in \<times> (int \<Rightarrow> sockaddr_in option)) option) \<Rightarrow> bool" where
  "paired A \<longleftrightarrow> (\<forall>i. even i \<longrightarrow> pair_at A i)"

lemma paired_change:
  assumes A: "paired A" and i: "even i" and new: "pair_at A' i"
    and others: "\<And>j. j \<noteq> i \<Longrightarrow> j \<noteq> i + 1 \<Longrightarrow> A' j = A j"
  shows "paired A'"
  unfolding paired_def
proof (intro allI impI)
  fix j :: int assume j: "even j"
  show "pair_at A' j"
  proof (cases "j = i")
    case False
    have "j \<noteq> i + 1" "j + 1 \<noteq> i" using j i by auto
    then have "A' j = A j" "A' (j + 1) = A (j + 1)" using others False by simp_all
    moreover have "pair_at A j" using A j by (simp add: paired_def)
    ultimately show ?thesis by (cases "A j") (simp_all add: pair_at_def)
  qed (use new in simp)
qed

lemma paired_add:
  assumes "paired A" and "even i" and "even (port_of a)" and "port_of b = port_of a + 1"
  shows "paired (A(i \<mapsto> (a, D), i + 1 \<mapsto> (b, D')))"
  by (rule paired_change [OF assms(1,2)]) (use assms(3,4) in \<open>simp_all add: pair_at_def\<close>)

lemma paired_remove: "paired A \<Longrightarrow> even i \<Longrightarrow> paired (A(i := None, i + 1 := None))"
  by (erule (1) paired_change) (simp_all add: pair_at_def)

definition rtcp_ok :: "worker \<Rightarrow> bool" where
  "rtcp_ok w \<longleftrightarrow> routes_inv w \<and> rtcp_shape w (n_sources w) \<and> paired (worker_abs w)"

lemma rtcp_ok_new: "rtcp_ok (RtcpWorker_new i)"
proof -
  have "routes_inv (Worker_new RtcpClass i)" using worker_ok_new by (simp add: worker_ok_def)
  then show ?thesis
    by (simp add: rtcp_ok_def RtcpWorker_new_def setWorkerType_def Worker_new_def rtcp_shape_def fds_inverse_def
        listeners_def n_sources_def paired_def pair_at_def worker_abs_def routes_inv_def)
qed

section \<open>Adding a pair\<close>

text \<open>Registering two lists whose objects exist already is the same as creating and registering each.\<close>

lemma register_two:
  assumes "source l = Some u" and "source l2 = Some u2"
    and "new_list l w = (r, w1)" and "new_list l2 w1 = (r2, w2)"
  shows "bindE (addStreamList i (Some r) w2) (addStreamList j (Some r2)) =
    Inr (register j l2 (addr u2) (register i l (addr u) w))"
  using assms by (auto simp: new_list_def addStreamList_def register_def getSourceSockAddr_def getAddr_def)

lemma fresh_source_touch:
  assumes "fresh_source w i l u" and "management w' = management w" "forwarding w' = forwarding w"
    "store w' = store w" "next_ref w' = next_ref w"
  shows "fresh_source w' i l u"
  using assms routes_inv_frame [of w' w] by (simp add: fresh_source_def)

lemma fresh_second:
  assumes f: "fresh_source w i l u" and g: "fresh_source w j l2 u2" and ij: "i \<noteq> j"
    and ne: "\<not> sock_addr_cmp (addr u) (addr u2)"
  shows "fresh_source (register i l (addr u) w) j l2 u2"
  using g ij ne register_inv [OF f] by (auto simp: fresh_source_def register_def)

lemma bindE_assoc: "bindE (bindE m f) g = bindE m (\<lambda>x. bindE (f x) g)"
  by (cases m) simp_all

lemma addSource_rtcp_contract:
  assumes ok: "rtcp_ok w" and os: "sockets_ok E opn" and fds: "fds_open opn w k"
    and i: "even i" "i \<noteq> 0" "worker_abs w i = None" and port: "even port" "valid_port port" "valid_port (port + 1)"
  shows "\<exists>added w' k' b. addSource_rtcp E i ip port w k = Inr (added, w', k') \<and>
    (if added then rtcp_ok w' \<and> fds_open opn w' k' \<and> port_of b = port + 1 \<and>
        worker_abs w' = (worker_abs w)(i \<mapsto> (source_addr E ip port k, Map.empty), i + 1 \<mapsto> (b, Map.empty))
     else worker_abs w' = worker_abs w)"
proof -
  define u where "u = setAddr E ip port (setId i (UdpStream_new E 0 k))"
  define u2 where "u2 = setAddr E ip (port + 1) (setId (i + 1) (UdpStream_new E 1 k))"
  define l where "l = setSource u (setListId i StreamList_new)"
  define l2 where "l2 = setSource u2 (setListId (i + 1) StreamList_new)"
  have inv: "routes_inv w" and shape: "rtcp_shape w (n_sources w)" and pr: "paired (worker_abs w)"
    using ok by (simp_all add: rtcp_ok_def)
  have u: "addr u = source_addr E ip port k" "getId u = i" "source_port u = port"
    by (simp_all add: u_def source_port_setAddr [OF port(2)])
  have u2: "getId u2 = i + 1" "source_port u2 = port + 1"
    by (simp_all add: u2_def source_port_setAddr [OF port(3)])
  have ports: "port_of (addr u) = port" "port_of (addr u2) = port + 1"
    using u(3) u2(2) by (simp_all add: source_port_of)
  then have ne: "\<not> sock_addr_cmp (addr u) (addr u2)"
    by (auto simp: sock_addr_cmp_iff port_of_def)
  have l: "source l = Some u" "listId l = i" "dest_ok l" "dest_map l = Map.empty"
    and l2: "source l2 = Some u2" "listId l2 = i + 1" "dest_ok l2" "dest_map l2 = Map.empty"
    by (simp_all add: l_def l2_def setSource_def setListId_def StreamList_new_def clear_def dest_ok_def dest_map_def)
  obtain j w1 where g1: "getListIdBySocket (addr u) w = (j, w1)" by fastforce
  obtain j2 w2 where g2: "getListIdBySocket (addr u2) w1 = (j2, w2)" by fastforce
  note k1 = getListIdBySocket_inv [OF inv g1]
  note k2 = getListIdBySocket_inv [OF k1(1) g2]
  obtain f1 where w1: "w1 = w\<lparr>forwarding := f1\<rparr>" using k1(6) by blast
  obtain f2 where w2': "w2 = w1\<lparr>forwarding := f2\<rparr>" using k2(6) by blast
  have w2: "w2 = w\<lparr>forwarding := f2\<rparr>" by (simp add: w2' w1)
  have run0: "addSource_rtcp E i ip port w k =
      (if j \<noteq> 0 then Inr (False, w1, k) else if j2 \<noteq> 0 then Inr (False, w2, k)
       else case add_socket_rtcp E port w2 k of (ret, w3, k1) \<Rightarrow>
         case add_socket_rtcp E (port + 1) w3 k1 of (ret2, w4, k2) \<Rightarrow>
           if ret \<noteq> -1 \<and> ret2 \<noteq> -1 then
             (case new_list l w4 of (r, w5) \<Rightarrow> case new_list l2 w5 of (r2, w6) \<Rightarrow>
               bindE (bindE (addStreamList i (Some r) w6) (addStreamList (i + 1) (Some r2))) (\<lambda>w8. Inr (True, w8, k2)))
           else Inr (False, w4, k2))"
    unfolding addSource_rtcp_def Let_def u_def [symmetric] u2_def [symmetric] l_def [symmetric] l2_def [symmetric]
    by (simp add: getAddr_def g1 g2 split_def bindE_assoc cong: if_cong)
  have abs2: "worker_abs w1 = worker_abs w" "worker_abs w2 = worker_abs w" using k1(2) k2(2) by simp_all
  show ?thesis
  proof (cases "j = 0 \<and> j2 = 0")
    case False
    then show ?thesis using run0 abs2 by auto
  next
    case True
    obtain ret w3 ka where s1: "add_socket_rtcp E port w2 k = (ret, w3, ka)" by (metis prod_cases3)
    obtain ret2 w4 kb where s2: "add_socket_rtcp E (port + 1) w3 ka = (ret2, w4, kb)" by (metis prod_cases3)
    note fr1 = add_socket_rtcp_frame [OF s1] and fr2 = add_socket_rtcp_frame [OF s2]
    have fr: "management w4 = management w2" "forwarding w4 = forwarding w2" "store w4 = store w2"
        "next_ref w4 = next_ref w2" by (simp_all add: fr1 fr2)
    note frame = routes_inv_frame [OF fr]
    have "\<not> (ret \<noteq> -1 \<and> ret2 \<noteq> -1) \<Longrightarrow> ?thesis"
      using True run0 frame(2) abs2 by (auto simp: s1 s2)
    moreover have ?thesis if rets: "ret \<noteq> -1"
    proof -
      have shape2: "rtcp_shape w2 (n_sources w)" using shape by (subst rtcp_shape_cong [of w2 w]) (simp_all add: w2)
      have fds2: "fds_open opn w2 k" using fds by (simp add: w2 fds_open_def)
      note res = add_pair [OF shape2 port(1) os fds2 s1 s2 rets]
      have fwd: "afind (forwarding w2) (addr u) = Some m \<Longrightarrow> m = 0" "afind (forwarding w2) (addr u2) = Some m \<Longrightarrow> m = 0" for m
        using True k1(4) k2(4) k1(5) [of "addr u"] k2(5) [of "addr u"] k2(5) [of "addr u2"]
        by (auto split: option.splits if_splits)
      have "pair_at (worker_abs w) i" using pr i(1) by (simp add: paired_def)
      then have a2: "worker_abs w (i + 1) = None" using i(3) by (simp add: pair_at_def)
      have i1: "i + 1 \<noteq> 0" using i(1) by presburger
      have "ifind (management w2) i = None" "ifind (management w2) (i + 1) = None"
        using fresh_id [OF inv i(2,3)] fresh_id [OF inv i1 a2] by (simp_all add: w2)
      then have fu: "fresh_source w2 i l u" "fresh_source w2 (i + 1) l2 u2"
        using k2(1) i(2) i1 fwd l l2 u(2) u2(1) by (auto simp: fresh_source_def)
      have f4: "fresh_source w4 i l u" "fresh_source w4 (i + 1) l2 u2"
        using fu by (auto intro: fresh_source_touch simp: fr)
      note f5 = fresh_second [OF f4 _ ne, simplified]
      define w7 where "w7 = register (i + 1) l2 (addr u2) (register i l (addr u) w4)"
      obtain r w5 where n1: "new_list l w4 = (r, w5)" by fastforce
      obtain r2 w6 where n2: "new_list l2 w5 = (r2, w6)" by fastforce
      have run: "addSource_rtcp E i ip port w k = Inr (True, w7, kb)"
        using True run0 rets res by (simp add: s1 s2 n1 n2 register_two [OF l(1) l2(1) n1 n2] w7_def)
      have abs: "worker_abs w7 = (worker_abs w)(i \<mapsto> (addr u, Map.empty), i + 1 \<mapsto> (addr u2, Map.empty))"
        by (simp add: w7_def register_abs [OF f5] register_abs [OF f4(1)] l(4) l2(4) frame(2) abs2)
      have tabs: "portFd w7 = portFd w4" "fdPort w7 = fdPort w4" "portListener w7 = portListener w4"
        by (simp_all add: w7_def register_def)
      have n7: "n_sources w7 = (n_sources w)(port := Suc (n_sources w port), port + 1 := Suc (n_sources w (port + 1)))"
        by (simp add: w7_def register_n_sources [OF f5] register_n_sources [OF f4(1)] u(3) u2(2) frame(3) k1(3) k2(3))
      have "n_sources w7 q = ((n_sources w)(port := Suc (n_sources w port))) q" if "even q" for q
        using that port(1) by (auto simp: n7)
      then have "rtcp_shape w4 (n_sources w7)" using rtcp_shape_even [OF conjunct1 [OF conjunct2 [OF res]]] by blast
      then have "rtcp_shape w7 (n_sources w7)" by (simp only: rtcp_shape_cong [OF tabs])
      moreover have "routes_inv w7" unfolding w7_def by (rule register_inv [OF f5])
      moreover have "paired (worker_abs w7)"
        unfolding abs by (rule paired_add [OF pr i(1)]) (use port(1) in \<open>simp_all add: ports\<close>)
      ultimately have "rtcp_ok w7" by (simp add: rtcp_ok_def)
      moreover have "fds_open opn w7 kb" using res by (simp add: fds_open_def tabs)
      ultimately show ?thesis using run abs ports u(1) by auto
    qed
    ultimately show ?thesis by blast
  qed
qed

section \<open>Removing a pair\<close>

lemma paired_entries:
  assumes ok: "rtcp_ok w" and i: "even i" and src: "worker_abs w i = Some (a, D)"
  obtains b D' where "worker_abs w (i + 1) = Some (b, D')" "port_of b = port_of a + 1" "even (port_of a)"
proof -
  have "pair_at (worker_abs w) i" using ok i by (simp add: rtcp_ok_def paired_def)
  then show thesis using src that by (auto simp: pair_at_def)
qed

lemma removeSource_rtcp_contract:
  assumes ok: "rtcp_ok w" and os: "sockets_ok E opn" and fds: "fds_open opn w k"
    and i: "even i" and src: "worker_abs w i = Some (a, D)"
  shows "\<exists>w' k'. removeSource_rtcp E i w k = Inr (w', k') \<and> rtcp_ok w' \<and> fds_open opn w' k' \<and>
    worker_abs w' = (worker_abs w)(i := None, i + 1 := None) \<and> worker_fds w' \<subseteq> worker_fds w"
proof -
  have inv: "routes_inv w" and shape: "rtcp_shape w (n_sources w)" and pr: "paired (worker_abs w)"
    using ok by (simp_all add: rtcp_ok_def)
  obtain b D' where src2: "worker_abs w (i + 1) = Some (b, D')" "port_of b = port_of a + 1" "even (port_of a)"
    by (rule paired_entries [OF ok i src])
  obtain r u where e: "source_entry w i r u" and u: "addr u = a"
      and g: "getStreamList i w = (Some r, w)" and su: "source (store w r) = Some u"
    by (rule entry_of_abs [OF src])
  obtain r2 u2 where e2: "source_entry w (i + 1) r2 u2" and u2: "addr u2 = b" and su2: "source (store w r2) = Some u2"
    by (rule entry_of_abs [OF src2(1)])
  define p where "p = port_of a"
  have sp: "source_port u = p" "source_port u2 = p + 1" by (simp_all add: source_port_of u u2 src2(2) p_def)
  obtain b1 w1 k1 where s1: "remove_socket_rtcp E p w k = (b1, w1, k1)" by (metis prod_cases3)
  obtain b2 w2 k2 where s2: "remove_socket_rtcp E (p + 1) w1 k1 = (b2, w2, k2)" by (metis prod_cases3)
  note fr1 = remove_socket_rtcp_frame [OF s1] and fr2 = remove_socket_rtcp_frame [OF s2]
  have fr: "management w2 = management w" "forwarding w2 = forwarding w" "store w2 = store w"
      "next_ref w2 = next_ref w" by (simp_all add: fr1 fr2)
  note frame = routes_inv_frame [OF fr]
  have g2: "getStreamList (i + 1) w1 = (Some r2, w1)"
    using e2 by (simp add: getStreamList_live source_entry_def fr1)
  have inv2: "routes_inv w2" using inv by (simp add: frame)
  have en: "source_entry w2 i r u" "source_entry w2 (i + 1) r2 u2" using e e2 by (simp_all add: source_entry_def fr)
  let ?w3 = "unregister i a w2"
  have en3: "source_entry ?w3 (i + 1) r2 u2" using en(2) by (simp add: unregister_entry)
  have inv3: "routes_inv ?w3" using unregister_inv [OF inv2 en(1)] u by simp
  define w' where "w' = unregister (i + 1) b ?w3"
  have run: "removeSource_rtcp E i w k = Inr (w', k2)"
    using removeStreamList_eq [OF en(1)] removeStreamList_eq [OF en3] u u2 su su2 sp s1 s2
    by (simp add: removeSource_rtcp_def g g2 getSourcePort_def getAddr_def source_port_def w'_def fr1)
  have used: "n_sources w p \<noteq> 0" using unregister_n_sources(1) [OF inv e] sp by simp
  note res = remove_pair [OF shape src2(3) [folded p_def] used os fds s1 s2]
  have abs: "worker_abs w' = (worker_abs w)(i := None, i + 1 := None)"
    by (simp add: w'_def unregister_abs frame)
  have tabs: "portFd w' = portFd w2" "fdPort w' = fdPort w2" "portListener w' = portListener w2"
    by (simp_all add: w'_def unregister_def)
  have n': "n_sources w' = (n_sources w)(p := n_sources w p - 1, p + 1 := n_sources w (p + 1) - 1)"
    using unregister_n_sources(2) [OF inv2 en(1), of a] unregister_n_sources(2) [OF inv3 en3, of b]
    by (simp add: w'_def sp frame)
  have "n_sources w' q = ((n_sources w)(p := n_sources w p - 1)) q" if "even q" for q
    using that src2(3) by (auto simp: n' p_def)
  then have "rtcp_shape w2 (n_sources w')" using rtcp_shape_even [OF conjunct1 [OF res]] by blast
  then have "rtcp_shape w' (n_sources w')" by (simp only: rtcp_shape_cong [OF tabs])
  moreover have "routes_inv w'" unfolding w'_def using unregister_inv [OF inv3 en3] u2 by simp
  moreover have "paired (worker_abs w')" unfolding abs by (rule paired_remove [OF pr i])
  ultimately have "rtcp_ok w'" by (simp add: rtcp_ok_def)
  then show ?thesis using run abs res by (simp add: fds_open_def worker_fds_def tabs)
qed

section \<open>Destinations of a pair\<close>

lemma paired_same_addr:
  assumes "paired A" and same: "\<And>j. map_option fst (A' j) = map_option fst (A j)"
  shows "paired A'"
  unfolding paired_def
proof (intro allI impI)
  fix i :: int assume "even i"
  then have p: "pair_at A i" using assms(1) by (simp add: paired_def)
  show "pair_at A' i"
    using p same [of i] same [of "i + 1"]
    by (cases "A i"; cases "A' i"; cases "A (i + 1)"; cases "A' (i + 1)") (auto simp: pair_at_def)
qed

lemma rtcp_set_list:
  assumes ok: "rtcp_ok w" and e: "source_entry w i r u"
    and l: "source l = source (store w r)" "listId l = listId (store w r)" "dest_ok l"
  shows "rtcp_ok (set_list r l w)"
    and "worker_abs (set_list r l w) = (worker_abs w)(i \<mapsto> (addr u, dest_map l))"
    and "source_entry (set_list r l w) j s v = source_entry w j s v"
    and "addStreamList i (Some r) (set_list r l w) = Inr (set_list r l w)"
proof -
  have inv: "routes_inv w" "rtcp_shape w (n_sources w)" "paired (worker_abs w)" using ok by (simp_all add: rtcp_ok_def)
  note res = set_list_inv [OF inv(1) e l]
  have tabs: "portFd (set_list r l w) = portFd w" "fdPort (set_list r l w) = fdPort w"
      "portListener (set_list r l w) = portListener w" by (simp_all add: set_list_def)
  have "paired (worker_abs (set_list r l w))"
    by (rule paired_same_addr [OF inv(3)]) (use e in \<open>auto simp: res(2) worker_abs_def source_entry_def\<close>)
  then show "rtcp_ok (set_list r l w)"
    using inv(2) res(1) by (simp add: rtcp_ok_def res(3) rtcp_shape_cong [OF tabs])
  show "worker_abs (set_list r l w) = (worker_abs w)(i \<mapsto> (addr u, dest_map l))" by (rule res(2))
  show "source_entry (set_list r l w) j s v = source_entry w j s v" by (rule res(4))
  have "source_entry (set_list r l w) i r u" using e res(4) by simp
  then show "addStreamList i (Some r) (set_list r l w) = Inr (set_list r l w)"
    by (rule addStreamList_again [OF res(1)])
qed

text \<open>The two lists of a pair are different objects.\<close>

lemma entries_differ:
  "routes_inv w \<Longrightarrow> source_entry w i r u \<Longrightarrow> source_entry w j s v \<Longrightarrow> i \<noteq> j \<Longrightarrow> r \<noteq> s"
  unfolding routes_inv_def source_entry_def by blast

lemma add_list:
  assumes "routes_inv w" and "source_entry w i r u" and "addDestination_list v (store w r) = (added, l)"
  shows "source l = source (store w r)" "listId l = listId (store w r)" "dest_ok l"
    "added \<longleftrightarrow> dest_map (store w r) (getId v) = None"
    "dest_map l = (if added then (dest_map (store w r))(getId v \<mapsto> addr v) else dest_map (store w r))"
proof -
  show "source l = source (store w r)" "listId l = listId (store w r)"
    using assms(3) by (auto simp: addDestination_list_def split: if_splits)
  show "dest_ok l" using dl.add_ok [OF entry_dest_ok [OF assms(1,2)], of v] assms(3) by simp
  show a: "added \<longleftrightarrow> dest_map (store w r) (getId v) = None"
    using assms(3) dest_map_None [of "store w r" "getId v"] by (auto simp: addDestination_list_def split: if_splits)
  show "dest_map l = (if added then (dest_map (store w r))(getId v \<mapsto> addr v) else dest_map (store w r))"
    using dl.look_add [of v "store w r"] assms(3) a by (auto simp: fun_eq_iff getAddr_def dest_map_None [symmetric])
qed

lemma addDestination_rtcp_contract:
  assumes ok: "rtcp_ok w" and i: "even i" and src: "worker_abs w i = Some (a, D)" "worker_abs w (i + 1) = Some (b, D')"
  shows "\<exists>w' y. addDestination_rtcp E i d ip port w k = Inr (w', k) \<and> rtcp_ok w' \<and>
    worker_abs w' = (worker_abs w)(
      i \<mapsto> (a, if D d = None then D(d \<mapsto> source_addr E ip port k) else D),
      i + 1 \<mapsto> (b, if D d = None \<and> D' (d + 1) = None then D'(d + 1 \<mapsto> y) else D'))"
proof -
  define v where "v = setAddr E ip port (setId d (UdpStream_new E 0 k))"
  define v2 where "v2 = setAddr E ip (port + 1) (setId (d + 1) (UdpStream_new E 1 k))"
  have v: "getId v = d" "addr v = source_addr E ip port k" "getId v2 = d + 1" by (simp_all add: v_def v2_def)
  have inv: "routes_inv w" using ok by (simp add: rtcp_ok_def)
  obtain r u where e: "source_entry w i r u" and u: "addr u = a" and D: "dest_map (store w r) = D"
      and g: "getStreamList i w = (Some r, w)" by (rule entry_of_abs [OF src(1)])
  obtain r2 u2 where e2: "source_entry w (i + 1) r2 u2" and u2: "addr u2 = b" and D2: "dest_map (store w r2) = D'"
      and g2: "getStreamList (i + 1) w = (Some r2, w)" by (rule entry_of_abs [OF src(2)])
  have rr: "r \<noteq> r2" by (rule entries_differ [OF inv e e2]) simp
  obtain added l where al: "addDestination_list v (store w r) = (added, l)" by fastforce
  note L = add_list [OF inv e al]
  let ?w3 = "set_list r l w"
  note W3 = rtcp_set_list [OF ok e L(1-3)]
  have st: "store ?w3 r2 = store w r2" using rr by (simp add: set_list_def)
  have abs3: "worker_abs ?w3 = (worker_abs w)(i \<mapsto> (a, if D d = None then D(d \<mapsto> source_addr E ip port k) else D))"
    using L(4,5) by (simp add: W3(2) u D v)
  show ?thesis
  proof (cases added)
    case False
    then have "addDestination_rtcp E i d ip port w k = Inr (?w3, k)"
      by (simp add: addDestination_rtcp_def Let_def v_def [symmetric] v2_def [symmetric] g g2 al)
    moreover have "D d \<noteq> None" using False L(4) by (simp add: D v)
    ultimately show ?thesis using W3(1) abs3 src(2) by (auto simp: fun_upd_idem)
  next
    case True
    obtain added2 l2 where al2: "addDestination_list v2 (store w r2) = (added2, l2)" by fastforce
    have e3: "source_entry ?w3 (i + 1) r2 u2" using e2 W3(3) by simp
    have inv3: "routes_inv ?w3" using W3(1) by (simp add: rtcp_ok_def)
    note L2 = add_list [OF inv3 e3 al2 [folded st]]
    let ?w4 = "set_list r2 l2 ?w3"
    note W4 = rtcp_set_list [OF W3(1) e3 L2(1-3)]
    have "addStreamList i (Some r) ?w4 = Inr ?w4"
      by (rule addStreamList_again) (use W4(1) e W4(3) W3(3) in \<open>simp_all add: rtcp_ok_def\<close>)
    then have "addDestination_rtcp E i d ip port w k = Inr (?w4, k)"
      using True W4(4) unfolding addDestination_rtcp_def Let_def v_def [symmetric] v2_def [symmetric]
      by (simp add: g g2 al al2 st)
    moreover have "D d = None" using True L(4) by (simp add: D v)
    ultimately show ?thesis using W4(1,2) L2(4,5)
      by (intro exI [of _ ?w4] exI [of _ "addr v2"]) (simp add: abs3 st D2 v u2)
  qed
qed

lemma removeDestination_rtcp_contract:
  assumes ok: "rtcp_ok w" and i: "even i" and src: "worker_abs w i = Some (a, D)" "worker_abs w (i + 1) = Some (b, D')"
  shows "\<exists>w'. removeDestination_rtcp E i d w k = Inr (w', k) \<and> rtcp_ok w' \<and>
    worker_abs w' = (if D d \<noteq> None \<and> D' (d + 1) \<noteq> None
      then (worker_abs w)(i \<mapsto> (a, D(d := None)), i + 1 \<mapsto> (b, D'(d + 1 := None))) else worker_abs w)"
proof -
  have inv: "routes_inv w" using ok by (simp add: rtcp_ok_def)
  obtain r u where e: "source_entry w i r u" and u: "addr u = a" and D: "dest_map (store w r) = D"
      and g: "getStreamList i w = (Some r, w)" by (rule entry_of_abs [OF src(1)])
  obtain r2 u2 where e2: "source_entry w (i + 1) r2 u2" and u2: "addr u2 = b" and D2: "dest_map (store w r2) = D'"
      and g2: "getStreamList (i + 1) w = (Some r2, w)" by (rule entry_of_abs [OF src(2)])
  have rr: "r \<noteq> r2" by (rule entries_differ [OF inv e e2]) simp
  have ex: "existDestination d (store w r) \<longleftrightarrow> D d \<noteq> None" "existDestination (d + 1) (store w r2) \<longleftrightarrow> D' (d + 1) \<noteq> None"
    using dest_map_None [of "store w r" d] dest_map_None [of "store w r2" "d + 1"] by (auto simp: D D2)
  show ?thesis
  proof (cases "D d \<noteq> None \<and> D' (d + 1) \<noteq> None")
    case False
    then have "removeDestination_rtcp E i d w k = Inr (w, k)"
      using ex by (auto simp: removeDestination_rtcp_def g g2)
    then show ?thesis using False ok by (metis (no_types))
  next
    case True
    obtain l where l: "remDestination d (store w r) = Inr (True, l)" "dest_ok l"
        "dest_map l = (dest_map (store w r))(d := None)"
      using dl.rem_present [OF entry_dest_ok [OF inv e], of d] ex True by blast
    have keep: "source l = source (store w r)" "listId l = listId (store w r)"
      using l(1) by (auto simp: remDestination_eq erase_it_def split: if_splits)
    let ?w3 = "set_list r l w"
    note W3 = rtcp_set_list [OF ok e keep l(2)]
    have st: "store ?w3 r2 = store w r2" using rr by (simp add: set_list_def)
    obtain l2 where l2: "remDestination (d + 1) (store w r2) = Inr (True, l2)" "dest_ok l2"
        "dest_map l2 = (dest_map (store w r2))(d + 1 := None)"
      using dl.rem_present [OF entry_dest_ok [OF inv e2], of "d + 1"] ex True by blast
    have keep2: "source l2 = source (store ?w3 r2)" "listId l2 = listId (store ?w3 r2)"
      using l2(1) by (auto simp: st remDestination_eq erase_it_def split: if_splits)
    have e3: "source_entry ?w3 (i + 1) r2 u2" using e2 W3(3) by simp
    let ?w4 = "set_list r2 l2 ?w3"
    note W4 = rtcp_set_list [OF W3(1) e3 keep2 l2(2)]
    have "addStreamList i (Some r) ?w4 = Inr ?w4"
      by (rule addStreamList_again) (use W4(1) e W4(3) W3(3) in \<open>simp_all add: rtcp_ok_def\<close>)
    then have "removeDestination_rtcp E i d w k = Inr (?w4, k)"
      using True ex W4(4) l(1) l2(1) by (simp add: removeDestination_rtcp_def g g2 st)
    moreover have "worker_abs ?w4 = (worker_abs w)(i \<mapsto> (a, D(d := None)), i + 1 \<mapsto> (b, D'(d + 1 := None)))"
      by (simp add: W4(2) W3(2) u u2 l(3) l2(3) D D2)
    ultimately show ?thesis using W4(1) True by auto
  qed
qed

section \<open>The packet path and the thread\<close>

text \<open>
  \<^verbatim>\<open>RtcpWorker\<close> inherits \<^verbatim>\<open>process\<close> and the select loop. Both interfaces hold of its own invariant, so the
  lemmas on packets and on the thread of a forwarding worker are those of an RTCP worker.
\<close>

interpretation rt: packet_tables rtcp_ok
proof unfold_locales
  fix w w' :: worker
  assume ok: "rtcp_ok w"
  then show "routes_inv w" "fds_inverse w" by (simp_all add: rtcp_ok_def rtcp_shape_def)
  assume "routes_inv w'" "n_sources w' = n_sources w" "worker_abs w' = worker_abs w"
    "portFd w' = portFd w" "fdPort w' = fdPort w" "portListener w' = portListener w"
  then show "rtcp_ok w'" using ok by (simp add: rtcp_ok_def rtcp_shape_cong [of w' w])
qed

interpretation rp: packet_processor rtcp_ok recv_errs process_forward
proof unfold_locales
  fix w E opn p fd fs h t and k :: 'k
  show "rtcp_ok w \<Longrightarrow> iwf (portFd w)" by (simp add: rtcp_ok_def rtcp_shape_def fds_inverse_def)
  show "rtcp_ok w \<Longrightarrow> rtcp_ok (set_select fs h t w)"
  proof -
    have same: "routes_inv (set_select fs h t w) = routes_inv w"
        "worker_abs (set_select fs h t w) = worker_abs w" "n_sources (set_select fs h t w) = n_sources w"
      by (rule routes_inv_frame; simp add: set_select_def)+
    assume ok: "rtcp_ok w"
    then have "routes_inv (set_select fs h t w)" by (simp add: same rtcp_ok_def)
    then show ?thesis by (rule rt.good_tables [OF ok]) (simp_all add: same, simp_all add: set_select_def)
  qed
  assume ok: "rtcp_ok w" and pl: "platform_ok (E :: 'k env) opn" and fds: "fds_open opn w k"
    and fd: "ifind (portFd w) p = Some fd"
  have "within (recv_errs E) (process_forward E fd w k) (\<lambda>(w', k'). rtcp_ok w' \<and> op_frame opn w k w' k' \<and>
      worker_abs w' = worker_abs w \<and> working w' = working w)"
    by (rule rt.forward_any [OF ok platform_okD(1) [OF pl] fds fd])
  then show "within (recv_errs E) (process_forward E fd w k) (\<lambda>(w', k'). rtcp_ok w' \<and> op_frame opn w k w' k' \<and>
      worker_abs w' = worker_abs w \<and> working w' = working w \<and> portFd w' = portFd w)"
    by (rule within_mono) (auto dest: process_forward_keeps)
qed

end
