(* ===== verification/Worker_Properties.thy ===== *)
theory Worker_Properties
  imports Demo_Runs Traffic Rtcp_Contract
begin

text \<open>
  The properties of a single worker: its sources and destinations, its sockets, its packet path
  and its statistics. Each follows from the interface of the workers or the laws of the packet
  thread; each witness applies it to a worker of the concrete run.
\<close>

section \<open>Sources\<close>

text \<open>
  C10. Adding a source to a forwarding or statistics worker, under an identifier other than 0 that is free
  in the worker and with a port from 0 to 65535, returns: an address that some source of the worker has
  already is refused; otherwise the source is registered without destinations and its port is open,
  unless the socket could not be opened. A call that adds nothing leaves the sources and the ports the
  worker listens on as they were. The invariant of the worker is kept. The tables can keep a trace of the look
  ups of a failed call, and the system a socket that could not be bound.
\<close>

theorem worker_adds_source:
  assumes "worker_good w" and "platform_ok E opn" and "fds_open opn w k"
    and "i \<noteq> 0" and "worker_abs w i = None" and "valid_port port"
    and a: "a = source_addr E ip port k"
  shows "\<exists>b w' k'. virtual_addSource E i ip port w k = Inr (b, w', k') \<and> worker_good w' \<and>
    op_frame opn w k w' k' \<and>
    (if has_source (worker_abs w) a then \<not> b \<and> worker_abs w' = worker_abs w
     else if b then worker_abs w' = (worker_abs w)(i \<mapsto> (a, Map.empty)) \<and> hasPort port w'
     else worker_abs w' = worker_abs w \<and> \<not> hasPort port w) \<and>
    (b \<or> (\<forall>q. hasPort q w' = hasPort q w))"
proof -
  obtain b w' k' where run: "virtual_addSource E i ip port w k = Inr (b, w', k')" "worker_good w'"
      "op_frame opn w k w' k'"
      "if has_source (worker_abs w) a then \<not> b \<and> worker_abs w' = worker_abs w
       else if b then worker_abs w' = (worker_abs w)(i \<mapsto> (a, Map.empty)) \<and> hasPort port w'
       else worker_abs w' = worker_abs w \<and> \<not> hasPort port w"
    using vw.add_law [OF assms] unfolding ensures_Inr3 by blast
  have "b \<or> worker_abs w' = worker_abs w" using run(4) by (auto split: if_splits)
  then have "b \<or> (\<forall>q. hasPort q w' = hasPort q w)"
    using vw.port_open_iff [OF run(2)] vw.port_open_iff [OF assms(1)] by auto
  with run show ?thesis by blast
qed

theorem worker_adds_source_witness:
  "\<exists>w' k'. virtual_addSource sim_env 9 ''1'' 4000 fwd_worker demo_state = Inr (False, w', k') \<and>
     worker_abs w' = worker_abs fwd_worker"
proof -
  have new: "worker_abs fwd_worker 9 = None" by (rule demo_view_none) simp
  have "has_source (worker_abs fwd_worker) (source_addr sim_env ''1'' 4000 demo_state)"
    using demo_views(1) by (force simp: has_source_def sim_source_addr [OF demo_hosts(1)])
  then show ?thesis
    using worker_adds_source [OF demo_fwd(1) sim_platform_ok demo_fwd(4) _ new demo_ports(1) refl, of "''1''"]
    by auto
qed

text \<open>
  C6. Removing a source of a running worker returns and takes exactly that source away. The socket of its
  port is closed when it was the last user of the port; when the worker has no table entry left it
  sends the message 100 and stops, and in no other case.
\<close>

theorem worker_removes_source:
  assumes "worker_good w" and "platform_ok E opn" and "fds_open opn w k"
    and "worker_abs w i = Some (a, D)" and "launched w"
  shows "\<exists>w' k'. virtual_removeSource E i w k = Inr (w', k') \<and> worker_good w' \<and>
    worker_abs w' = (worker_abs w)(i := None) \<and>
    (hasPort (port_of a) w' \<longleftrightarrow> sources_on (worker_abs w) (port_of a) \<noteq> {i}) \<and>
    working w' = (working w \<and> \<not> isEmpty w') \<and>
    k' = (let k1 = after_close E w (port_of a) k
          in if isEmpty w' then sendMessage E (no_job_message w) k1 else k1)"
proof -
  obtain w' k' where run: "virtual_removeSource E i w k = Inr (w', k')" "worker_good w'"
      "worker_abs w' = (worker_abs w)(i := None)" "working w' = (working w \<and> \<not> isEmpty w')"
      "k' = (let k1 = after_close E w (port_of a) k
          in if isEmpty w' then sendMessage E (no_job_message w) k1 else k1)"
    using vw.rem_law [OF assms] unfolding ensures_Inr2 by blast
  have "i \<in> sources_on (worker_abs w) (port_of a)" using assms(4) by (auto simp: sources_on_def)
  moreover have "sources_on (worker_abs w') (port_of a) = sources_on (worker_abs w) (port_of a) - {i}"
    by (auto simp: run(3) sources_on_def split: if_splits)
  ultimately have "hasPort (port_of a) w' \<longleftrightarrow> sources_on (worker_abs w) (port_of a) \<noteq> {i}"
    using vw.port_open_iff [OF run(2), of "port_of a"] by auto
  with run show ?thesis by blast
qed

lemma port_of_host: "port_of (host p a) = uint p"
  by (simp add: port_of_def host_def)

theorem worker_removes_source_witness:
  "\<exists>w' k'. virtual_removeSource sim_env 5 fwd_worker demo_state = Inr (w', k') \<and>
     worker_abs w' = Map.empty \<and> \<not> hasPort 4000 w'"
proof -
  have "sources_on (worker_abs fwd_worker) 4000 = {5}"
    by (auto simp: demo_view sources_on_def port_of_host split: if_splits)
  then show ?thesis
    using worker_removes_source [OF demo_fwd(1) sim_platform_ok demo_fwd(4) demo_views(1) demo_fwd(3)]
    by (auto simp: port_of_host demo_view)
qed

text \<open>
  C18. A source that was added and is removed again leaves no trace: the sources of the worker and
  the ports it listens on are those from before, and the removal does return.
\<close>

theorem source_add_remove:
  assumes "worker_good w" and "platform_ok E opn" and "fds_open opn w k" and "i \<noteq> 0"
    and "worker_abs w i = None" and "valid_port port" and "launched w"
    and "virtual_addSource E i ip port w k = Inr (True, w1, k1)"
  shows "\<exists>w2 k2. virtual_removeSource E i w1 k1 = Inr (w2, k2) \<and>
    worker_abs w2 = worker_abs w \<and> (\<forall>q. hasPort q w2 = hasPort q w)"
  using vw.add_rem [OF assms] unfolding ensures_Inr2 by blast

definition second_source :: "bool \<times> worker \<times> sim" where
  "second_source = run_or (False, fwd_worker, demo_state) (virtual_addSource sim_env 9 ''2'' 4000 fwd_worker demo_state)"

theorem source_add_remove_witness:
  "\<exists>w2 k2. virtual_removeSource sim_env 9 (fst (snd second_source)) (snd (snd second_source)) = Inr (w2, k2) \<and>
     worker_abs w2 = worker_abs fwd_worker"
proof -
  have new: "worker_abs fwd_worker 9 = None" by (rule demo_view_none) simp
  have "\<not> has_source (worker_abs fwd_worker) (source_addr sim_env ''2'' 4000 demo_state)"
    by (auto simp: has_source_def demo_view sim_source_addr [OF demo_hosts(2)] sock_addr_cmp_iff host_def
        split: if_splits)
  moreover have "hasPort 4000 fwd_worker" by (simp add: hasPort_iff demo_tables(6))
  ultimately have "ensures (virtual_addSource sim_env 9 ''2'' 4000 fwd_worker demo_state) (\<lambda>(b, w', k'). b)"
    by (intro ensures_mono [OF vw.add_law [OF demo_fwd(1) sim_platform_ok demo_fwd(4) _ new demo_ports(1) refl]])
      (auto split: if_splits)
  then obtain w1 k1 where run: "virtual_addSource sim_env 9 ''2'' 4000 fwd_worker demo_state = Inr (True, w1, k1)"
    unfolding ensures_Inr3 by auto
  then have "fst (snd second_source) = w1" "snd (snd second_source) = k1" by (simp_all add: second_source_def)
  then show ?thesis
    using source_add_remove [OF demo_fwd(1) sim_platform_ok demo_fwd(4) _ new demo_ports(1) demo_fwd(3) run] by auto
qed



section \<open>Missing sources\<close>

text \<open>
  Every operation that looks a source up by an identifier the worker has no entry for follows the null
  pointer that the look up has just stored in its table.
\<close>

lemma missing_source_dereferenced:
  assumes "ifind (management w) i = None"
  shows "removeSource E i w k = Inl NullDeref \<and> addDestination E i d ip port w k = Inl NullDeref \<and>
    removeDestination E i d w k = Inl NullDeref \<and> readTimeStamp i w = Inl NullDeref \<and>
    ifind (management (snd (getStreamList i w))) i = Some None"
  using assms by (simp add: missing_source_undefined getStreamList_def um_index_none)

lemma missing_source_dereferenced_example:
  "removeSource sim_env 3 (ForwardWorker_new 0) sim_init = Inl NullDeref"
proof -
  have "ifind (management (ForwardWorker_new 0)) 3 = None"
    by (simp add: ForwardWorker_new_def setWorkerType_def Worker_new_def)
  from missing_source_dereferenced [OF this, of sim_env sim_init] show ?thesis by simp
qed

text \<open>
  C24. Exchanging stream lists: the second source takes over all destinations of the first and the first is
  left with none; with one source in both places its destinations are lost, since both pointers
  name one list. Moving one destination copies it: the second source gets it under the rule of
  \<open>addDestination\<close>, the first keeps it; a destination the first source does not have dereferences the
  end of its list.
\<close>

theorem conmute_destinations:
  assumes "worker_ok w" and "fds_open opn w k"
    and "worker_abs w i = Some (a, D)" and "worker_abs w j = Some (b, D')"
  shows "(\<exists>w'. conmuteStreamList i j w = Inr w' \<and> worker_ok w' \<and>
      worker_abs w' = (worker_abs w)(j \<mapsto> (b, D), i \<mapsto> (a, Map.empty))) \<and>
    (case D d of
      None \<Rightarrow> conmuteUdpStream d i j w = Inl EndDeref
    | Some x \<Rightarrow> \<exists>w'. conmuteUdpStream d i j w = Inr w' \<and> worker_ok w' \<and>
        worker_abs w' = (worker_abs w)(j \<mapsto> (b, if D' d = None then D'(d \<mapsto> x) else D')))"
proof
  show "\<exists>w'. conmuteStreamList i j w = Inr w' \<and> worker_ok w' \<and>
      worker_abs w' = (worker_abs w)(j \<mapsto> (b, D), i \<mapsto> (a, Map.empty))"
    using conmuteStreamList_contract [OF assms] unfolding ensures_Inr by blast
qed (use conmuteUdpStream_contract [OF assms, of d] in \<open>auto simp: ensures_Inr split: option.splits\<close>)

theorem conmute_destinations_witness:
  "(\<exists>w'. conmuteStreamList 5 5 fwd_worker = Inr w' \<and> worker_abs w' = [5 \<mapsto> (host 4000 1, Map.empty)]) \<and>
   conmuteUdpStream 99 5 5 fwd_worker = Inl EndDeref"
  using conmute_destinations [OF demo_fwd(2,4) demo_views(1) demo_views(1), of 99] by (auto simp: demo_view)

section \<open>The packet thread\<close>

text \<open>
  C27. The descriptor set for \<^verbatim>\<open>select\<close> holds exactly the open sockets of the worker and the bound is
  above all of them, with the 15 second timeout; it is undefined exactly when a descriptor does not fit
  an \<^verbatim>\<open>fd_set\<close> of 1024.
\<close>

theorem select_set:
  assumes "ord_ok (key_order E)" and "iwf (portFd w)"
  shows "if \<forall>p fd. ifind (portFd w) p \<noteq> Some fd \<or> (0 \<le> fd \<and> fd < 1024)
    then \<exists>w'. build_select_list E w = Inr w' \<and> timeout w' = (15, 0) \<and> portFd w' = portFd w \<and>
      (\<forall>fd. fd \<in> set (fdset w') \<longleftrightarrow> (\<exists>p. ifind (portFd w) p = Some fd)) \<and>
      (\<forall>p fd. ifind (portFd w) p \<noteq> Some fd \<or> fd < highsock w')
    else build_select_list E w = Inl FdSetRange"
proof -
  have fits: "worker_fds w \<subseteq> {0..<FD_SETSIZE} \<longleftrightarrow>
      (\<forall>p fd. ifind (portFd w) p \<noteq> Some fd \<or> (0 \<le> fd \<and> fd < 1024))"
    by (fastforce simp: worker_fds_def FD_SETSIZE_def)
  note spec = build_select_list_spec [OF assms]
  show ?thesis
  proof (cases "build_select_list E w")
    case (Inl e)
    then show ?thesis using spec fits by auto
  next
    case (Inr w')
    then have "worker_fds w \<subseteq> {0..<FD_SETSIZE}" using spec(2) by blast
    moreover from Inr spec(1) have "set (fdset w') = worker_fds w" "\<forall>fd \<in> worker_fds w. fd < highsock w'"
        "w' = set_select (fdset w') (highsock w') (15, 0) w"
      by simp_all
    moreover from this(3) have "timeout w' = (15, 0)" "portFd w' = portFd w"
      by (metis set_select_simps(1,5))+
    ultimately show ?thesis using Inr unfolding fits by (auto simp: worker_fds_def)
  qed
qed

theorem select_set_witness:
  "\<exists>w'. build_select_list sim_env fwd_worker = Inr w' \<and> 3 \<in> set (fdset w') \<and> 3 < highsock w'"
proof -
  have fds: "\<forall>p fd. ifind (portFd fwd_worker) p \<noteq> Some fd \<or> (0 \<le> fd \<and> fd < 1024)"
    using demo_fwd(4) sim_limit by (fastforce simp: fds_open_def descriptor_limit_def)
  show ?thesis
    using select_set [OF platform_okD(3) [OF sim_platform_ok] ok_wf [OF demo_fwd(2)]] fds demo_tables(6)
    by auto
qed

text \<open>
  C14. The thread of a forwarding worker, and of an RTCP worker, which inherits it, reaches undefined behaviour
  in one way only, however many rounds it runs and whatever packets arrive: a receive that fails, after
  which it reads a sender that nothing has written. On a platform whose receives do not fail it reaches
  none. Otherwise it leaves the sources, the sockets and the invariant of the worker alone.
\<close>

theorem forward_thread_safe:
  assumes good: "worker_ok w \<or> rtcp_ok w" and p: "platform_ok E opn" and fds: "fds_open opn w k"
  shows "run n E (process_forward E) w k = Inl UninitRead \<and>
      (\<exists>fd k'. fst (fst (sys_recvfrom E fd k')) < 0) \<or>
    (\<exists>w' k'. run n E (process_forward E) w k = Inr (w', k') \<and>
      (worker_ok w' \<or> \<not> worker_ok w) \<and> (rtcp_ok w' \<or> \<not> rtcp_ok w) \<and>
      worker_abs w' = worker_abs w \<and> portFd w' = portFd w \<and> fds_open opn w' k')"
proof -
  have f: "worker_ok w \<Longrightarrow> within (recv_errs E) (run n E (process_forward E) w k) (\<lambda>(w', k'). fp.kept opn w k w' k')"
    by (rule fp.run_law [OF _ p fds])
  have r: "rtcp_ok w \<Longrightarrow> within (recv_errs E) (run n E (process_forward E) w k) (\<lambda>(w', k'). rp.kept opn w k w' k')"
    by (rule rp.run_law [OF _ p fds])
  show ?thesis
  proof (cases "run n E (process_forward E) w k")
    case (Inl e)
    then have "e \<in> recv_errs E" using good f r by auto
    then show ?thesis using Inl by (auto dest: recv_errsD)
  next
    case (Inr x)
    then show ?thesis using good f r by (cases x) (auto simp: fp.kept_def rp.kept_def op_frame_def)
  qed
qed

theorem forward_thread_safe_witness:
  "\<exists>w' k'. run 2 sim_env (process_forward sim_env) fwd_worker demo_state = Inr (w', k') \<and>
     worker_abs w' = worker_abs fwd_worker"
proof -
  have "case run 2 sim_env (process_forward sim_env) fwd_worker demo_state of Inl e \<Rightarrow> False | Inr x \<Rightarrow> True"
    by code_simp
  then show ?thesis
    using forward_thread_safe [OF disjI1 [OF demo_fwd(2)] sim_platform_ok demo_fwd(4), of 2] by auto
qed

text \<open>
  C19. The thread of a statistics worker reaches undefined behaviour in two ways only: it overflows the byte
  counter of a list, or a receive fails and it reads a sender that nothing has written; otherwise it leaves
  the sources, the sockets and the invariants alone. A worker that has been stopped does nothing at all.
\<close>

theorem stats_thread:
  assumes "stats_good w" and "platform_ok E opn" and "fds_open opn w k"
  shows "run n E (process_stats E) w k = Inl SignedOverflow \<or>
    run n E (process_stats E) w k = Inl UninitRead \<and>
      (\<exists>fd k'. fst (fst (sys_recvfrom E fd k')) < 0) \<or>
    (\<exists>w' k'. run n E (process_stats E) w k = Inr (w', k') \<and> stats_good w' \<and>
      worker_abs w' = worker_abs w \<and> portFd w' = portFd w \<and>
      (working w \<or> (w' = w \<and> k' = k)))"
proof -
  have idle: "\<not> working w \<Longrightarrow> run n E (process_stats E) w k = Inr (w, k)" by (cases n) simp_all
  show ?thesis
    using sp.run_law [OF assms, of n] idle
    by (cases "run n E (process_stats E) w k") (auto simp: sp.kept_def dest: recv_errsD)
qed

theorem stats_thread_witness:
  "\<exists>w' k'. run 2 sim_env (process_stats sim_env) stats_worker demo_state = Inr (w', k') \<and>
     worker_abs w' = worker_abs stats_worker"
proof -
  have "case run 2 sim_env (process_stats sim_env) stats_worker demo_state of Inl e \<Rightarrow> False | Inr x \<Rightarrow> True"
    by code_simp
  then show ?thesis
    using stats_thread [OF demo_stats(2) sim_platform_ok demo_stats(4), of 2] by auto
qed

text \<open>
  C13. A statistics worker sends a packet of a known source to exactly the destinations of that source and
  adds its length to both counters. The counter of the list is a signed number: when the sum does not
  fit an \<^verbatim>\<open>int\<close> the addition is undefined and nothing is sent. After a failed receive the sender is read
  although nothing has written it.
\<close>

theorem stats_packet:
  assumes "stats_good w" and "platform_ok E opn" and "fds_open opn w k"
    and "ifind (portFd w) p = Some fd"
    and "sys_recvfrom E fd k = ((ret, buf, sender), k1)" and "word_of_int ret \<noteq> (0 :: 32 word)"
    and e: "source_entry w j r u" and s: "stats (store w r) = Some s"
    and "sock_addr_cmp (addr u) (packet_key sender p)"
  shows "if ret < 0 then process_stats E fd w k = Inl UninitRead
    else if fits_int (sint (list_inputBytes s) + sint (word_of_int ret :: 32 word))
    then \<exists>w' k'. process_stats E fd w k = Inr (w', k') \<and> worker_abs w' = worker_abs w \<and>
      delivers E fd buf (word_of_int ret) (dest_map (store w r)) k1 k' \<and>
      inputBytes w' = inputBytes w + word_of_int ret \<and>
      stats (store w' r) = Some (s\<lparr>list_inputBytes := list_inputBytes s + word_of_int ret\<rparr>)
    else process_stats E fd w k = Inl SignedOverflow"
proof -
  have src: "worker_abs w j = Some (addr u, dest_map (store w r))"
    using e by (auto simp: worker_abs_Some)
  have unique: "source_entry w j r' u' \<Longrightarrow> r' = r" for r' u' using e by (simp add: source_entry_def)
  show ?thesis
  proof (cases "ret < 0")
    case True
    then show ?thesis by (simp add: process_failed [OF assms(5) _ assms(6)])
  next
    case False
    then have "0 \<le> ret" by simp
    from stats_hit [OF assms(1) platform_okD(1) [OF assms(2)] assms(3-6) this src assms(9)] False s show ?thesis
      unfolding ensures_Inr2 by (auto dest!: unique split: if_splits)
  qed
qed

lemma demo_stats_entry:
  "source_entry stats_worker 6 0 \<lparr>stream_id = 6, addr = host 4001 1\<rparr>"
  "stats (store stats_worker 0) = Some \<lparr>actualRate = 0, limitRate = 0, list_inputBytes = 0\<rparr>"
proof -
  have "ifind (management stats_worker) 6 = Some (Some 0)" by code_simp
  moreover have "source (store stats_worker 0) = Some \<lparr>stream_id = 6, addr = host 4001 1\<rparr>" by code_simp
  ultimately show "source_entry stats_worker 6 0 \<lparr>stream_id = 6, addr = host 4001 1\<rparr>"
    by (simp add: source_entry_def)
  show "stats (store stats_worker 0) = Some \<lparr>actualRate = 0, limitRate = 0, list_inputBytes = 0\<rparr>"
    by code_simp
qed

lemma packet_key_host: "sock_addr_cmp (host p a) (packet_key (host q b) (uint p)) \<longleftrightarrow> a = b"
  by (simp add: sock_addr_cmp_iff packet_key_def host_def)

theorem stats_packet_witness:
  "\<exists>w' k'. process_stats sim_env 4 stats_worker demo_state = Inr (w', k') \<and>
     inputBytes w' = inputBytes stats_worker + 2"
proof -
  have key: "sock_addr_cmp (addr \<lparr>stream_id = 6, addr = host 4001 1\<rparr>) (packet_key (host 9998 1) 4001)"
    using packet_key_host [of 4001 1 9998 1] by simp
  show ?thesis
    using stats_packet [OF demo_stats(2) sim_platform_ok demo_stats(4) demo_tables(7) demo_receive(2)
        _ demo_stats_entry key] by (auto simp: fits_int_def)
qed

text \<open>
  C20. A round of the statistics thread returns, where the compiler lets \<^verbatim>\<open>StatsStreamList::update\<close>, a
  \<^verbatim>\<open>bool\<close> function without a return, come back to its caller, or where the worker has no source: the clock
  differences and divisions of all lists are defined, the worker's counter is reset, and the sources and
  their destinations stay as they are. Elsewhere the first list is undefined behaviour, as C++ has it.
\<close>

theorem stats_round:
  assumes "stats_good w" and "platform_ok E opn" and "fds_open opn w k"
  shows "if falls_through E \<or> worker_abs w = Map.empty
    then \<exists>w' out k'. generateStats_round E w k = Inr (w', out, k') \<and> stats_good w' \<and>
      worker_abs w' = worker_abs w \<and> inputBytes w' = 0 \<and> working w' = working w
    else generateStats_round E w k = Inl MissingReturn"
proof -
  have ok: "worker_ok w" "stats_ok w" using assms(1) by (simp_all add: stats_good_def)
  note p = platform_okD [OF assms(2)]
  have law: "within (end_errs E) (generateStats_round E w k) (\<lambda>(w', out, k').
      worker_ok w' \<and> stats_ok w' \<and> worker_abs w' = worker_abs w \<and> op_frame opn w k w' k' \<and>
      working w' = working w \<and> inputBytes w' = 0)"
    by (rule generateStats_round_ok [OF ok p(2,1) assms(3) p(3)])
  show ?thesis
  proof (cases "falls_through E \<or> worker_abs w = Map.empty")
    case True
    then have "\<exists>x. generateStats_round E w k = Inr x"
    proof
      assume "falls_through E"
      then have "generateStats_round E w k \<noteq> Inl e" for e using law by (auto simp: end_errs_def)
      then show ?thesis by (metis sum.exhaust)
    qed (rule generateStats_round_empty [OF ok(1) p(3)])
    then obtain w' out k' where "generateStats_round E w k = Inr (w', out, k')" by (metis prod_cases3)
    with True law show ?thesis by (simp add: stats_good_def)
  next
    case False
    then have "\<exists>i. worker_abs w i \<noteq> None" by (simp add: fun_eq_iff)
    then obtain i x where "worker_abs w i = Some x" by (metis not_None_eq)
    from generateStats_round_missing [OF ok p(2,3) _ this] False show ?thesis by simp
  qed
qed

theorem stats_round_witness:
  "\<exists>w' out k'. generateStats_round sim_env stats_worker demo_state = Inr (w', out, k') \<and> inputBytes w' = 0"
  using stats_round [OF demo_stats(2) sim_platform_ok demo_stats(4)] by (auto simp: sim_env_def)

text \<open>
  C15. No byte is lost or counted twice by the worker's counter: however packets and statistics rounds
  follow each other, the counts the rounds took away and the count that is left add up, in 32-bit
  arithmetic, to the bytes of the packets of known sources.
\<close>

theorem traffic_conserved:
  assumes "traffic E (w0, k0) c rs (w, k)" and "platform_ok E opn"
    and "stats_good w0" and "fds_open opn w0 k0"
  shows "sum_list rs + inputBytes w = inputBytes w0 + c"
  using traffic_balance [OF assms(1,2)] assms(3,4) by simp

definition demo_packet :: "worker \<times> sim" where
  "demo_packet = run_or (stats_worker, demo_state) (process_stats sim_env 4 stats_worker demo_state)"

theorem traffic_conserved_witness:
  "inputBytes (fst demo_packet) = inputBytes stats_worker + 2"
proof -
  have src: "has_source (worker_abs stats_worker) (packet_key (host 9998 1) 4001)"
    using demo_views(2) packet_key_host [of 4001 1 9998 1] unfolding has_source_def by fastforce
  have "case process_stats sim_env 4 stats_worker demo_state of Inl _ \<Rightarrow> False | Inr _ \<Rightarrow> True"
    by code_simp
  then have run: "process_stats sim_env 4 stats_worker demo_state = Inr (fst demo_packet, snd demo_packet)"
    by (cases "process_stats sim_env 4 stats_worker demo_state") (simp_all add: demo_packet_def)
  from traffic_packet [OF traffic_start demo_tables(7) demo_receive(2) run]
  have "traffic sim_env (stats_worker, demo_state) 2 [] (fst demo_packet, snd demo_packet)"
    using src by (simp del: One_nat_def prod.collapse)
  from traffic_conserved [OF this sim_platform_ok demo_stats(2,4)] show ?thesis by simp
qed

section \<open>Defects of the tables\<close>

text \<open>
  C23. Source identifier 0 is not protected, because 0 also means that an address is unknown. In a worker that
  has a source 0, so whose tables bind an address to 0 and 0 to a list, a second source with that same
  address is accepted whenever its port is open, and takes the packets of the address over; and a
  packet from any address the worker does not know is sent to the destinations of source 0.
\<close>

theorem source_zero_unprotected:
  assumes zero: "afind (forwarding w) (source_addr E ip port k) = Some 0"
    and live: "ifind (management w) 0 = Some (Some r)" and listens: "listeners w port \<noteq> 0"
    and fd: "ifind (fdPort w) fd = Some p" and recv: "sys_recvfrom E fd k = ((ret, buf, sender), k1)"
    and len: "0 < ret" "ret < 4294967296" and unknown: "afind (forwarding w) (packet_key sender p) = None"
  shows "(\<exists>w'. addSource E j ip port w k = Inr (True, w', k) \<and>
      afind (forwarding w') (source_addr E ip port k) = Some j) \<and>
    (\<exists>w'. process_forward E fd w k = Inr (w',
      send_all E fd buf (word_of_int ret) (destinations (store w r)) (snd (sys_time E k1))))"
proof
  let ?a = "source_addr E ip port k"
  obtain n where n: "ifind (portListener w) port = Some n" "n \<noteq> 0"
    using listens by (auto simp: listeners_def split: option.splits)
  have look: "getListIdBySocket ?a w = (0, w)"
    by (simp add: getListIdBySocket_def um_index_snd_find [OF zero])
  show "\<exists>w'. addSource E j ip port w k = Inr (True, w', k) \<and> afind (forwarding w') ?a = Some j"
    by (simp add: addSource_def Let_def getAddr_def look add_socket_def um_index_snd_find [OF n(1)]
        n(2) new_list_def addStreamList_def getSourceSockAddr_def setSource_def)
  have w: "word_of_int ret \<noteq> (0 :: 32 word)"
    using len zdvd_not_zless [of ret "2 ^ 32"] by (auto simp: word_of_int_eq_0_iff)
  obtain t k2 where t: "sys_time E k1 = (t, k2)" by fastforce
  have miss: "getStreamListBySocket (packet_key sender p) w =
      (Some r, w\<lparr>forwarding := aput (forwarding w) (packet_key sender p) 0\<rparr>)"
    by (simp add: getStreamListBySocket_def getListIdBySocket_def um_index_none [OF unknown]
        getStreamList_def um_index_snd_find [OF live])
  show "\<exists>w'. process_forward E fd w k = Inr (w',
      send_all E fd buf (word_of_int ret) (destinations (store w r)) (snd (sys_time E k1)))"
    using w len(1) miss by (simp add: process_forward_def recv Let_def um_index_snd_find [OF fd] packet_key_def
        word_gt_0 t updateTimeStamp_def getDestinations_def set_list_def)
qed

definition zero1 :: "worker \<times> sim" where
  "zero1 = snd (run_or (False, ForwardWorker_new 0, demo_start)
     (addSource sim_env 0 ''1'' 4000 (launch (ForwardWorker_new 0)) demo_start))"
definition zero2 :: "worker \<times> sim" where
  "zero2 = (case zero1 of (w, k) \<Rightarrow> case run_or (w, k) (addDestination sim_env 0 7 ''2'' 5000 w k) of
     (w', k') \<Rightarrow> (w', k'\<lparr>sim_in := [(3, [60], host 9997 9)]\<rparr>))"

text \<open>A source 0 with one destination, and a packet of a stranger.\<close>

theorem source_zero_unprotected_witness:
  "(\<exists>w'. addSource sim_env 3 ''1'' 4000 (fst zero2) (snd zero2) = Inr (True, w', snd zero2)) \<and>
   (\<exists>w' k'. process_forward sim_env 3 (fst zero2) (snd zero2) = Inr (w', k') \<and> sim_out k' = [([60], host 5000 2)])"
proof -
  have z: "afind (forwarding (fst zero2)) (source_addr sim_env ''1'' 4000 (snd zero2)) = Some 0"
      "ifind (management (fst zero2)) 0 = Some (Some 0)" "listeners (fst zero2) 4000 \<noteq> 0"
      "ifind (fdPort (fst zero2)) 3 = Some 4000"
      "sys_recvfrom sim_env 3 (snd zero2) = ((1, [60], host 9997 9), (snd zero2)\<lparr>sim_in := []\<rparr>)"
      "afind (forwarding (fst zero2)) (packet_key (host 9997 9) 4000) = None"
    by code_simp+
  have out: "sim_out (send_all sim_env 3 [60] (word_of_int 1) (destinations (store (fst zero2) 0))
      (snd (sys_time sim_env ((snd zero2)\<lparr>sim_in := []\<rparr>)))) = [([60], host 5000 2)]"
    by code_simp
  show ?thesis
    using source_zero_unprotected [OF z(1-5) _ _ z(6), of 3] out by auto
qed

text \<open>
  Printing the port table adds the worker identifier to the address of a string literal: with a socket
  open it is defined for the workers 0 and 1 only.
\<close>

lemma port_table_print:
  assumes ord: "ord_ok (key_order E)" and wf: "iwf (portFd w)" and ne: "portFd w \<noteq> []"
  shows "if worker_id w = 0 \<or> worker_id w = 1 then \<exists>s. printPortFd E w = Inr s
    else printPortFd E w = Inl OutOfBounds"
proof -
  have lit: "literal_at i newline = (if i = 0 then Inr newline else if i = 1 then Inr [] else Inl OutOfBounds)" for i
    by (auto simp: literal_at_def newline_def)
  have all: "if i = 0 \<or> i = 1 then \<exists>s. print_ports i es = Inr s else es = [] \<or> print_ports i es = Inl OutOfBounds" for i es
    by (induction i es rule: print_ports.induct) (auto simp: lit)
  have "set (iiter (key_order E) (portFd w)) = set (portFd w)" by (rule iiter_set [OF ord wf])
  then have "iiter (key_order E) (portFd w) \<noteq> []" using ne by auto
  with all [of "worker_id w" "iiter (key_order E) (portFd w)"] show ?thesis
    by (auto simp: printPortFd_def split: if_splits)
qed

end
