(* ===== verification/Rtcp_Properties.thy ===== *)
theory Rtcp_Properties
  imports Rtcp_Contract Demo_Runs
begin

text \<open>
  The properties of \<^verbatim>\<open>RtcpWorker\<close>: pairs of sources, pairs of destinations, and what a failing call
  leaves behind.
\<close>

section \<open>A worker with one pair\<close>

definition rtcp1 :: "bool \<times> worker \<times> sim" where
  "rtcp1 = run_or (False, RtcpWorker_new 0, sim_init)
     (addSource_rtcp sim_env 4 ''1'' 4000 (RtcpWorker_new 0) sim_init)"

definition yields :: "(bool \<times> 'a) res \<Rightarrow> bool" where
  "yields m = (case m of Inl _ \<Rightarrow> False | Inr (b, _) \<Rightarrow> b)"

lemma rtcp1_run:
  "addSource_rtcp sim_env 4 ''1'' 4000 (RtcpWorker_new 0) sim_init = Inr (True, snd rtcp1)"
proof -
  have "yields (addSource_rtcp sim_env 4 ''1'' 4000 (RtcpWorker_new 0) sim_init)" by code_simp
  then show ?thesis
    by (cases "addSource_rtcp sim_env 4 ''1'' 4000 (RtcpWorker_new 0) sim_init")
      (auto simp: yields_def rtcp1_def)
qed

lemma rtcp_new_abs: "worker_abs (RtcpWorker_new i) = Map.empty"
  by (simp add: RtcpWorker_new_def setWorkerType_def Worker_new_def worker_abs_def fun_eq_iff)

lemma rtcp_new_fds: "fds_open opn (RtcpWorker_new i) k"
  by (simp add: RtcpWorker_new_def setWorkerType_def Worker_new_def fds_open_def)

lemma rtcp1_ok:
  obtains b where "rtcp_ok (fst (snd rtcp1))" "fds_open sim_open (fst (snd rtcp1)) (snd (snd rtcp1))"
    "worker_abs (fst (snd rtcp1)) = [4 \<mapsto> (host 4000 1, Map.empty), 5 \<mapsto> (b, Map.empty)]"
proof -
  have "valid_port 4001" "valid_port 4000" by (simp_all add: valid_port_def)
  then show thesis
    using addSource_rtcp_contract [OF rtcp_ok_new sim_sockets_ok rtcp_new_fds, of 4 0 4000 "''1''" sim_init]
      rtcp1_run that
    by (auto simp: rtcp_new_abs sim_source_addr [OF demo_hosts(1)])
qed

section \<open>Pairs of sources\<close>

text \<open>
  C21. An RTCP worker has its sources in pairs. Under the discipline its comments describe (even
  identifiers and even ports for RTP) adding a source returns: it either registers the RTP source and the
  RTCP source on the next identifier and port, without destinations, or it fails and leaves the sources as
  they were. Removing the RTP source returns, takes both away and opens no socket. After an addition that
  succeeds and after a removal the invariant holds again, which includes the counts of the users of every
  port; after one that fails nothing is said of the sockets, as it can leave some open that no source owns.
\<close>

theorem rtcp_source_pair:
  assumes "rtcp_ok w" and "sockets_ok E opn" and "fds_open opn w k" and "even i" and "i \<noteq> 0"
    and "even port" and "valid_port port" and "valid_port (port + 1)"
  shows "case worker_abs w i of
      None \<Rightarrow> \<exists>added w' k' b. addSource_rtcp E i ip port w k = Inr (added, w', k') \<and>
        (if added then rtcp_ok w' \<and> fds_open opn w' k' \<and> port_of b = port + 1 \<and>
            worker_abs w' = (worker_abs w)(i \<mapsto> (source_addr E ip port k, Map.empty), i + 1 \<mapsto> (b, Map.empty))
         else worker_abs w' = worker_abs w)
    | Some _ \<Rightarrow> \<exists>w' k'. removeSource_rtcp E i w k = Inr (w', k') \<and> rtcp_ok w' \<and> fds_open opn w' k' \<and>
        worker_abs w' = (worker_abs w)(i := None, i + 1 := None) \<and> worker_fds w' \<subseteq> worker_fds w"
proof (cases "worker_abs w i")
  case None
  then show ?thesis using addSource_rtcp_contract [OF assms(1-5) None assms(6-8)] by simp
next
  case (Some x)
  then have "worker_abs w i = Some (fst x, snd x)" by simp
  from removeSource_rtcp_contract [OF assms(1-4) this] show ?thesis unfolding Some by simp
qed

theorem rtcp_source_pair_witness:
  "\<exists>w' k'. removeSource_rtcp sim_env 4 (fst (snd rtcp1)) (snd (snd rtcp1)) = Inr (w', k') \<and>
     rtcp_ok w' \<and> worker_abs w' = Map.empty"
proof -
  obtain b where ok: "rtcp_ok (fst (snd rtcp1))" "fds_open sim_open (fst (snd rtcp1)) (snd (snd rtcp1))"
    "worker_abs (fst (snd rtcp1)) = [4 \<mapsto> (host 4000 1, Map.empty), 5 \<mapsto> (b, Map.empty)]"
    by (rule rtcp1_ok)
  have "[4 :: int \<mapsto> x, 5 \<mapsto> y](4 := None, 5 := None) = Map.empty" for x y :: "sockaddr_in \<times> (int \<Rightarrow> sockaddr_in option)"
    by (auto simp: fun_eq_iff)
  with rtcp_source_pair [OF ok(1) sim_sockets_ok ok(2), of 4 4000 "''1''"] show ?thesis
    by (auto simp: ok(3) valid_port_def)
qed

section \<open>Pairs of destinations\<close>

text \<open>
  C22. A destination of a pair is added to the RTP list when its identifier is free there, and to the
  RTCP list, under the next identifier, only when it was added to the first and that identifier is free
  too; it is removed from both lists when both hold their half, and from neither otherwise. A pair
  added by halves is therefore never removed. The invariant holds again either way.
\<close>

theorem rtcp_destination_pair:
  assumes "rtcp_ok w" and "even i"
    and "worker_abs w i = Some (a, D)" and "worker_abs w (i + 1) = Some (b, D')"
  shows "(\<exists>w' y. addDestination_rtcp E i d ip port w k = Inr (w', k) \<and> rtcp_ok w' \<and>
      worker_abs w' = (worker_abs w)(
        i \<mapsto> (a, if D d = None then D(d \<mapsto> source_addr E ip port k) else D),
        i + 1 \<mapsto> (b, if D d = None \<and> D' (d + 1) = None then D'(d + 1 \<mapsto> y) else D'))) \<and>
    (\<exists>w'. removeDestination_rtcp E i d w k = Inr (w', k) \<and> rtcp_ok w' \<and>
      worker_abs w' = (if D d \<noteq> None \<and> D' (d + 1) \<noteq> None
        then (worker_abs w)(i \<mapsto> (a, D(d := None)), i + 1 \<mapsto> (b, D'(d + 1 := None))) else worker_abs w))"
  by (rule conjI [OF addDestination_rtcp_contract [OF assms] removeDestination_rtcp_contract [OF assms]])

theorem rtcp_destination_pair_witness:
  "\<exists>w' b y. addDestination_rtcp sim_env 4 7 ''2'' 5000 (fst (snd rtcp1)) (snd (snd rtcp1)) =
      Inr (w', snd (snd rtcp1)) \<and>
     worker_abs w' = [4 \<mapsto> (host 4000 1, [7 \<mapsto> host 5000 2]), 5 \<mapsto> (b, [8 \<mapsto> y])]"
proof -
  obtain b where ok: "rtcp_ok (fst (snd rtcp1))"
    "worker_abs (fst (snd rtcp1)) = [4 \<mapsto> (host 4000 1, Map.empty), 5 \<mapsto> (b, Map.empty)]"
    by (rule rtcp1_ok)
  have "even (4 :: int)" by simp
  have eq: "[4 :: int \<mapsto> x, 5 \<mapsto> y](4 \<mapsto> x', 5 \<mapsto> y') = [4 \<mapsto> x', 5 \<mapsto> y']"
    for x y x' y' :: "sockaddr_in \<times> (int \<Rightarrow> sockaddr_in option)"
    by (auto simp: fun_eq_iff)
  from rtcp_destination_pair [OF ok(1) \<open>even 4\<close>, of "host 4000 1" Map.empty b Map.empty sim_env 7 "''2''" 5000]
  show ?thesis
    unfolding ok(2) by (simp add: sim_source_addr [OF demo_hosts(2)] eq) blast
qed

section \<open>A failing call\<close>

text \<open>
  When the RTP port is taken by another socket, the call that adds a source returns false, and the
  sockets that it has opened for the next two ports stay open and bound although no table of the worker
  names them: nothing closes them and the ports are lost.
\<close>

definition taken_4000 :: sim where
  "taken_4000 = sim_init\<lparr>sim_fds := [(3, Some (htons 4000))], sim_next := 4\<rparr>"

lemma rtcp_failed_add_leaks:
  "case addSource_rtcp sim_env 4 ''1'' 4000 (RtcpWorker_new 0) taken_4000 of
     Inr (added, w, k) \<Rightarrow> \<not> added \<and> portFd w = [] \<and> fdPort w = [] \<and>
       (5, Some (htons 4001)) \<in> set (sim_fds k) \<and> (7, Some (htons 4002)) \<in> set (sim_fds k)
   | Inl _ \<Rightarrow> False"
  by code_simp

end
