(* ===== verification/Console.thy ===== *)
theory Console
  imports Manager
begin

text \<open>
  The command interpreter of the examples: \<^verbatim>\<open>examples/CL_strManager/src/main.cpp\<close> reads lines from
  the console, \<^verbatim>\<open>examples/WS_strManager/src/main_ws.cpp\<close> holds a copy of it behind a web service. A
  line is first taken apart (\<open>parse_line\<close>), then the command is carried out (\<open>run_command\<close>); the
  code does the two in one chain of conditions, and reading the line has no effect of its own.

  The calls of the manager are arguments of the macro \<^verbatim>\<open>LOG4CXX_DEBUG\<close>, which evaluates its argument
  only when the logger is enabled for debugging: that is the parameter \<open>dbg\<close>.
\<close>

section \<open>\<^verbatim>\<open>std::string\<close> and \<^verbatim>\<open>atoi\<close>\<close>

text \<open>
  A position is a number or \<open>None\<close> for \<^verbatim>\<open>npos\<close>; as \<^verbatim>\<open>npos\<close> is the greatest \<^verbatim>\<open>size_t\<close>, one more is 0.
\<close>

fun str_find :: "char \<Rightarrow> string \<Rightarrow> nat option" where
  "str_find c [] = None"
| "str_find c (d # s) = (if d = c then Some 0 else map_option Suc (str_find c s))"

fun str_find_last :: "char \<Rightarrow> string \<Rightarrow> nat option" where
  "str_find_last c [] = None"
| "str_find_last c (d # s) =
     (case str_find_last c s of Some n \<Rightarrow> Some (Suc n) | None \<Rightarrow> if d = c then Some 0 else None)"

fun after_pos :: "nat option \<Rightarrow> nat" where
  "after_pos None = 0"
| "after_pos (Some n) = Suc n"

definition substr_from :: "nat \<Rightarrow> string \<Rightarrow> string res" where
  "substr_from p s = (if p \<le> length s then Inr (drop p s) else Inl OutOfRange)"

fun substr_to :: "nat option \<Rightarrow> string \<Rightarrow> string" where
  "substr_to None s = s"
| "substr_to (Some n) s = take n s"

definition is_digit :: "char \<Rightarrow> bool" where
  "is_digit c \<longleftrightarrow> 48 \<le> (of_char c :: nat) \<and> (of_char c :: nat) \<le> 57"

definition is_space :: "char \<Rightarrow> bool" where
  "is_space c \<longleftrightarrow> c = CHR '' '' \<or> (9 \<le> (of_char c :: nat) \<and> (of_char c :: nat) \<le> 13)"

fun decimal :: "nat \<Rightarrow> string \<Rightarrow> nat" where
  "decimal n [] = n"
| "decimal n (c # s) = (if is_digit c then decimal (10 * n + (of_char c - 48)) s else n)"

definition atoi :: "string \<Rightarrow> int res" where
  "atoi s =
     (let t = dropWhile is_space s;
          v = (case t of
                 [] \<Rightarrow> 0
               | c # u \<Rightarrow> if c = CHR ''-'' then - int (decimal 0 u)
                          else if c = CHR ''+'' then int (decimal 0 u) else int (decimal 0 t))
      in if fits_int v then Inr v else Inl NotRepresentable)"

section \<open>Lines\<close>

definition line_count :: "string \<Rightarrow> char \<Rightarrow> int" where
  "line_count line token = fold (\<lambda>c i. if c = token then i + 1 else i) line 0"

datatype command =
    NoCommand
  | AddSource int string int
  | RemSource string
  | AddDestination int string int
  | RemDestination int int
  | RemIp
  | PrintM
  | PrintF
  | PrintP
  | HelpCommand
  | ExitCommand
  | BadCommand string

definition parse_addsource :: "string \<Rightarrow> command res" where
  "parse_addsource line =
     bindE (substr_from 10 line) (\<lambda>l1.
     bindE (atoi (substr_to (str_find (CHR '' '') l1) l1)) (\<lambda>workerType.
     bindE (substr_from (after_pos (str_find (CHR '' '') l1)) l1) (\<lambda>l2.
     bindE (substr_from (after_pos (str_find_last (CHR '' '') l2)) l2) (\<lambda>l3.
     bindE (atoi l3) (\<lambda>port.
       Inr (AddSource workerType (c_str (substr_to (str_find (CHR '' '') l2) l2)) port))))))"

definition parse_adddestination :: "string \<Rightarrow> command res" where
  "parse_adddestination line =
     bindE (substr_from 15 line) (\<lambda>l1.
     bindE (atoi (substr_to (str_find (CHR '' '') l1) l1)) (\<lambda>flow.
     bindE (substr_from (after_pos (str_find (CHR '' '') l1)) l1) (\<lambda>l2.
     bindE (substr_from (after_pos (str_find (CHR '' '') l2)) l2) (\<lambda>l3.
     bindE (atoi l3) (\<lambda>port.
       Inr (AddDestination flow (c_str (substr_to (str_find (CHR '' '') l2) l2)) port))))))"

definition parse_remdestination :: "string \<Rightarrow> command res" where
  "parse_remdestination line =
     bindE (substr_from 15 line) (\<lambda>l.
     bindE (atoi (substr_to (str_find (CHR '' '') l) l)) (\<lambda>flow.
     bindE (substr_from (after_pos (str_find (CHR '' '') l)) l) (\<lambda>l2.
     bindE (atoi l2) (\<lambda>flow2. Inr (RemDestination flow flow2)))))"

definition parse_line :: "string \<Rightarrow> command res" where
  "parse_line line =
     (if line = [] then Inr NoCommand
      else if take 9 line = ''addsource'' \<and> line_count line (CHR '' '') = 3 then parse_addsource line
      else if take 9 line = ''remsource'' \<and> line_count line (CHR '' '') = 1 then
        bindE (substr_from 10 line) (\<lambda>l. Inr (RemSource l))
      else if take 14 line = ''adddestination'' \<and> line_count line (CHR '' '') = 3 then
        parse_adddestination line
      else if take 14 line = ''remdestination'' \<and> line_count line (CHR '' '') = 2 then
        parse_remdestination line
      else if take 5 line = ''remip'' \<and> line_count line (CHR '' '') = 1 then
        bindE (substr_from 6 line) (\<lambda>_. Inr RemIp)
      else if take 6 line = ''printm'' then Inr PrintM
      else if take 6 line = ''printf'' then Inr PrintF
      else if take 6 line = ''printp'' then Inr PrintP
      else if take 4 line = ''help'' then Inr HelpCommand
      else if take 4 line = ''exit'' then Inr ExitCommand
      else Inr (BadCommand line))"

section \<open>Carrying a command out\<close>

record console =
  sm :: manager
  flowId :: int
  cout :: string

type_synonym 'k cstate = "console \<times> 'k"

definition put_out :: "string \<Rightarrow> 'k cstate \<Rightarrow> 'k cstate" where
  "put_out s st = (case st of (c, k) \<Rightarrow> (c\<lparr>cout := cout c @ s\<rparr>, k))"

text \<open>\<^verbatim>\<open>flowId++\<close>, a signed increment.\<close>

definition next_flow :: "console \<Rightarrow> console res" where
  "next_flow c = (if fits_int (flowId c + 1) then Inr (c\<lparr>flowId := flowId c + 1\<rparr>) else Inl SignedOverflow)"

definition cl_addSource :: "'k env \<Rightarrow> int \<Rightarrow> int \<Rightarrow> string \<Rightarrow> int \<Rightarrow> 'k cstate \<Rightarrow> (int \<times> 'k cstate) res" where
  "cl_addSource E workerType src_id ip port st =
     (case st of (c, k) \<Rightarrow> bindE (next_flow c) (\<lambda>c1.
       bindE (Manager_addSource E workerType src_id ip port (sm c1) k) (\<lambda>(ret, M, k1).
         Inr (ret, c1\<lparr>sm := M\<rparr>, k1))))"

definition cl_removeSource :: "'k env \<Rightarrow> int \<Rightarrow> 'k cstate \<Rightarrow> (int \<times> 'k cstate) res" where
  "cl_removeSource E src_id st =
     (case st of (c, k) \<Rightarrow> bindE (Manager_removeSource E src_id (sm c) k) (\<lambda>(ret, M, k1).
       Inr (ret, c\<lparr>sm := M\<rparr>, k1)))"

definition cl_addDestination :: "'k env \<Rightarrow> int \<Rightarrow> int \<Rightarrow> string \<Rightarrow> int \<Rightarrow> 'k cstate \<Rightarrow> (int \<times> 'k cstate) res" where
  "cl_addDestination E src_id dest_id ip port st =
     (case st of (c, k) \<Rightarrow> bindE (next_flow c) (\<lambda>c1.
       bindE (Manager_addDestination E src_id dest_id ip port (sm c1) k) (\<lambda>(ret, M, k1).
         Inr (ret, c1\<lparr>sm := M\<rparr>, k1))))"

definition cl_removeDestination :: "'k env \<Rightarrow> int \<Rightarrow> int \<Rightarrow> 'k cstate \<Rightarrow> (int \<times> 'k cstate) res" where
  "cl_removeDestination E src_id dest_id st =
     (case st of (c, k) \<Rightarrow> bindE (Manager_removeDestination E src_id dest_id (sm c) k) (\<lambda>(ret, M, k1).
       Inr (ret, c\<lparr>sm := M\<rparr>, k1)))"

text \<open>The value of a macro argument goes to the log, which is not modelled; its effects stay.\<close>

definition log_debug :: "bool \<Rightarrow> ('k cstate \<Rightarrow> ('a \<times> 'k cstate) res) \<Rightarrow> 'k cstate \<Rightarrow> 'k cstate res" where
  "log_debug dbg m st = (if dbg then bindE (m st) (\<lambda>(_, st1). Inr st1) else Inr st)"

definition log_print :: "bool \<Rightarrow> (manager \<Rightarrow> string res) \<Rightarrow> 'k cstate \<Rightarrow> 'k cstate res" where
  "log_print dbg pr = log_debug dbg (\<lambda>st. bindE (pr (sm (fst st))) (\<lambda>s. Inr (s @ newline @ newline, st)))"

definition tab_line :: "string \<Rightarrow> string" where
  "tab_line s = CHR 0x09 # s @ newline"

definition help_text :: string where
  "help_text = ''..:: AVAILABLE COMMANDS ::..'' @ newline @
     tab_line ''-addsource [worker type] [source IP] [destination Port] :: adds a flow as a source'' @
     tab_line ''-remsource [flowId] :: deletes a source'' @
     tab_line ''-adddestination [source flowId] [destination IP] [destination Port] :: adds a destination of a source'' @
     tab_line ''-remdestination [source flowId] [flowId] :: deletes a destination'' @
     tab_line ''-printm :: printManagement'' @
     tab_line ''-printf :: printForwarding'' @
     tab_line ''-printp :: printPortFd'' @
     newline @ newline"

text \<open>
  The result is whether the program ends (\<^verbatim>\<open>exit (0)\<close>). The first argument is what the command \<^verbatim>\<open>help\<close>
  writes: the console prints the help text, the web service builds it and drops it.
\<close>

definition run_command :: "string \<Rightarrow> 'k env \<Rightarrow> bool \<Rightarrow> command \<Rightarrow> 'k cstate \<Rightarrow> (bool \<times> 'k cstate) res" where
  "run_command hlp E dbg cmd st =
     (let go_on = (\<lambda>m. bindE m (\<lambda>st1. Inr (False, st1))) in
      case cmd of
        NoCommand \<Rightarrow> Inr (False, st)
      | AddSource t ip port \<Rightarrow>
          go_on (log_debug dbg (\<lambda>s. cl_addSource E t (flowId (fst s)) ip port s) st)
      | RemSource l \<Rightarrow> go_on (log_debug dbg (\<lambda>s. bindE (atoi l) (\<lambda>i. cl_removeSource E i s)) st)
      | AddDestination flow ip port \<Rightarrow>
          go_on (log_debug dbg (\<lambda>s. cl_addDestination E flow (flowId (fst s)) ip port s) st)
      | RemDestination flow flow2 \<Rightarrow> go_on (log_debug dbg (cl_removeDestination E flow flow2) st)
      | RemIp \<Rightarrow> Inr (False, put_out newline st)
      | PrintM \<Rightarrow> go_on (log_print dbg (Manager_printManagement E) st)
      | PrintF \<Rightarrow> go_on (log_print dbg (Manager_printForwarding E) st)
      | PrintP \<Rightarrow> go_on (log_print dbg (Manager_printPortFd E) st)
      | HelpCommand \<Rightarrow> Inr (False, put_out hlp st)
      | ExitCommand \<Rightarrow> Inr (True, st)
      | BadCommand line \<Rightarrow>
          Inr (False, put_out (''Bad command: '' @ line @ newline @ newline @ help_text) st))"

definition execute :: "'k env \<Rightarrow> bool \<Rightarrow> string \<Rightarrow> 'k cstate \<Rightarrow> (bool \<times> 'k cstate) res" where
  "execute E dbg line st = bindE (parse_line line) (\<lambda>cmd. run_command help_text E dbg cmd st)"

text \<open>\<^verbatim>\<open>main\<close> of the console: the lines are the input up to its end.\<close>

fun read_loop :: "'k env \<Rightarrow> bool \<Rightarrow> string list \<Rightarrow> 'k cstate \<Rightarrow> 'k cstate res" where
  "read_loop E dbg [] st = Inr st"
| "read_loop E dbg (line # ls) st =
     bindE (execute E dbg line st) (\<lambda>(ended, st1). if ended then Inr st1 else read_loop E dbg ls st1)"

definition cl_main :: "'k env \<Rightarrow> bool \<Rightarrow> string list \<Rightarrow> 'k \<Rightarrow> 'k cstate res" where
  "cl_main E dbg input k =
     read_loop E dbg input
       (\<lparr>sm = Manager_new, flowId = 100, cout = ''Basic command line strManager'' @ newline\<rparr>, k)"

end
