(* ===== verification/Console_Spec.thy ===== *)
theory Console_Spec
  imports Console Manager_Contract
begin

text \<open>
  What the command interpreter promises: reading a line never throws and inverts the way a client
  writes a command, and a session keeps the manager consistent, with every source under an
  identifier the session has handed out.
\<close>

section \<open>Strings\<close>

lemma str_find_None: "str_find c s = None \<longleftrightarrow> c \<notin> set s"
  by (induction s) auto

lemma str_find_less: "str_find c s = Some n \<Longrightarrow> n < length s"
  by (induction s arbitrary: n) (auto split: if_splits)

lemma str_find_last_less: "str_find_last c s = Some n \<Longrightarrow> n < length s"
  by (induction s arbitrary: n) (auto split: if_splits option.splits)

lemma after_find_le:
  "after_pos (str_find c s) \<le> length s" "after_pos (str_find_last c s) \<le> length s"
  using str_find_less [of c s] str_find_last_less [of c s]
  by (cases "str_find c s"; cases "str_find_last c s"; force)+

lemma substr_from_find [simp]:
  "substr_from (after_pos (str_find c s)) s = Inr (drop (after_pos (str_find c s)) s)"
  "substr_from (after_pos (str_find_last c s)) s = Inr (drop (after_pos (str_find_last c s)) s)"
  by (simp_all add: substr_from_def after_find_le)

lemma str_find_append:
  "c \<notin> set s \<Longrightarrow> str_find c (s @ c # t) = Some (length s)"
  by (induction s) auto

lemma str_find_last_append:
  "c \<notin> set t \<Longrightarrow> str_find_last c (s @ c # t) = Some (length s)"
proof (induction s)
  case Nil
  then have "str_find_last c t = None"
    by (induction t) (auto split: option.splits)
  then show ?case by simp
qed simp

lemma str_find_last_None: "c \<notin> set t \<Longrightarrow> str_find_last c t = None"
  by (induction t) auto

lemma line_count_eq: "line_count line c = int (length (filter (\<lambda>d. d = c) line))"
proof -
  have "fold (\<lambda>d i. if d = c then i + 1 else i) line n = n + int (length (filter (\<lambda>d. d = c) line))" for n :: int
    by (induction line arbitrary: n) simp_all
  then show ?thesis by (simp add: line_count_def)
qed

section \<open>\<^verbatim>\<open>atoi\<close> reads what an output stream prints\<close>

lemma digit_char: "d < 10 \<Longrightarrow> is_digit (digit_char d) \<and> of_char (digit_char d) = 48 + d"
  by (simp add: is_digit_def digit_char_def)

lemma show_nat_digits: "c \<in> set (show_nat n) \<Longrightarrow> is_digit c"
proof (induction n rule: show_nat.induct)
  case (1 n)
  show ?case
  proof (cases "n < 10")
    case True
    then have "show_nat n = [digit_char n]" by (subst show_nat.simps) simp
    then show ?thesis using 1(2) True by (simp add: digit_char)
  next
    case False
    then have "show_nat n = show_nat (n div 10) @ [digit_char (n mod 10)]" by (subst show_nat.simps) simp
    then show ?thesis using 1 False by (auto simp: digit_char)
  qed
qed

lemma decimal_append: "(\<And>c. c \<in> set s \<Longrightarrow> is_digit c) \<Longrightarrow> decimal n (s @ t) = decimal (decimal n s) t"
  by (induction s arbitrary: n) auto

lemma decimal_show_nat: "decimal 0 (show_nat m) = m"
proof (induction m rule: show_nat.induct)
  case (1 m)
  show ?case
  proof (cases "m < 10")
    case True
    then have "show_nat m = [digit_char m]" by (subst show_nat.simps) simp
    then show ?thesis using True by (simp add: digit_char)
  next
    case False
    then have "show_nat m = show_nat (m div 10) @ [digit_char (m mod 10)]" by (subst show_nat.simps) simp
    then show ?thesis
      using 1 False decimal_append [of "show_nat (m div 10)", OF show_nat_digits] by (simp add: digit_char)
  qed
qed

lemma digit_facts: "is_digit c \<Longrightarrow> \<not> is_space c \<and> c \<noteq> CHR ''-'' \<and> c \<noteq> CHR ''+'' \<and> c \<noteq> CHR '' '' \<and> c \<noteq> CHR 0x00"
  by (auto simp: is_digit_def is_space_def)

lemma show_nat_Cons: "\<exists>c s. show_nat n = c # s \<and> is_digit c"
proof (cases "show_nat n")
  case Nil
  then have False by (subst (asm) show_nat.simps) (simp split: if_splits)
  then show ?thesis ..
next
  case (Cons c s)
  then show ?thesis using show_nat_digits [of c n] by simp
qed

lemma atoi_show_int:
  assumes "fits_int i"
  shows "atoi (show_int i) = Inr i"
proof (cases "i < 0")
  case True
  have "atoi (show_int i) = (if fits_int i then Inr i else Inl NotRepresentable)"
    using True decimal_show_nat [of "nat (- i)"] by (simp add: atoi_def show_int_def is_space_def)
  then show ?thesis using assms by simp
next
  case False
  obtain c s where c: "show_nat (nat i) = c # s" "is_digit c" using show_nat_Cons by blast
  have "atoi (show_int i) = (if fits_int i then Inr i else Inl NotRepresentable)"
    using False decimal_show_nat [of "nat i"] digit_facts [OF c(2)]
    by (simp add: atoi_def show_int_def c(1))
  then show ?thesis using assms by simp
qed

lemma show_int_chars: "CHR '' '' \<notin> set (show_int i)" "CHR 0x00 \<notin> set (show_int i)"
proof -
  have "c \<notin> set (show_nat n)" if "c = CHR '' '' \<or> c = CHR 0x00" for c n
    using that digit_facts show_nat_digits by blast
  then show "CHR '' '' \<notin> set (show_int i)" "CHR 0x00 \<notin> set (show_int i)"
    by (simp_all add: show_int_def)
qed

section \<open>Reading a line\<close>

text \<open>A line that starts with a word and has spaces after it is longer than the word.\<close>

lemma substr_after_word:
  assumes "take n line = w" and "n = length w" and "m = Suc n" and "CHR '' '' \<notin> set w"
    and "line_count line (CHR '' '') > 0"
  shows "substr_from m line = Inr (drop m line)"
proof -
  have "filter (\<lambda>d. d = CHR '' '') (take n line) = []"
    using assms(1,4) by (auto simp: filter_empty_conv)
  then have "filter (\<lambda>d. d = CHR '' '') line = filter (\<lambda>d. d = CHR '' '') (drop n line)"
    by (metis append_Nil append_take_drop_id filter_append)
  then have "drop n line \<noteq> []" using assms(5) by (auto simp: line_count_eq)
  then show ?thesis by (simp add: substr_from_def assms(3))
qed

lemma atoi_error: "atoi s = Inl e \<Longrightarrow> e = NotRepresentable"
  by (auto simp: atoi_def Let_def split: if_splits)

lemma parse_words:
  "take 9 line = ''addsource'' \<Longrightarrow> line_count line (CHR '' '') = 3 \<Longrightarrow> substr_from 10 line = Inr (drop 10 line)"
  "take 9 line = ''remsource'' \<Longrightarrow> line_count line (CHR '' '') = 1 \<Longrightarrow> substr_from 10 line = Inr (drop 10 line)"
  "take 14 line = ''adddestination'' \<Longrightarrow> line_count line (CHR '' '') = 3 \<Longrightarrow> substr_from 15 line = Inr (drop 15 line)"
  "take 14 line = ''remdestination'' \<Longrightarrow> line_count line (CHR '' '') = 2 \<Longrightarrow> substr_from 15 line = Inr (drop 15 line)"
  "take 5 line = ''remip'' \<Longrightarrow> line_count line (CHR '' '') = 1 \<Longrightarrow> substr_from 6 line = Inr (drop 6 line)"
  by (erule substr_after_word; simp)+

lemma parse_line_safe: "parse_line line = Inl e \<Longrightarrow> e = NotRepresentable"
  by (auto simp: parse_line_def parse_addsource_def parse_adddestination_def parse_remdestination_def
      parse_words bindE_Inl_iff dest: atoi_error split: if_splits)

text \<open>A client that prints the arguments of a command gets exactly that command.\<close>

definition word_text :: "string \<Rightarrow> bool" where
  "word_text s \<longleftrightarrow> CHR '' '' \<notin> set s \<and> CHR 0x00 \<notin> set s"

lemma word_show_int [simp]: "word_text (show_int i)"
  by (simp add: word_text_def show_int_chars)

lemma word_no_space: "word_text s \<Longrightarrow> filter (\<lambda>d. d = CHR '' '') s = []"
  by (auto simp: word_text_def filter_empty_conv)

lemmas find_word = str_find_append str_find_last_append show_int_chars

lemma parse_addsource_line:
  assumes "fits_int t" and "fits_int p" and "word_text ip"
  shows "parse_line (''addsource '' @ show_int t @ '' '' @ ip @ '' '' @ show_int p) = Inr (AddSource t ip p)"
proof -
  let ?line = "''addsource '' @ show_int t @ '' '' @ ip @ '' '' @ show_int p"
  have n: "line_count ?line (CHR '' '') = 3"
    using assms(3) by (simp add: line_count_eq word_no_space)
  have l1: "substr_from 10 ?line = Inr (show_int t @ CHR '' '' # ip @ CHR '' '' # show_int p)"
    by (simp add: substr_from_def)
  have "parse_addsource ?line = Inr (AddSource t ip p)"
    unfolding parse_addsource_def l1 bindE.simps substr_from_find
    using assms by (simp add: find_word atoi_show_int c_str_id word_text_def)
  then show ?thesis using n by (simp add: parse_line_def)
qed

lemma parse_adddestination_line:
  assumes "fits_int i" and "fits_int p" and "word_text ip"
  shows "parse_line (''adddestination '' @ show_int i @ '' '' @ ip @ '' '' @ show_int p) =
    Inr (AddDestination i ip p)"
proof -
  let ?line = "''adddestination '' @ show_int i @ '' '' @ ip @ '' '' @ show_int p"
  have n: "line_count ?line (CHR '' '') = 3"
    using assms(3) by (simp add: line_count_eq word_no_space)
  have l1: "substr_from 15 ?line = Inr (show_int i @ CHR '' '' # ip @ CHR '' '' # show_int p)"
    by (simp add: substr_from_def)
  have "parse_adddestination ?line = Inr (AddDestination i ip p)"
    unfolding parse_adddestination_def l1 bindE.simps substr_from_find
    using assms by (simp add: find_word atoi_show_int c_str_id word_text_def)
  then show ?thesis using n by (simp add: parse_line_def)
qed

lemma parse_remsource_line: "parse_line (''remsource '' @ show_int i) = Inr (RemSource (show_int i))"
proof -
  have "line_count (''remsource '' @ show_int i) (CHR '' '') = 1"
    by (simp add: line_count_eq word_no_space)
  then show ?thesis by (simp add: parse_line_def substr_from_def)
qed

lemma parse_remdestination_line:
  assumes "fits_int i" and "fits_int d"
  shows "parse_line (''remdestination '' @ show_int i @ '' '' @ show_int d) = Inr (RemDestination i d)"
proof -
  let ?line = "''remdestination '' @ show_int i @ '' '' @ show_int d"
  have n: "line_count ?line (CHR '' '') = 2" by (simp add: line_count_eq word_no_space)
  have l1: "substr_from 15 ?line = Inr (show_int i @ CHR '' '' # show_int d)"
    by (simp add: substr_from_def)
  have "parse_remdestination ?line = Inr (RemDestination i d)"
    unfolding parse_remdestination_def l1 bindE.simps substr_from_find
    using assms by (simp add: find_word atoi_show_int)
  then show ?thesis using n by (simp add: parse_line_def)
qed

section \<open>A session\<close>

text \<open>The sources a session has registered carry identifiers it has handed out.\<close>

definition console_ok :: "('k \<Rightarrow> int set) \<Rightarrow> 'k cstate \<Rightarrow> bool" where
  "console_ok opn st \<longleftrightarrow>
     (case st of (c, k) \<Rightarrow> manager_ok opn (sm c) k \<and> 100 \<le> flowId c \<and>
        (\<forall>i. manager_abs (sm c) i \<noteq> None \<longrightarrow> 100 \<le> i \<and> i < flowId c))"

text \<open>What the interpreter does not check itself.\<close>

fun admissible :: "command \<Rightarrow> bool" where
  "admissible (AddSource t ip port) \<longleftrightarrow> t \<noteq> RTCP_WORKER_TYPE \<and> valid_port port"
| "admissible _ \<longleftrightarrow> True"

lemma console_ok_new: "console_ok opn (\<lparr>sm = Manager_new, flowId = 100, cout = s\<rparr>, k)"
  by (simp add: console_ok_def manager_ok_new)

lemma console_ok_put_out: "console_ok opn (put_out s st) = console_ok opn st"
  by (simp add: console_ok_def put_out_def split: prod.split)

lemma next_flow_ok: "within {SignedOverflow} (next_flow c) (\<lambda>c1. c1 = c\<lparr>flowId := flowId c + 1\<rparr>)"
  by (simp add: next_flow_def)

section \<open>Printing\<close>

lemma print_lists_safe:
  "\<forall>i r. (i, Some r) \<in> set es \<longrightarrow> source (store w r) \<noteq> None \<Longrightarrow>
     ensures (print_lists E w es) (\<lambda>_. True)"
proof (induction es)
  case (Cons e es)
  obtain i b where e: "e = (i, b)" by (cases e)
  have tl: "ensures (print_lists E w es) (\<lambda>_. True)" using Cons by auto
  show ?case
  proof (cases b)
    case None
    then show ?thesis using tl by (simp add: e)
  next
    case (Some r)
    then obtain u where "source (store w r) = Some u" using Cons.prems e by auto
    then show ?thesis using tl Some by (simp add: e printList_of_def)
  qed
qed simp

lemma printManagement_safe:
  assumes "routes_inv w"
  shows "ensures (printManagement E w) (\<lambda>_. True)"
proof -
  have "source (store w r) \<noteq> None" if "(i, Some r) \<in> set (iiter (key_order E) (management w))" for i r
    using routes_entry [OF assms iiter_find [OF that]] by (auto simp: list_conforms_def)
  then have "ensures (print_lists E w (iiter (key_order E) (management w))) (\<lambda>_. True)"
    by (intro print_lists_safe) blast
  then show ?thesis by (simp add: printManagement_def)
qed

lemma print_workers_within:
  assumes "\<And>i q. (i, q) \<in> set es \<Longrightarrow> \<exists>r. q = Some r \<and> within errs (pr (ws r)) (\<lambda>_. True)"
  shows "within errs (print_workers pr ws es) (\<lambda>_. True)"
  using assms
proof (induction pr ws es rule: print_workers.induct)
  case (2 pr ws i q es)
  then obtain r where "q = Some r" "within errs (pr (ws r)) (\<lambda>_. True)" by force
  with 2 show ?case by (auto elim!: within_mono)
qed simp

lemma print_ports_within: "within {OutOfBounds} (print_ports i es) (\<lambda>_. True)"
  by (induction i es rule: print_ports.induct) (auto simp: literal_at_def)

lemma manager_prints:
  assumes "manager_ok opn M k"
  shows "ensures (Manager_printManagement E M) (\<lambda>_. True)"
    and "ensures (Manager_printForwarding E M) (\<lambda>_. True)"
    and "within {OutOfBounds} (Manager_printPortFd E M) (\<lambda>_. True)"
proof -
  note parts = manager_okD [OF assms]
  have src: "\<exists>r. q = Some r" if "(i, q) \<in> set (iiter (key_order E) (srcIdWorker M))" for i q
    using tables_src [OF parts(2) iiter_find [OF that]] by blast
  have wid: "\<exists>r. q = Some r \<and> routes_inv (workers M r)"
    if e: "(i, q) \<in> set (iiter (key_order E) (workerIdWorker M))" for i q
  proof -
    obtain r where "q = Some r" "r < next_worker M"
      by (rule tables_wid [OF parts(2) iiter_find [OF e]])
    then show ?thesis
      using pool_member [OF parts(1)] by (auto simp: member_ok_def worker_good_def worker_ok_def)
  qed
  have "within {} (print_workers (printManagement E) (workers M)
      (iiter (key_order E) (workerIdWorker M))) (\<lambda>_. True)"
    using wid printManagement_safe by (intro print_workers_within) (fastforce simp: within_empty)
  then show "ensures (Manager_printManagement E M) (\<lambda>_. True)"
    by (simp add: Manager_printManagement_def within_empty)
  have "within {} (print_workers (\<lambda>w. Inr (printForwarding E w)) (workers M)
      (iiter (key_order E) (srcIdWorker M))) (\<lambda>_. True)"
    using src by (intro print_workers_within) fastforce
  then show "ensures (Manager_printForwarding E M) (\<lambda>_. True)"
    by (simp add: Manager_printForwarding_def within_empty)
  have "within {OutOfBounds} (printPortFd E w) (\<lambda>_. True)" for w
    using print_ports_within by (simp add: printPortFd_def)
  then have "within {OutOfBounds} (print_workers (printPortFd E) (workers M)
      (iiter (key_order E) (srcIdWorker M))) (\<lambda>_. True)"
    using src by (intro print_workers_within) fastforce
  then show "within {OutOfBounds} (Manager_printPortFd E M) (\<lambda>_. True)"
    by (simp add: Manager_printPortFd_def)
qed

section \<open>Commands keep the session consistent\<close>

lemma Manager_removeSource_always:
  assumes ok: "manager_ok opn M k" and p: "platform_ok E opn"
  shows "ensures (Manager_removeSource E i M k) (\<lambda>(ret, M', k').
    manager_ok opn M' k' \<and> (\<forall>j. manager_abs M j = None \<longrightarrow> manager_abs M' j = None))"
proof (cases "manager_abs M i")
  case None
  then show ?thesis using Manager_missing_source(1) [OF ok None] ok by simp
next
  case (Some x)
  obtain a D where "x = (a, D)" by (cases x)
  from Manager_removeSource_contract [OF ok p Some [unfolded this]] show ?thesis
    by (rule ensures_mono) auto
qed

lemma Manager_addDestination_always:
  assumes ok: "manager_ok opn M k" and p: "platform_ok E opn"
  shows "ensures (Manager_addDestination E i d ip port M k) (\<lambda>(ret, M', k').
      manager_ok opn M' k' \<and> (\<forall>j. manager_abs M' j = None \<longleftrightarrow> manager_abs M j = None))"
proof (cases "manager_abs M i")
  case None
  then show ?thesis using Manager_missing_source(2) [OF ok None] ok by simp
next
  case (Some x)
  obtain a D where "x = (a, D)" by (cases x)
  from Manager_addDestination_contract [OF ok p Some [unfolded this]] show ?thesis
    by (rule ensures_mono) (auto simp: Some split: if_splits)
qed

lemma Manager_removeDestination_always:
  assumes ok: "manager_ok opn M k" and p: "platform_ok E opn"
  shows "ensures (Manager_removeDestination E i d M k) (\<lambda>(ret, M', k').
      manager_ok opn M' k' \<and> (\<forall>j. manager_abs M' j = None \<longleftrightarrow> manager_abs M j = None))"
proof (cases "manager_abs M i")
  case None
  then show ?thesis using Manager_missing_source(3) [OF ok None] ok by simp
next
  case (Some x)
  obtain a D where "x = (a, D)" by (cases x)
  from Manager_removeDestination_contract [OF ok p Some [unfolded this]] show ?thesis
    by (rule ensures_mono) (auto simp: Some split: if_splits)
qed

lemma cl_addSource_keeps:
  assumes ok: "console_ok opn (c, k)" and p: "platform_ok E opn" and ty: "ty \<noteq> RTCP_WORKER_TYPE"
    and port: "valid_port port"
  shows "within {SignedOverflow} (cl_addSource E ty (flowId c) ip port (c, k)) (\<lambda>(ret, c', k').
    console_ok opn (c', k') \<and> flowId c' = flowId c + 1 \<and> cout c' = cout c \<and>
    (if ret = 0 then manager_abs (sm c') =
         (manager_abs (sm c))(flowId c \<mapsto> (source_addr E ip port k, Map.empty))
     else ret = -1 \<and> manager_abs (sm c') = manager_abs (sm c)))"
proof -
  have m: "manager_ok opn (sm c) k" and f: "100 \<le> flowId c"
    and ids: "\<And>i. manager_abs (sm c) i \<noteq> None \<Longrightarrow> 100 \<le> i \<and> i < flowId c"
    using ok by (auto simp: console_ok_def)
  have new: "flowId c \<noteq> 0" "manager_abs (sm c) (flowId c) = None" using f ids [of "flowId c"] by fastforce+
  let ?run = "Manager_addSource E ty (flowId c) ip port (sm c) k"
  from Manager_addSource_contract [OF m p ty new port, of ip] obtain ret M' k' where
    run: "?run = Inr (ret, M', k')" and m': "manager_ok opn M' k'"
    and eff: "if ret = 0 then manager_abs M' =
         (manager_abs (sm c))(flowId c \<mapsto> (source_addr E ip port k, Map.empty))
       else ret = -1 \<and> manager_abs M' = manager_abs (sm c)"
    by (auto simp: ensures_Inr3 split: if_splits)
  have "100 \<le> i \<and> i < flowId c + 1" if "manager_abs M' i \<noteq> None" for i
    using eff ids [of i] f that by (auto split: if_splits)
  then have "console_ok opn (c\<lparr>flowId := flowId c + 1, sm := M'\<rparr>, k')"
    using m' f by (simp add: console_ok_def)
  with run eff show ?thesis by (simp add: cl_addSource_def next_flow_def)
qed

lemma cl_others_keep:
  assumes ok: "console_ok opn st" and p: "platform_ok E opn"
  shows "within {} (cl_removeSource E i st) (\<lambda>(ret, st'). console_ok opn st')"
    and "within {SignedOverflow} (cl_addDestination E i d ip port st) (\<lambda>(ret, st'). console_ok opn st')"
    and "within {} (cl_removeDestination E i d st) (\<lambda>(ret, st'). console_ok opn st')"
proof -
  obtain c k where st: "st = (c, k)" by (cases st)
  have m: "manager_ok opn (sm c) k" and f: "100 \<le> flowId c"
    and ids: "\<And>i. manager_abs (sm c) i \<noteq> None \<Longrightarrow> 100 \<le> i \<and> i < flowId c"
    using ok by (auto simp: console_ok_def st)
  have keep: "console_ok opn (c\<lparr>flowId := n, sm := M'\<rparr>, k')"
    if "manager_ok opn M' k'" "\<forall>j. manager_abs (sm c) j = None \<longrightarrow> manager_abs M' j = None"
      "flowId c \<le> n" for n M' k'
  proof -
    have "100 \<le> j \<and> j < n" if "manager_abs M' j \<noteq> None" for j
      using that \<open>\<forall>j. _ = None \<longrightarrow> _\<close> ids [of j] \<open>flowId c \<le> n\<close> by fastforce
    then show ?thesis using that(1,3) f by (simp add: console_ok_def)
  qed
  show "within {} (cl_removeSource E i st) (\<lambda>(ret, st'). console_ok opn st')"
    using Manager_removeSource_always [OF m p, of i] keep [of _ _ "flowId c"]
    by (auto simp: cl_removeSource_def st within_empty elim!: ensures_mono)
  show "within {SignedOverflow} (cl_addDestination E i d ip port st) (\<lambda>(ret, st'). console_ok opn st')"
    using within_mono [OF ensures_within [OF Manager_addDestination_always [OF m p, of i d ip port],
          of "{SignedOverflow}"] subset_refl] keep [of _ _ "flowId c + 1"]
    by (auto simp: cl_addDestination_def next_flow_def st)
  show "within {} (cl_removeDestination E i d st) (\<lambda>(ret, st'). console_ok opn st')"
    using Manager_removeDestination_always [OF m p, of i d] keep [of _ _ "flowId c"]
    by (auto simp: cl_removeDestination_def st within_empty elim!: ensures_mono)
qed

text \<open>What a command may run into: an identifier counter at its end, a number that is no \<^verbatim>\<open>int\<close>, and the
  pointer arithmetic of \<^verbatim>\<open>Worker::printPortFd\<close>.\<close>

fun hazards :: "command \<Rightarrow> ub set" where
  "hazards (AddSource t ip port) = {SignedOverflow}"
| "hazards (AddDestination flow ip port) = {SignedOverflow}"
| "hazards (RemSource l) = {NotRepresentable}"
| "hazards PrintP = {OutOfBounds}"
| "hazards _ = {}"

lemma log_debug_within:
  assumes "within errs (m st) (\<lambda>(x, st1). console_ok opn st1)" and "console_ok opn st"
  shows "within errs (bindE (log_debug dbg m st) (\<lambda>st1. Inr (False, st1))) (\<lambda>(ended, st1). console_ok opn st1)"
  using assms by (auto simp: log_debug_def elim!: within_mono)

lemma log_print_within:
  assumes "within errs (pr (sm (fst st))) (\<lambda>_. True)" and "console_ok opn st"
  shows "within errs (bindE (log_print dbg pr st) (\<lambda>st1. Inr (False, st1))) (\<lambda>(ended, st1). console_ok opn st1)"
  unfolding log_print_def using assms(2)
  by (intro log_debug_within) (auto intro: within_mono [OF assms(1)])

lemma run_command_ok:
  assumes ok: "console_ok opn st" and p: "platform_ok E opn" and adm: "admissible cmd"
  shows "within (hazards cmd) (run_command hlp E dbg cmd st) (\<lambda>(ended, st1). console_ok opn st1)"
proof -
  obtain c k where st: "st = (c, k)" by (cases st)
  have m: "manager_ok opn (sm (fst st)) k" using ok by (simp add: console_ok_def st)
  show ?thesis
  proof (cases cmd)
    case (AddSource t ip port)
    have "within {SignedOverflow} (cl_addSource E t (flowId (fst st)) ip port st) (\<lambda>(ret, st1). console_ok opn st1)"
      using adm by (auto simp: st AddSource intro: within_mono [OF cl_addSource_keeps [OF ok [unfolded st] p]])
    from log_debug_within [of _ "\<lambda>s. cl_addSource E t (flowId (fst s)) ip port s", OF this ok]
    show ?thesis by (simp add: run_command_def AddSource)
  next
    case (RemSource l)
    have "within {NotRepresentable} (bindE (atoi l) (\<lambda>i. cl_removeSource E i st)) (\<lambda>(ret, st1). console_ok opn st1)"
      using cl_others_keep(1) [OF ok p] atoi_error [of l]
      by (cases "atoi l") (auto intro: within_mono)
    from log_debug_within [of _ "\<lambda>s. bindE (atoi l) (\<lambda>i. cl_removeSource E i s)", OF this ok]
    show ?thesis by (simp add: run_command_def RemSource)
  next
    case (AddDestination flow ip port)
    from log_debug_within [of _ "\<lambda>s. cl_addDestination E flow (flowId (fst s)) ip port s",
        OF cl_others_keep(2) [OF ok p] ok]
    show ?thesis
      by (simp add: run_command_def AddDestination)
  next
    case (RemDestination flow flow2)
    from log_debug_within [of _ "cl_removeDestination E flow flow2", OF cl_others_keep(3) [OF ok p] ok]
    show ?thesis
      by (simp add: run_command_def RemDestination)
  next
    case PrintM
    from log_print_within [of "{}" "Manager_printManagement E" st,
        OF manager_prints(1) [OF m, of E, folded within_empty] ok] show ?thesis
      by (simp add: run_command_def PrintM)
  next
    case PrintF
    from log_print_within [of "{}" "Manager_printForwarding E" st,
        OF manager_prints(2) [OF m, of E, folded within_empty] ok] show ?thesis
      by (simp add: run_command_def PrintF)
  next
    case PrintP
    from log_print_within [of "{OutOfBounds}" "Manager_printPortFd E", OF manager_prints(3) [OF m] ok] show ?thesis
      by (simp add: run_command_def PrintP)
  qed (use ok in \<open>simp_all add: run_command_def console_ok_put_out\<close>)
qed

lemma execute_ok:
  assumes "console_ok opn st" and "platform_ok E opn"
    and "\<And>cmd. parse_line line = Inr cmd \<Longrightarrow> admissible cmd"
  shows "within {NotRepresentable, SignedOverflow, OutOfBounds} (execute E dbg line st)
    (\<lambda>(ended, st1). console_ok opn st1)"
proof (cases "parse_line line")
  case (Inl e)
  then show ?thesis using parse_line_safe [of line e] by (simp add: execute_def)
next
  case (Inr cmd)
  have "hazards cmd \<subseteq> {NotRepresentable, SignedOverflow, OutOfBounds}" by (cases cmd) auto
  from within_mono [OF run_command_ok [OF assms(1,2) assms(3) [OF Inr]] this] show ?thesis
    by (simp add: execute_def Inr)
qed

lemma read_loop_ok:
  assumes "console_ok opn st" and "platform_ok E opn"
    and "\<forall>line \<in> set ls. \<forall>cmd. parse_line line = Inr cmd \<longrightarrow> admissible cmd"
  shows "within {NotRepresentable, SignedOverflow, OutOfBounds} (read_loop E dbg ls st) (console_ok opn)"
  using assms
proof (induction ls arbitrary: st)
  case (Cons line ls)
  have "within {NotRepresentable, SignedOverflow, OutOfBounds} (execute E dbg line st)
      (\<lambda>(ended, st1). console_ok opn st1)"
    using Cons.prems by (intro execute_ok) auto
  then show ?case using Cons by (auto elim!: within_mono)
qed simp

text \<open>With a logger that is not enabled for debugging, no command reaches the manager.\<close>

lemma run_command_silent:
  assumes "run_command hlp E False cmd (c, k) = Inr (ended, c', k')"
  shows "k' = k \<and> sm c' = sm c \<and> flowId c' = flowId c"
  using assms
  by (cases cmd) (auto simp: run_command_def log_debug_def log_print_def put_out_def)

end
