(* ===== verification/Examples.thy ===== *)
theory Examples
  imports Console "HOL-Library.Word"
begin

text \<open>
  The other example programs: \<^verbatim>\<open>BC_strManager\<close> sends one source to three destinations,
  \<^verbatim>\<open>ZAP_strManager\<close> moves one destination through three sources, \<^verbatim>\<open>WS_strManager\<close> offers the
  operations of the manager and the command interpreter as a web service. \<^verbatim>\<open>argv\<close> is a list of
  strings; what the programs write to the console is a string.
\<close>

section \<open>Broadcast\<close>

text \<open>A program ends with an exit code or stays in its endless loop.\<close>

datatype outcome = Exited int | Endless

definition bc_usage :: string where
  "bc_usage = ''usage:'' @ newline @
     ''BC_strManager [source IP1] [MCU port1]'' @ newline @
     ''              [destination2 IP2] [destination port2]'' @ newline @
     ''              [destination3 IP3] [destination port3]'' @ newline @
     ''              [destination4 IP4] [destination port4]'' @ newline"

definition wrong_number :: "string list \<Rightarrow> string" where
  "wrong_number argv = ''Number of parameters = '' @ show_int (int (length argv) - 1) @ newline"

definition error_text :: string where
  "error_text = ''Some error has ocurred. See log file!'' @ newline"

definition host_text :: "string list \<Rightarrow> nat \<Rightarrow> string" where
  "host_text argv n = argv ! n @ '':'' @ argv ! (n + 1)"

type_synonym 'k prog_result = "(outcome \<times> string \<times> manager \<times> 'k) res"

definition bc_main :: "'k env \<Rightarrow> string list \<Rightarrow> 'k \<Rightarrow> 'k prog_result" where
  "bc_main E argv k =
     (if length argv \<noteq> 9 then Inr (Exited (-1), wrong_number argv @ bc_usage, Manager_new, k)
      else
        let out = ''Broadcast strManager'' @ newline @ newline in
        bindE (atoi (argv ! 2)) (\<lambda>p1.
        bindE (Manager_addSource E 1 0 (argv ! 1) p1 Manager_new k) (\<lambda>(r1, M1, k1).
        bindE (atoi (argv ! 4)) (\<lambda>p2.
        bindE (Manager_addDestination E 0 1 (argv ! 3) p2 M1 k1) (\<lambda>(r2, M2, k2).
        bindE (atoi (argv ! 6)) (\<lambda>p3.
        bindE (Manager_addDestination E 0 2 (argv ! 5) p3 M2 k2) (\<lambda>(r3, M3, k3).
        bindE (atoi (argv ! 8)) (\<lambda>p4.
        bindE (Manager_addDestination E 0 3 (argv ! 7) p4 M3 k3) (\<lambda>(r4, M4, k4).
          if r1 + r2 + r3 + r4 \<noteq> 0 then Inr (Exited (-2), out @ error_text, M4, k4)
          else Inr (Endless,
            out @ ''Source:'' @ newline @ host_text argv 1 @ newline @ newline @
            ''Destinations:'' @ newline @ host_text argv 3 @ newline @ host_text argv 5 @ newline @
            host_text argv 7 @ newline @ newline @
            ''Continuous program. Control^C to interrupt it.'' @ newline, M4, k4))))))))))"

section \<open>Zapping\<close>

definition zap_usage :: string where
  "zap_usage = ''usage:'' @ newline @
     ''ZAP_strManager [source1 IP1] [MCU port1] [source2 IP2] [MCU port2]'' @ newline @
     ''[source3 IP3] [MCU port3] [destination IP4] [destination port4]'' @ newline"

text \<open>One change of the channel; the sum of the return codes counts the failures.\<close>

definition zap_switch ::
    "'k env \<Rightarrow> string \<Rightarrow> string \<Rightarrow> int \<Rightarrow> int \<Rightarrow> manager \<Rightarrow> 'k \<Rightarrow> (int \<times> int \<times> manager \<times> 'k) res" where
  "zap_switch E ip port res actual M k =
     bindE (Manager_removeDestination E actual 3 M k) (\<lambda>(r1, M1, k1).
       let actual' = (actual + 1) mod 3 in
       bindE (atoi port) (\<lambda>p.
       bindE (Manager_addDestination E actual' 3 ip p M1 k1) (\<lambda>(r2, M2, k2).
         Inr (res + r1 + r2, actual', M2, k2))))"

text \<open>
  Standard input: the characters left, and whether the stream is still good. \<^verbatim>\<open>getline\<close> on a good stream
  replaces the line by the characters up to the next line feed; when there is none it takes all of them,
  and the stream is no longer good. On a stream that is not good it fails before it touches the line.
\<close>

record istream =
  chars :: string
  good_stream :: bool

definition next_line :: "string \<Rightarrow> istream \<Rightarrow> string \<times> istream" where
  "next_line line s =
     (if \<not> good_stream s then (line, s)
      else (takeWhile (\<lambda>c. c \<noteq> CHR 0x0A) (chars s),
        \<lparr>chars = drop 1 (dropWhile (\<lambda>c. c \<noteq> CHR 0x0A) (chars s)), good_stream = CHR 0x0A \<in> set (chars s)\<rparr>))"

text \<open>The loop, cut off after a number of rounds. The program does not look at the state of the stream.\<close>

fun zap_loop ::
    "nat \<Rightarrow> 'k env \<Rightarrow> string \<Rightarrow> string \<Rightarrow> string \<times> istream \<Rightarrow> int \<Rightarrow> int \<Rightarrow> string \<Rightarrow> manager \<Rightarrow> 'k \<Rightarrow>
     (outcome \<times> int \<times> string \<times> manager \<times> 'k) res" where
  "zap_loop 0 E ip port (line0, input) res actual out M k = Inr (Endless, actual, out, M, k)"
| "zap_loop (Suc n) E ip port (line0, input) res actual out M k =
     (case next_line line0 input of (line, input') \<Rightarrow>
       let out1 = out @ ''Actual channel = '' @ show_int actual in
       if line = [] then
         let out2 = out1 @ ''Changing channel...'' @ newline in
         bindE (zap_switch E ip port res actual M k) (\<lambda>(res', actual', M', k').
           if res' \<noteq> 0 then Inr (Exited (-2), actual', out2 @ error_text, M', k')
           else zap_loop n E ip port (line, input') res' actual' out2 M' k')
       else zap_loop n E ip port (line, input') res actual out1 M k)"

definition zap_main :: "nat \<Rightarrow> 'k env \<Rightarrow> string list \<Rightarrow> string \<Rightarrow> 'k \<Rightarrow> 'k prog_result" where
  "zap_main n E argv input k =
     (if length argv \<noteq> 9 then Inr (Exited (-1), wrong_number argv @ zap_usage, Manager_new, k)
      else
        let out = ''Zapping strManager'' @ newline in
        bindE (atoi (argv ! 2)) (\<lambda>p1.
        bindE (Manager_addSource E 1 0 (argv ! 1) p1 Manager_new k) (\<lambda>(r1, M1, k1).
        bindE (atoi (argv ! 4)) (\<lambda>p2.
        bindE (Manager_addSource E 1 1 (argv ! 3) p2 M1 k1) (\<lambda>(r2, M2, k2).
        bindE (atoi (argv ! 6)) (\<lambda>p3.
        bindE (Manager_addSource E 1 2 (argv ! 5) p3 M2 k2) (\<lambda>(r3, M3, k3).
        bindE (atoi (argv ! 8)) (\<lambda>p4.
        bindE (Manager_addDestination E 0 3 (argv ! 7) p4 M3 k3) (\<lambda>(r4, M4, k4).
          if r1 + r2 + r3 + r4 \<noteq> 0 then Inr (Exited (-2), out @ error_text, M4, k4)
          else bindE (zap_loop n E (argv ! 7) (argv ! 8) ([], \<lparr>chars = input, good_stream = True\<rparr>) 0 0
            (out @ ''Sources:'' @ newline @ host_text argv 1 @ newline @ host_text argv 3 @ newline @
             host_text argv 5 @ newline @ newline @ ''Destination:'' @ newline @ host_text argv 7 @
             newline @ newline @ ''Press enter to change channel...'' @ newline) M4 k4)
            (\<lambda>(o1, actual, out1, M5, k5). Inr (o1, out1, M5, k5)))))))))))"

section \<open>Web service\<close>

text \<open>
  A parameter of a service method is a pointer that the runtime leaves null when the request does
  not carry the element; a \<^verbatim>\<open>xsd__string*\<close> that is not null points to a pointer to a string.
\<close>

fun deref_arg :: "'a option \<Rightarrow> 'a res" where
  "deref_arg None = Inl NullDeref"
| "deref_arg (Some x) = Inr x"

definition SOAP_OK :: int where "SOAP_OK = 0"

definition ws_usage :: string where
  "ws_usage = ''usage: '' @ newline @ ''WS_strManager [listen_port]'' @ newline @ newline"

text \<open>\<^verbatim>\<open>execute\<close> of the service: a copy of the console's, but the command \<^verbatim>\<open>help\<close> writes nothing.\<close>

definition ws_execute :: "'k env \<Rightarrow> bool \<Rightarrow> string \<Rightarrow> 'k cstate \<Rightarrow> (bool \<times> 'k cstate) res" where
  "ws_execute E dbg line st = bindE (parse_line line) (\<lambda>cmd. run_command [] E dbg cmd st)"

definition ns_command ::
    "'k env \<Rightarrow> bool \<Rightarrow> string option \<Rightarrow> 'k cstate \<Rightarrow> (bool \<times> int \<times> bool \<times> 'k cstate) res" where
  "ns_command E dbg command st =
     bindE (deref_arg command) (\<lambda>line.
     bindE (ws_execute E dbg (c_str line) st) (\<lambda>(ended, st1). Inr (ended, SOAP_OK, True, st1)))"

definition ns_addSource ::
    "'k env \<Rightarrow> int option \<Rightarrow> int option \<Rightarrow> string option \<Rightarrow> int option \<Rightarrow> 'k cstate \<Rightarrow>
     (int \<times> int \<times> 'k cstate) res" where
  "ns_addSource E workerType src_id ip port st =
     bindE (deref_arg workerType) (\<lambda>t. bindE (deref_arg src_id) (\<lambda>i.
     bindE (deref_arg ip) (\<lambda>a. bindE (deref_arg port) (\<lambda>p.
     bindE (cl_addSource E t i (c_str a) p st) (\<lambda>(result, st1). Inr (SOAP_OK, result, st1))))))"

definition ns_removeSource :: "'k env \<Rightarrow> int option \<Rightarrow> 'k cstate \<Rightarrow> (int \<times> int \<times> 'k cstate) res" where
  "ns_removeSource E src_id st =
     bindE (deref_arg src_id) (\<lambda>i.
     bindE (cl_removeSource E i st) (\<lambda>(result, st1). Inr (SOAP_OK, result, st1)))"

text \<open>
  \<^verbatim>\<open>(char*) ip\<close> where the others have \<^verbatim>\<open>(char*) *ip\<close>: the bytes of the pointer itself are taken for the
  address. They are a parameter, \<open>raw\<close>, read up to the first zero byte. A null pointer is read as an
  address when the manager knows the source.
\<close>

definition ns_addDestination ::
    "'k env \<Rightarrow> int option \<Rightarrow> int option \<Rightarrow> string \<Rightarrow> string option \<Rightarrow> int option \<Rightarrow> 'k cstate \<Rightarrow>
     (int \<times> int \<times> 'k cstate) res" where
  "ns_addDestination E src_id dest_id raw ip port st =
     bindE (deref_arg src_id) (\<lambda>i. bindE (deref_arg dest_id) (\<lambda>d. bindE (deref_arg port) (\<lambda>p.
     if ip = None \<and> icount (srcIdWorker (sm (fst st))) i > 0 then Inl NullDeref
     else bindE (cl_addDestination E i d (c_str raw) p st) (\<lambda>(result, st1).
       Inr (SOAP_OK, result, st1)))))"

definition ns_removeDestination ::
    "'k env \<Rightarrow> int option \<Rightarrow> int option \<Rightarrow> 'k cstate \<Rightarrow> (int \<times> int \<times> 'k cstate) res" where
  "ns_removeDestination E src_id dest_id st =
     bindE (deref_arg src_id) (\<lambda>i. bindE (deref_arg dest_id) (\<lambda>d.
     bindE (cl_removeDestination E i d st) (\<lambda>(result, st1). Inr (SOAP_OK, result, st1))))"

text \<open>
  The print methods return a pointer into a temporary string, which is destroyed at the end of the
  statement, before the runtime reads the result.
\<close>

datatype char_ptr = Valid string | Dangling

fun read_ptr :: "char_ptr \<Rightarrow> string res" where
  "read_ptr (Valid s) = Inr (c_str s)"
| "read_ptr Dangling = Inl BadPointer"

definition c_str_of_temporary :: "string \<Rightarrow> char_ptr" where
  "c_str_of_temporary s = Dangling"

definition ns_printManagement :: "'k env \<Rightarrow> 'k cstate \<Rightarrow> (int \<times> char_ptr) res" where
  "ns_printManagement E st =
     bindE (Manager_printManagement E (sm (fst st))) (\<lambda>s. Inr (SOAP_OK, c_str_of_temporary s))"

definition ns_printForwarding :: "'k env \<Rightarrow> 'k cstate \<Rightarrow> (int \<times> char_ptr) res" where
  "ns_printForwarding E st =
     bindE (Manager_printForwarding E (sm (fst st))) (\<lambda>s. Inr (SOAP_OK, c_str_of_temporary s))"

definition ns_printPortFd :: "'k env \<Rightarrow> 'k cstate \<Rightarrow> (int \<times> char_ptr) res" where
  "ns_printPortFd E st =
     bindE (Manager_printPortFd E (sm (fst st))) (\<lambda>s. Inr (SOAP_OK, c_str_of_temporary s))"

text \<open>
  The server. The calls of the gSOAP runtime and the dispatcher it generates, which decodes a request
  and calls one of the methods above, are a record of functions.
\<close>

record 'k soap_env =
  soap_bind :: "int \<Rightarrow> 'k \<Rightarrow> int \<times> 'k"
  soap_accept :: "'k \<Rightarrow> (int \<times> 32 word) \<times> 'k"   \<comment> \<open>descriptor and \<^verbatim>\<open>soap.ip\<close>\<close>
  soap_serve :: "'k cstate \<Rightarrow> (bool \<times> int \<times> 'k cstate) res"   \<comment> \<open>\<^verbatim>\<open>exit\<close> called, code, state\<close>

unbundle bit_operations_syntax

definition byte_text :: "nat \<Rightarrow> 32 word \<Rightarrow> string" where
  "byte_text n ip = show_int (uint (drop_bit n ip AND 0xFF))"

definition accept_text :: "32 word \<Rightarrow> int \<Rightarrow> string" where
  "accept_text ip s =
     ''Message from IP = '' @ byte_text 24 ip @ ''.'' @ byte_text 16 ip @ ''.'' @ byte_text 8 ip @ ''.'' @
     byte_text 0 ip @ '' and socket = '' @ show_int s @ newline"

fun ws_loop :: "nat \<Rightarrow> 'k soap_env \<Rightarrow> 'k cstate \<Rightarrow> (outcome \<times> 'k cstate) res" where
  "ws_loop 0 S st = Inr (Endless, st)"
| "ws_loop (Suc n) S (c, k) =
     (case soap_accept S k of ((s, ip), k1) \<Rightarrow>
       if s < 0 then Inr (Exited 0, c, k1)
       else bindE (soap_serve S (put_out (accept_text ip s) (c, k1))) (\<lambda>(ended, code, st1).
         if ended then Inr (Exited 0, st1) else ws_loop n S st1))"

definition ws_main :: "nat \<Rightarrow> 'k soap_env \<Rightarrow> string list \<Rightarrow> 'k \<Rightarrow> (outcome \<times> 'k cstate) res" where
  "ws_main n S argv k =
     (let st = (\<lparr>sm = Manager_new, flowId = 100, cout = ''Starting server...'' @ newline\<rparr>, k) in
      if length argv \<noteq> 2 then Inr (Exited 0, put_out ws_usage st)
      else bindE (atoi (argv ! 1)) (\<lambda>listen_port.
        if listen_port \<le> 0 \<or> listen_port > 65535 then
          Inr (Exited (-1), put_out (''ERROR: Bad port: '' @ show_int listen_port @ '', '' @ argv ! 1 @
            newline @ newline @ ws_usage) st)
        else case st of (c, k) \<Rightarrow>
          case soap_bind S listen_port k of (m, k1) \<Rightarrow>
            if m < 0 then Inr (Exited 0, c, k1)
            else ws_loop n S (put_out (''Listening on socket '' @ show_int m @ newline) (c, k1))))"

end
