(* ===== verification/Example_Spec.thy ===== *)
theory Example_Spec
  imports Examples Manager_Contract
begin

text \<open>
  What the programs \<^verbatim>\<open>BC_strManager\<close> and \<^verbatim>\<open>ZAP_strManager\<close> make of the manager. They use the source
  identifier 0, which the contract of the manager excludes, and forwarding workers only; \<open>light_ok\<close>
  is an invariant that covers identifier 0 and says just enough to follow the destinations.
\<close>

section \<open>The lists of a worker\<close>

definition lists_ok :: "worker \<Rightarrow> bool" where
  "lists_ok w \<longleftrightarrow>
     (\<forall>i s. ifind (management w) i = Some (Some s) \<longrightarrow>
        s < next_ref w \<and> source (store w s) \<noteq> None \<and> dest_ok (store w s)) \<and>
     (\<forall>i j s. ifind (management w) i = Some (Some s) \<longrightarrow> ifind (management w) j = Some (Some s) \<longrightarrow> i = j)"

lemma lists_okD:
  assumes "lists_ok w" and "ifind (management w) i = Some (Some s)"
  shows "s < next_ref w" "source (store w s) \<noteq> None" "dest_ok (store w s)"
    and "ifind (management w) j = Some (Some s) \<Longrightarrow> j = i"
  using assms unfolding lists_ok_def by blast+

lemma lists_ok_change:
  assumes ok: "lists_ok w" and i: "ifind (management w) i = Some (Some s)"
    and l: "source l = source (store w s)" "dest_ok l"
    and w': "management w' = management w" "next_ref w' = next_ref w" "store w' = (store w)(s := l)"
  shows "lists_ok w'"
  using ok i l unfolding lists_ok_def w' by (auto simp: lists_ok_def)

text \<open>Storing a list back does not change \<open>management\<close>.\<close>

lemma addStreamList_back:
  assumes "ifind (management w) i = Some (Some s)" and "source (store w s) = Some u"
  shows "addStreamList i (Some s) w = Inr (w\<lparr>forwarding := aput (forwarding w) (addr u) i\<rparr>)"
  using assms by (simp add: addStreamList_def getSourceSockAddr_def getAddr_def um_put_same)

text \<open>What an operation on the destinations of one list leaves as it was.\<close>

definition list_frame :: "worker \<Rightarrow> nat \<Rightarrow> worker \<Rightarrow> bool" where
  "list_frame w s w' \<longleftrightarrow>
     lists_ok w' \<and> management w' = management w \<and> next_ref w' = next_ref w \<and>
     wclass w' = wclass w \<and> worker_type w' = worker_type w \<and>
     (\<forall>t. t \<noteq> s \<longrightarrow> store w' t = store w t)"

lemma light_addDestination:
  assumes ok: "lists_ok w" and i: "ifind (management w) i = Some (Some s)"
  shows "\<exists>w'. addDestination E i d ip port w k = Inr (w', k) \<and> list_frame w s w' \<and>
    dest_map (store w' s) = (if dest_map (store w s) d = None
      then (dest_map (store w s))(d \<mapsto> source_addr E ip port k) else dest_map (store w s))"
proof -
  note ent = lists_okD [OF ok i]
  obtain u where u: "source (store w s) = Some u" using ent(2) by auto
  define v where "v = setAddr E ip port (setId d (UdpStream_new E 0 k))"
  have v: "getId v = d" "getAddr v = source_addr E ip port k" by (simp_all add: v_def getAddr_def)
  obtain added l where al: "addDestination_list v (store w s) = (added, l)" by fastforce
  have keep: "source l = source (store w s)" using al by (auto simp: addDestination_list_def split: if_splits)
  have okl: "dest_ok l" using dl.add_ok [OF ent(3), of v] al by simp
  let ?w = "set_list s l w"
  have w: "management ?w = management w" "next_ref ?w = next_ref w" "store ?w = (store w)(s := l)"
    by (simp_all add: set_list_def)
  have again: "addStreamList i (Some s) ?w = Inr (?w\<lparr>forwarding := aput (forwarding ?w) (addr u) i\<rparr>)"
    by (rule addStreamList_back) (simp_all add: w i keep u)
  have m: "dest_map l = (if dest_map (store w s) d = None
      then (dest_map (store w s))(d \<mapsto> source_addr E ip port k) else dest_map (store w s))"
    using dl.look_add [of v "store w s"] al by (auto simp: v dest_map_None [symmetric] fun_eq_iff)
  define w' where "w' = (if added then ?w\<lparr>forwarding := aput (forwarding ?w) (addr u) i\<rparr> else ?w)"
  have run: "addDestination E i d ip port w k = Inr (w', k)"
    using al again by (simp add: addDestination_def Let_def getStreamList_live [OF i] v_def [symmetric] w'_def)
  have "lists_ok w'"
    by (rule lists_ok_change [OF ok i keep okl]) (simp_all add: w'_def w)
  then have "list_frame w s w'" by (simp add: list_frame_def w'_def set_list_def)
  moreover have "store w' s = l" by (simp add: w'_def w)
  ultimately show ?thesis using run m by auto
qed

lemma light_removeDestination:
  assumes ok: "lists_ok w" and i: "ifind (management w) i = Some (Some s)"
  shows "\<exists>w'. removeDestination E i d w k = Inr (w', k) \<and> list_frame w s w' \<and>
    dest_map (store w' s) = (dest_map (store w s))(d := None)"
proof (cases "existDestination d (store w s)")
  case False
  then have "(dest_map (store w s))(d := None) = dest_map (store w s)"
    using dest_map_None [of "store w s" d] by auto
  moreover have "removeDestination E i d w k = Inr (w, k)"
    using False by (simp add: removeDestination_def getStreamList_live [OF i])
  ultimately show ?thesis using ok by (auto simp: list_frame_def)
next
  case True
  note ent = lists_okD [OF ok i]
  obtain u where u: "source (store w s) = Some u" using ent(2) by auto
  obtain l where l: "remDestination d (store w s) = Inr (True, l)" "dest_ok l"
      "dest_map l = (dest_map (store w s))(d := None)"
    using dl.rem_present [OF ent(3) True] by blast
  have keep: "source l = source (store w s)"
    using l(1) by (auto simp: remDestination_eq erase_it_def split: if_splits)
  let ?w = "set_list s l w"
  have w: "management ?w = management w" "next_ref ?w = next_ref w" "store ?w = (store w)(s := l)"
    by (simp_all add: set_list_def)
  define w' where "w' = ?w\<lparr>forwarding := aput (forwarding ?w) (addr u) i\<rparr>"
  have "addStreamList i (Some s) ?w = Inr w'"
    unfolding w'_def by (rule addStreamList_back) (simp_all add: w i keep u)
  then have run: "removeDestination E i d w k = Inr (w', k)"
    using True l(1) by (simp add: removeDestination_def getStreamList_live [OF i])
  have "lists_ok w'"
    by (rule lists_ok_change [OF ok i keep l(2)]) (simp_all add: w'_def w)
  then have "list_frame w s w'" by (simp add: list_frame_def w'_def set_list_def)
  moreover have "store w' s = l" by (simp add: w'_def w)
  ultimately show ?thesis using run l(3) by auto
qed

lemma lists_ok_same:
  "lists_ok w \<Longrightarrow> management w' = management w \<Longrightarrow> next_ref w' = next_ref w \<Longrightarrow> store w' = store w \<Longrightarrow>
     lists_ok w'"
  by (simp add: lists_ok_def)

lemma lists_ok_new:
  assumes ok: "lists_ok w" and l: "source l \<noteq> None" "dest_ok l"
    and w': "management w' = iput (management w) i (Some (next_ref w))" "next_ref w' = Suc (next_ref w)"
      "store w' = (store w)(next_ref w := l)"
  shows "lists_ok w'"
  unfolding lists_ok_def w'
proof (intro conjI allI impI)
  have less: "ifind (management w) j = Some (Some s) \<Longrightarrow> s < next_ref w" for j s
    using lists_okD(1) [OF ok] by blast
  fix j j' s
  assume j: "ifind (iput (management w) i (Some (next_ref w))) j = Some (Some s)"
  show "s < Suc (next_ref w)" using j less [of j s] by (auto split: if_splits)
  show "source (((store w)(next_ref w := l)) s) \<noteq> None" "dest_ok (((store w)(next_ref w := l)) s)"
    using j l lists_okD(2,3) [OF ok, of j s] by (auto split: if_splits)
  assume "ifind (iput (management w) i (Some (next_ref w))) j' = Some (Some s)"
  then show "j = j'" using j less [of j s] less [of j' s] lists_okD(4) [OF ok, of j' s j]
    by (auto split: if_splits)
qed

lemma light_addSource:
  assumes ok: "lists_ok w" and run: "addSource E i ip port w k = Inr (b, w', k')"
  shows "lists_ok w'" "wclass w' = wclass w" "worker_type w' = worker_type w"
    and "\<not> b \<Longrightarrow> management w' = management w \<and> store w' = store w"
    and "b \<Longrightarrow> management w' = iput (management w) i (Some (next_ref w)) \<and>
      (\<exists>l. store w' = (store w)(next_ref w := l) \<and> dest_map l = Map.empty)"
proof -
  define u where "u = setAddr E ip port (setId i (UdpStream_new E 0 k))"
  define l where "l = setSource u (setListId i StreamList_new)"
  have l: "source l = Some u" "dest_ok l" "dest_map l = Map.empty"
    by (simp_all add: l_def setSource_def setListId_def StreamList_new_def clear_def dest_ok_def dest_map_def)
  obtain j w1 where g: "getListIdBySocket (getAddr u) w = (j, w1)" by fastforce
  have w1: "management w1 = management w" "next_ref w1 = next_ref w" "store w1 = store w"
      "wclass w1 = wclass w" "worker_type w1 = worker_type w"
    using g by (auto simp: getListIdBySocket_def split: prod.splits)
  obtain ret w2 k2 where a: "add_socket E port w1 k = (ret, w2, k2)" by (metis prod_cases3)
  note fr = add_socket_frame [OF a]
  obtain r w3 where n: "new_list l w2 = (r, w3)" by fastforce
  have eq: "addSource E i ip port w k =
      (if j \<noteq> 0 then Inr (False, w1, k)
       else if ret \<noteq> -1 then Inr (True, register i l (addr u) w2, k2) else Inr (False, w2, k2))"
    using addStreamList_new [OF n l(1), of i]
    by (simp add: addSource_def Let_def u_def [symmetric] g a l_def [symmetric] n)
  have ok1: "lists_ok w1" by (rule lists_ok_same [OF ok w1(1-3)])
  have ok2: "lists_ok w2" by (rule lists_ok_same [OF ok1 fr(1,4,3)])
  have ok3: "lists_ok (register i l (addr u) w2)"
    by (rule lists_ok_new [OF ok2 _ l(2)]) (simp_all add: l register_def)
  show "lists_ok w'" using run eq ok1 ok2 ok3 by (auto split: if_splits)
  show "wclass w' = wclass w" "worker_type w' = worker_type w"
    using run eq w1 fr by (auto simp: register_def split: if_splits)
  show "management w' = management w \<and> store w' = store w" if "\<not> b"
    using that run eq w1 fr by (auto split: if_splits)
  show "management w' = iput (management w) i (Some (next_ref w)) \<and>
      (\<exists>l. store w' = (store w)(next_ref w := l) \<and> dest_map l = Map.empty)" if b
    using that run eq w1 fr l(3) by (auto simp: register_def split: if_splits)
qed

section \<open>The manager\<close>

definition light_ok :: "manager \<Rightarrow> bool" where
  "light_ok M \<longleftrightarrow>
     (\<forall>r < next_worker M. wclass (workers M r) = ForwardClass \<and> lists_ok (workers M r)) \<and>
     (\<forall>i q. ifind (srcIdWorker M) i = Some q \<longrightarrow>
        (\<exists>r < next_worker M. \<exists>s. q = Some r \<and> ifind (management (workers M r)) i = Some (Some s))) \<and>
     (\<forall>i q. ifind (workerIdWorker M) i = Some q \<longrightarrow> (\<exists>r < next_worker M. q = Some r))"

text \<open>The destinations of every source, identifier 0 included.\<close>

definition dests :: "manager \<Rightarrow> int \<Rightarrow> (int \<Rightarrow> sockaddr_in option) option" where
  "dests M i =
     (case ifind (srcIdWorker M) i of
        Some (Some r) \<Rightarrow>
          (case ifind (management (workers M r)) i of
             Some (Some s) \<Rightarrow> Some (dest_map (store (workers M r) s))
           | _ \<Rightarrow> None)
      | _ \<Rightarrow> None)"

lemma light_source:
  assumes "light_ok M" and "dests M i = Some D"
  obtains r s where "ifind (srcIdWorker M) i = Some (Some r)" "r < next_worker M"
    "ifind (management (workers M r)) i = Some (Some s)" "D = dest_map (store (workers M r) s)"
    "wclass (workers M r) = ForwardClass" "lists_ok (workers M r)"
proof -
  obtain q where q: "ifind (srcIdWorker M) i = Some q"
    using assms(2) by (auto simp: dests_def split: option.splits)
  obtain r s where r: "r < next_worker M" "q = Some r" "ifind (management (workers M r)) i = Some (Some s)"
    using assms(1) q unfolding light_ok_def by blast
  have "D = dest_map (store (workers M r) s)" using assms(2) q r by (simp add: dests_def)
  moreover have "wclass (workers M r) = ForwardClass" "lists_ok (workers M r)"
    using assms(1) r(1) unfolding light_ok_def by blast+
  ultimately show thesis using that q r by blast
qed

text \<open>Changing the list of one source in place.\<close>

lemma light_update:
  assumes ok: "light_ok M" and src: "ifind (srcIdWorker M) i = Some (Some r)" and r: "r < next_worker M"
    and m: "ifind (management (workers M r)) i = Some (Some s)"
    and fr: "list_frame (workers M r) s w'"
  shows "light_ok (set_worker r w' M)"
    and "dests (set_worker r w' M) = (dests M)(i \<mapsto> dest_map (store w' s))"
proof -
  let ?M = "set_worker r w' M"
  have f: "lists_ok w'" "management w' = management (workers M r)" "wclass w' = wclass (workers M r)"
      "\<And>t. t \<noteq> s \<Longrightarrow> store w' t = store (workers M r) t"
    using fr by (simp_all add: list_frame_def)
  have M: "srcIdWorker ?M = srcIdWorker M" "workerIdWorker ?M = workerIdWorker M"
      "next_worker ?M = next_worker M" "workers ?M = (workers M)(r := w')"
    by (simp_all add: set_worker_def)
  have man: "management (workers ?M q) = management (workers M q)" for q by (simp add: M f)
  have "wclass (workers ?M q) = ForwardClass \<and> lists_ok (workers ?M q)" if "q < next_worker M" for q
    using ok that f unfolding light_ok_def M by (auto simp: light_ok_def)
  then show "light_ok ?M"
    using ok unfolding light_ok_def M(1-3) man by blast
  have uniq: "j = i" if "ifind (management (workers M r)) j = Some (Some s)" for j
    using ok r m that lists_okD(4) [of "workers M r" i s j] unfolding light_ok_def by blast
  show "dests ?M = (dests M)(i \<mapsto> dest_map (store w' s))"
  proof
    fix j
    show "dests ?M j = ((dests M)(i \<mapsto> dest_map (store w' s))) j"
    proof (cases "j = i")
      case True
      then show ?thesis by (simp add: dests_def M src f m)
    next
      case False
      then have "ifind (management (workers M r)) j \<noteq> Some (Some s)" using uniq by blast
      with False f(2,4) show ?thesis
        by (auto simp: dests_def M split: option.splits)
    qed
  qed
qed

lemma light_manager_destination:
  assumes ok: "light_ok M" and D: "dests M i = Some D"
  shows "\<exists>M'. Manager_addDestination E i d ip port M k = Inr (0, M', k) \<and> light_ok M' \<and>
      dests M' = (dests M)(i \<mapsto> (if D d = None then D(d \<mapsto> source_addr E ip port k) else D))"
    and "\<exists>M'. Manager_removeDestination E i d M k = Inr (0, M', k) \<and> light_ok M' \<and>
      dests M' = (dests M)(i \<mapsto> D(d := None))"
proof -
  obtain r s where r: "ifind (srcIdWorker M) i = Some (Some r)" "r < next_worker M"
      "ifind (management (workers M r)) i = Some (Some s)" "D = dest_map (store (workers M r) s)"
      "wclass (workers M r) = ForwardClass" "lists_ok (workers M r)"
    by (rule light_source [OF ok D])
  have cnt: "icount (srcIdWorker M) i > 0" "iindex None (srcIdWorker M) i = (Some r, srcIdWorker M)"
    using r(1) by (simp_all add: icount_pos um_index_snd_find)
  obtain w' where w': "addDestination E i d ip port (workers M r) k = Inr (w', k)" "list_frame (workers M r) s w'"
      "dest_map (store w' s) = (if D d = None then D(d \<mapsto> source_addr E ip port k) else D)"
    using light_addDestination [OF r(6,3)] r(4) by metis
  show "\<exists>M'. Manager_addDestination E i d ip port M k = Inr (0, M', k) \<and> light_ok M' \<and>
      dests M' = (dests M)(i \<mapsto> (if D d = None then D(d \<mapsto> source_addr E ip port k) else D))"
    using light_update [OF ok r(1-3) w'(2)] cnt w'(1,3) r(5)
    by (intro exI [of _ "set_worker r w' M"])
      (simp add: Manager_addDestination_def virtual_plain)
  obtain w2 where w2: "removeDestination E i d (workers M r) k = Inr (w2, k)" "list_frame (workers M r) s w2"
      "dest_map (store w2 s) = D(d := None)"
    using light_removeDestination [OF r(6,3)] r(4) by metis
  show "\<exists>M'. Manager_removeDestination E i d M k = Inr (0, M', k) \<and> light_ok M' \<and>
      dests M' = (dests M)(i \<mapsto> D(d := None))"
    using light_update [OF ok r(1-3) w2(2)] cnt w2(1,3) r(5)
    by (intro exI [of _ "set_worker r w2 M"])
      (simp add: Manager_removeDestination_def virtual_plain)
qed

text \<open>A new worker, and a source in it.\<close>

lemma find_loops_in:
  "find_type ws ty es = Inr (Some r) \<Longrightarrow> \<exists>i. (i, Some r) \<in> set es"
  "find_port_type ws port ty es = Inr (Some r) \<Longrightarrow> \<exists>i. (i, Some r) \<in> set es"
proof -
  show "find_type ws ty es = Inr (Some r) \<Longrightarrow> \<exists>i. (i, Some r) \<in> set es"
    by (induction ws ty es rule: find_type.induct) (auto simp: bindE_Inr_iff split: if_splits)
  show "find_port_type ws port ty es = Inr (Some r) \<Longrightarrow> \<exists>i. (i, Some r) \<in> set es"
    by (induction ws port ty es rule: find_port_type.induct) (auto simp: bindE_Inr_iff split: if_splits)
qed

lemma light_getWorker:
  assumes ok: "light_ok M" and run: "getWorker E FWD_WORKER_TYPE port M = Inr (q, M1)"
  obtains r where "q = Some r" "r < next_worker M1" "light_ok M1" "dests M1 = dests M"
    "srcIdWorker M1 = srcIdWorker M"
proof (cases "getWorkerByPortType E port FWD_WORKER_TYPE M")
  case (Inl e)
  then show thesis using run by (simp add: getWorker_def)
next
  case (Inr p)
  show thesis
  proof (cases p)
    case (Some r)
    have "\<exists>i. (i, Some r) \<in> set (iiter (key_order E) (workerIdWorker M))"
      using Inr Some find_loops_in
      by (fastforce simp: getWorkerByPortType_def getWorkerByType_def bindE_Inr_iff split: if_splits)
    then obtain i where "(i, Some r) \<in> set (iiter (key_order E) (workerIdWorker M))" ..
    from iiter_find [OF this] have "r < next_worker M" using ok unfolding light_ok_def by blast
    moreover have "q = Some r" "M1 = M" using run Inr Some by (auto simp: getWorker_def)
    ultimately show thesis using ok by (intro that [of r]) simp_all
  next
    case None
    let ?r = "next_worker M" and ?w = "launch (ForwardWorker_new (currentWorkerId M))"
    have M1: "q = Some ?r" "M1 = (set_worker ?r ?w M)\<lparr>next_worker := Suc ?r\<rparr>"
      using run Inr None
      by (auto simp: getWorker_def createWorker_def new_worker_def set_worker_def)
    have w: "wclass ?w = ForwardClass" "management ?w = []"
      by (simp_all add: launch_def ForwardWorker_new_def setWorkerType_def Worker_new_def)
    have lists_w: "lists_ok ?w" using w(2) by (simp add: lists_ok_def)
    have f: "srcIdWorker M1 = srcIdWorker M" "workerIdWorker M1 = workerIdWorker M"
        "next_worker M1 = Suc ?r" "\<And>s. workers M1 s = (if s = ?r then ?w else workers M s)"
      by (simp_all add: M1 set_worker_def)
    have old: "\<exists>r < next_worker M. \<exists>s. q = Some r \<and> ifind (management (workers M r)) i = Some (Some s)"
      if "ifind (srcIdWorker M) i = Some q" for i q
      using ok that unfolding light_ok_def by blast
    have "light_ok M1"
      unfolding light_ok_def f
    proof (intro conjI allI impI)
      fix s assume "s < Suc ?r"
      then show "wclass (if s = ?r then ?w else workers M s) = ForwardClass"
          "lists_ok (if s = ?r then ?w else workers M s)"
        using ok w lists_w by (auto simp: light_ok_def)
    next
      fix i q assume "ifind (srcIdWorker M) i = Some q"
      from old [OF this] obtain r s where
        "r < ?r" "q = Some r" "ifind (management (workers M r)) i = Some (Some s)" by blast
      then show "\<exists>r<Suc ?r. \<exists>s. q = Some r \<and>
          ifind (management (if r = ?r then ?w else workers M r)) i = Some (Some s)"
        by (intro exI [of _ r]) simp
    next
      fix i q assume "ifind (workerIdWorker M) i = Some q"
      then show "\<exists>r<Suc ?r. q = Some r" using ok unfolding light_ok_def by (meson less_Suc_eq)
    qed
    moreover have "dests M1 = dests M"
    proof
      fix i
      show "dests M1 i = dests M i"
        using old [of i] by (cases "ifind (srcIdWorker M) i") (force simp: dests_def f split: option.splits)+
    qed
    ultimately show thesis using that M1(1) f(1,3) by simp
  qed
qed

lemma light_manager_source:
  assumes ok: "light_ok M" and new: "ifind (srcIdWorker M) i = None"
    and run: "Manager_addSource E FWD_WORKER_TYPE i ip port M k = Inr (ret, M', k')"
  shows "light_ok M' \<and> (ret = 0 \<and> dests M' = (dests M)(i \<mapsto> Map.empty) \<or> ret = -1)
    \<and> (\<forall>j. j \<noteq> i \<longrightarrow> ifind (srcIdWorker M') j = ifind (srcIdWorker M) j)"
proof -
  obtain q M1 where g: "getWorker E FWD_WORKER_TYPE port M = Inr (q, M1)"
    using run by (auto simp: Manager_addSource_def bindE_Inr_iff)
  obtain r where r: "q = Some r" "r < next_worker M1" and ok1: "light_ok M1"
      and d1: "dests M1 = dests M" and s1: "srcIdWorker M1 = srcIdWorker M"
    by (rule light_getWorker [OF ok g])
  have w: "wclass (workers M1 r) = ForwardClass" "lists_ok (workers M1 r)"
    using ok1 r(2) by (simp_all add: light_ok_def)
  obtain b w' k1 where a: "addSource E i ip port (workers M1 r) k = Inr (b, w', k1)"
    using run w by (auto simp: Manager_addSource_def g r bindE_Inr_iff virtual_plain)
  note la = light_addSource [OF w(2) a]
  have man: "ifind (management w') j = (if b \<and> j = i then Some (Some (next_ref (workers M1 r)))
      else ifind (management (workers M1 r)) j)" for j
    using la(4,5) by (cases b) auto
  have f: "next_worker M' = next_worker M1" "workers M' = (workers M1)(r := w')"
      "srcIdWorker M' = (if b then iput (srcIdWorker M) i (Some r) else srcIdWorker M)"
      "workerIdWorker M' = (if b then iput (workerIdWorker M1) (getWorkerId w') (Some r) else workerIdWorker M1)"
      "ret = (if b then 0 else -1)"
    using run w a s1 by (auto simp: Manager_addSource_def g r bindE_Inr_iff virtual_plain set_worker_def Let_def
        split: if_splits)
  have "light_ok M'"
    unfolding light_ok_def f(1)
  proof (intro conjI allI impI)
    fix s assume "s < next_worker M1"
    then show "wclass (workers M' s) = ForwardClass" "lists_ok (workers M' s)"
      using ok1 la(1,2) w by (auto simp: f light_ok_def)
  next
    fix j p assume p: "ifind (srcIdWorker M') j = Some p"
    show "\<exists>q<next_worker M1. \<exists>s. p = Some q \<and> ifind (management (workers M' q)) j = Some (Some s)"
    proof (cases "b \<and> j = i")
      case True
      then show ?thesis using p r(2) man [of i] by (auto simp: f)
    next
      case False
      then have "ifind (srcIdWorker M1) j = Some p" using p s1 by (auto simp: f split: if_splits)
      then obtain q s where "q < next_worker M1" "p = Some q" "ifind (management (workers M1 q)) j = Some (Some s)"
        using ok1 unfolding light_ok_def by blast
      then show ?thesis using man [of j] False by (intro exI [of _ q]) (auto simp: f)
    qed
  next
    fix j p assume "ifind (workerIdWorker M') j = Some p"
    then show "\<exists>q<next_worker M1. p = Some q"
      using ok1 r(2) unfolding light_ok_def f by (auto split: if_splits)
  qed
  moreover have "dests M' = (dests M)(i \<mapsto> Map.empty)" if new_b: b
  proof
    fix j
    obtain l where l: "store w' = (store (workers M1 r))(next_ref (workers M1 r) := l)" "dest_map l = Map.empty"
      using la(5) [OF new_b] by blast
    show "dests M' j = ((dests M)(i \<mapsto> Map.empty)) j"
    proof (cases "j = i")
      case True
      then show ?thesis using new_b man [of i] l by (simp add: dests_def f)
    next
      case False
      have "ifind (management (workers M1 r)) j \<noteq> Some (Some (next_ref (workers M1 r)))"
        using lists_okD(1) [OF w(2), of j] by force
      then have "dests M' j = dests M1 j"
        using False new_b man [of j] l s1 by (auto simp: dests_def f split: option.splits)
      then show ?thesis using False d1 by simp
    qed
  qed
  ultimately show ?thesis by (simp add: f)
qed

section \<open>Broadcast\<close>

text \<open>
  When the program runs, source 0 has the three destinations it was given, under the identifiers 1,
  2 and 3 -- it ends with the code -2 only when the source could not be added.
\<close>

lemma light_ok_new: "light_ok Manager_new" "dests Manager_new = Map.empty" "ifind (srcIdWorker Manager_new) i = None"
  by (simp_all add: light_ok_def dests_def Manager_new_def fun_eq_iff)

definition bc_dests :: "'k env \<Rightarrow> string list \<Rightarrow> int \<Rightarrow> int \<Rightarrow> int \<Rightarrow> 'k \<Rightarrow> int \<Rightarrow> sockaddr_in option" where
  "bc_dests E argv p2 p3 p4 k =
     [1 \<mapsto> source_addr E (argv ! 3) p2 k, 2 \<mapsto> source_addr E (argv ! 5) p3 k, 3 \<mapsto> source_addr E (argv ! 7) p4 k]"

lemma bc_main_endless:
  assumes run: "bc_main E argv k = Inr (Endless, out, M, k')"
  shows "light_ok M \<and> (\<exists>p2 p3 p4. atoi (argv ! 4) = Inr p2 \<and> atoi (argv ! 6) = Inr p3 \<and> atoi (argv ! 8) = Inr p4 \<and>
    dests M = [0 \<mapsto> bc_dests E argv p2 p3 p4 k'])"
proof -
  obtain p1 r1 M1 k1 p2 r2 M2 k2 p3 r3 M3 k3 p4 r4 k4 where
    steps: "Manager_addSource E FWD_WORKER_TYPE 0 (argv ! 1) p1 Manager_new k = Inr (r1, M1, k1)"
      "atoi (argv ! 4) = Inr p2" "Manager_addDestination E 0 1 (argv ! 3) p2 M1 k1 = Inr (r2, M2, k2)"
      "atoi (argv ! 6) = Inr p3" "Manager_addDestination E 0 2 (argv ! 5) p3 M2 k2 = Inr (r3, M3, k3)"
      "atoi (argv ! 8) = Inr p4" "Manager_addDestination E 0 3 (argv ! 7) p4 M3 k3 = Inr (r4, M, k4)"
      and sum: "r1 + r2 + r3 + r4 = 0" and k': "k' = k4"
    using run by (auto simp: bc_main_def Let_def bindE_Inr_iff FWD_WORKER_TYPE_def split: if_splits)
  note s1 = light_manager_source [OF light_ok_new(1,3) steps(1)]
  show ?thesis
  proof (cases "r1 = 0")
    case True
    then have d1: "light_ok M1" "dests M1 = [0 \<mapsto> Map.empty]"
      using s1 by (simp_all add: light_ok_new(2))
    have d2: "light_ok M2" "dests M2 = [0 \<mapsto> [1 \<mapsto> source_addr E (argv ! 3) p2 k1]]" "k2 = k1"
      using light_manager_destination(1) [OF d1(1), of 0 Map.empty E 1 "argv ! 3" p2 k1] d1(2) steps(3) by auto
    have d3: "light_ok M3" "k3 = k1"
        "dests M3 = [0 \<mapsto> [1 \<mapsto> source_addr E (argv ! 3) p2 k1, 2 \<mapsto> source_addr E (argv ! 5) p3 k1]]"
      using light_manager_destination(1) [OF d2(1), of 0 _ E 2 "argv ! 5" p3 k1] d2(2,3) steps(5) by auto
    have d4: "light_ok M" "k4 = k1"
        "dests M = [0 \<mapsto> [1 \<mapsto> source_addr E (argv ! 3) p2 k1, 2 \<mapsto> source_addr E (argv ! 5) p3 k1,
          3 \<mapsto> source_addr E (argv ! 7) p4 k1]]"
      using light_manager_destination(1) [OF d3(1), of 0 _ E 3 "argv ! 7" p4 k1] d3(2,3) steps(7) by auto
    then show ?thesis using steps(2,4,6) by (auto simp: bc_dests_def k')
  next
    case False
    then have "r1 = -1" using s1 by simp
    moreover have "r2 = 0 \<or> r2 = -1" "r3 = 0 \<or> r3 = -1" "r4 = 0 \<or> r4 = -1"
      using steps(3,5,7) by (auto simp: Manager_addDestination_def bindE_Inr_iff split: if_splits prod.splits)
    ultimately have False using sum by linarith
    then show ?thesis ..
  qed
qed

section \<open>Zapping\<close>

text \<open>Exactly the current channel has the destination.\<close>

definition zap_state :: "sockaddr_in \<Rightarrow> int \<Rightarrow> manager \<Rightarrow> bool" where
  "zap_state a actual M \<longleftrightarrow> light_ok M \<and> actual \<in> {0, 1, 2} \<and>
     (\<forall>i \<in> {0, 1, 2}. dests M i = Some (if i = actual then [3 \<mapsto> a] else Map.empty))"

lemma zap_switch_state:
  assumes st: "zap_state a actual M" and p: "atoi port = Inr p"
  shows "\<exists>M'. zap_switch E ip port 0 actual M k = Inr (0, (actual + 1) mod 3, M', k) \<and>
    zap_state (source_addr E ip p k) ((actual + 1) mod 3) M'"
proof -
  have ok: "light_ok M" and ch: "actual \<in> {0, 1, 2}" and D: "dests M actual = Some [3 \<mapsto> a]"
    using st by (auto simp: zap_state_def)
  obtain M1 where M1: "Manager_removeDestination E actual 3 M k = Inr (0, M1, k)" "light_ok M1"
      "dests M1 = (dests M)(actual \<mapsto> Map.empty)"
    using light_manager_destination(2) [OF ok D, of E 3 k] by auto
  have next_D: "dests M1 ((actual + 1) mod 3) = Some Map.empty"
    using st ch M1(3) by (auto simp: zap_state_def)
  obtain M2 where M2: "Manager_addDestination E ((actual + 1) mod 3) 3 ip p M1 k = Inr (0, M2, k)" "light_ok M2"
      "dests M2 = (dests M1)((actual + 1) mod 3 \<mapsto> [3 \<mapsto> source_addr E ip p k])"
    using light_manager_destination(1) [OF M1(2) next_D, of E 3 ip p k] by auto
  have "zap_state (source_addr E ip p k) ((actual + 1) mod 3) M2"
    using st ch M1(3) M2(2,3) by (auto simp: zap_state_def)
  then show ?thesis using M1(1) M2(1) p by (simp add: zap_switch_def)
qed

text \<open>
  The number of presses in the first rounds. The lines of the input are the parts between its line feeds,
  the last one being what follows the last line feed; every round past the last line sees that line again.
\<close>

fun line_list :: "string \<Rightarrow> string list" where
  "line_list [] = [[]]"
| "line_list (c # cs) = (if c = CHR 0x0A then [] # line_list cs
     else (c # hd (line_list cs)) # tl (line_list cs))"

definition seen_line :: "string list \<Rightarrow> nat \<Rightarrow> string" where
  "seen_line ls n = (if n < length ls then ls ! n else last ls)"

definition presses :: "nat \<Rightarrow> string \<Rightarrow> int" where
  "presses n input = int (card {i. i < n \<and> seen_line (line_list input) i = []})"

lemma line_list_ne: "line_list cs \<noteq> []"
  by (induction cs) simp_all

lemma line_list_split:
  "line_list cs = takeWhile (\<lambda>c. c \<noteq> CHR 0x0A) cs #
     (if CHR 0x0A \<in> set cs then line_list (drop 1 (dropWhile (\<lambda>c. c \<noteq> CHR 0x0A) cs)) else [])"
proof (induction cs)
  case (Cons c cs)
  show ?case
  proof (cases "c = CHR 0x0A")
    case False
    then show ?thesis using arg_cong [OF Cons, of hd] arg_cong [OF Cons, of tl] by simp
  qed simp
qed simp

text \<open>The rounds the loop has before it: the lines that it will see, given the line and the stream.\<close>

definition lines_ahead :: "string \<times> istream \<Rightarrow> string list" where
  "lines_ahead q = (case q of (line, s) \<Rightarrow> if good_stream s then line_list (chars s) else [line])"

lemma seen_next:
  assumes "next_line line0 s = (line, s')"
  shows "seen_line (lines_ahead (line0, s)) 0 = line"
    and "seen_line (lines_ahead (line0, s)) (Suc n) = seen_line (lines_ahead (line, s')) n"
proof -
  have "lines_ahead (line0, s) = (if good_stream s \<and> good_stream s' then line # lines_ahead (line, s') else [line])
      \<and> (good_stream s' \<or> lines_ahead (line, s') = [line])"
    using assms line_list_split [of "chars s"] by (auto simp: next_line_def lines_ahead_def split: if_splits)
  moreover have "lines_ahead (line, s') \<noteq> []" by (simp add: lines_ahead_def line_list_ne)
  moreover have "good_stream s' \<longrightarrow> good_stream s" using assms by (auto simp: next_line_def split: if_splits)
  ultimately show "seen_line (lines_ahead (line0, s)) 0 = line"
    "seen_line (lines_ahead (line0, s)) (Suc n) = seen_line (lines_ahead (line, s')) n"
    by (auto simp: seen_line_def)
qed

definition presses_ahead :: "nat \<Rightarrow> string \<times> istream \<Rightarrow> int" where
  "presses_ahead n q = int (card {i. i < n \<and> seen_line (lines_ahead q) i = []})"

lemma presses_ahead_Suc:
  assumes "next_line line0 s = (line, s')"
  shows "presses_ahead (Suc n) (line0, s) = (if line = [] then 1 else 0) + presses_ahead n (line, s')"
proof -
  let ?A = "{i. i < n \<and> seen_line (lines_ahead (line, s')) i = []}"
  have "{i. i < Suc n \<and> seen_line (lines_ahead (line0, s)) i = []} = (if line = [] then {0} else {}) \<union> Suc ` ?A"
    (is "?l = ?r")
  proof (rule set_eqI)
    fix i
    show "i \<in> ?l \<longleftrightarrow> i \<in> ?r" by (cases i) (auto simp: seen_next [OF assms])
  qed
  moreover have "card (Suc ` ?A) = card ?A" by (rule card_image) simp
  moreover have "finite ?A" by simp
  ultimately show ?thesis
    by (cases "line = []") (simp_all add: presses_ahead_def card_insert_if image_iff)
qed

lemma zap_loop_state:
  assumes "zap_state a actual M" and "atoi port = Inr p" and "a = source_addr E ip p k"
  shows "\<exists>out' M'. zap_loop n E ip port q 0 actual out M k =
      Inr (Endless, (actual + presses_ahead n q) mod 3, out', M', k) \<and>
    zap_state a ((actual + presses_ahead n q) mod 3) M'"
  using assms
proof (induction n arbitrary: q actual out M)
  case 0
  obtain line input where "q = (line, input)" by (cases q)
  moreover have "actual mod 3 = actual" using 0 by (auto simp: zap_state_def)
  ultimately show ?case using 0 by (simp add: presses_ahead_def)
next
  case (Suc n)
  obtain line0 input where q: "q = (line0, input)" by (cases q)
  obtain line input' where l: "next_line line0 input = (line, input')" by fastforce
  note ahead = presses_ahead_Suc [OF l, of n]
  show ?case
  proof (cases "line = []")
    case False
    then show ?thesis using Suc.IH [OF Suc.prems] by (simp add: q l ahead Let_def)
  next
    case True
    obtain M' where "zap_switch E ip port 0 actual M k = Inr (0, (actual + 1) mod 3, M', k)"
        "zap_state a ((actual + 1) mod 3) M'"
      using zap_switch_state [OF Suc.prems(1,2), of E ip k] Suc.prems(3) by auto
    moreover have "((actual + 1) mod 3 + x) mod 3 = (actual + (1 + x)) mod 3" for x
      by (simp add: mod_add_left_eq add.assoc)
    ultimately show ?thesis
      using Suc.IH [OF _ Suc.prems(2,3)] True by (fastforce simp: q l ahead Let_def)
  qed
qed

text \<open>Once it runs, the program never stops, also past the end of its input.\<close>

lemma zap_main_state:
  assumes run: "zap_main 0 E argv input k = Inr (Endless, out, M, k')"
  shows "\<exists>p. atoi (argv ! 8) = Inr p \<and>
    (\<forall>n. \<exists>out' M'. zap_main n E argv input k = Inr (Endless, out', M', k') \<and>
       zap_state (source_addr E (argv ! 7) p k') (presses n input mod 3) M')"
proof -
  obtain p1 r1 M1 k1 p2 r2 M2 k2 p3 r3 M3 k3 p4 r4 where
    ports: "length argv = 9" "atoi (argv ! 2) = Inr p1" "atoi (argv ! 4) = Inr p2" "atoi (argv ! 6) = Inr p3"
      "atoi (argv ! 8) = Inr p4" and
    steps: "Manager_addSource E FWD_WORKER_TYPE 0 (argv ! 1) p1 Manager_new k = Inr (r1, M1, k1)"
      "Manager_addSource E FWD_WORKER_TYPE 1 (argv ! 3) p2 M1 k1 = Inr (r2, M2, k2)"
      "Manager_addSource E FWD_WORKER_TYPE 2 (argv ! 5) p3 M2 k2 = Inr (r3, M3, k3)"
      "Manager_addDestination E 0 3 (argv ! 7) p4 M3 k3 = Inr (r4, M, k')"
      and sum: "r1 + r2 + r3 + r4 = 0"
    using run by (auto simp: zap_main_def Let_def bindE_Inr_iff FWD_WORKER_TYPE_def split: if_splits)
  note s1 = light_manager_source [OF light_ok_new(1,3) steps(1)]
  have "ifind (srcIdWorker M1) 1 = None" using s1 by (simp add: light_ok_new)
  note s2 = light_manager_source [OF _ this steps(2)]
  have "ifind (srcIdWorker M2) 2 = None" using s1 s2 by (simp add: light_ok_new)
  note s3 = light_manager_source [OF _ this steps(3)]
  have "r1 = 0 \<or> r1 = -1" "r2 = 0 \<or> r2 = -1" "r3 = 0 \<or> r3 = -1" using s1 s2 s3 by blast+
  moreover have "r4 = 0 \<or> r4 = -1"
    using steps(4) by (auto simp: Manager_addDestination_def bindE_Inr_iff split: if_splits prod.splits)
  ultimately have r: "r1 = 0" "r2 = 0" "r3 = 0" "r4 = 0" using sum by linarith+
  have d3: "light_ok M3" "dests M3 = [0 \<mapsto> Map.empty, 1 \<mapsto> Map.empty, 2 \<mapsto> Map.empty]"
    using s1 s2 s3 r by (simp_all add: light_ok_new(2))
  let ?a = "source_addr E (argv ! 7) p4 k'"
  obtain M4 where M4: "Manager_addDestination E 0 3 (argv ! 7) p4 M3 k3 = Inr (0, M4, k3)" "light_ok M4"
      "dests M4 = (dests M3)(0 \<mapsto> [3 \<mapsto> source_addr E (argv ! 7) p4 k3])"
    using light_manager_destination(1) [OF d3(1), of 0 Map.empty E 3 "argv ! 7" p4 k3] d3(2) by auto
  then have k3: "k3 = k'" "M4 = M" using steps(4) by simp_all
  have z: "zap_state ?a 0 M" using M4(2,3) d3(2) k3 by (simp add: zap_state_def)
  have steps': "Manager_addSource E 1 0 (argv ! 1) p1 Manager_new k = Inr (0, M1, k1)"
      "Manager_addSource E 1 1 (argv ! 3) p2 M1 k1 = Inr (0, M2, k2)"
      "Manager_addSource E 1 2 (argv ! 5) p3 M2 k2 = Inr (0, M3, k')"
      "Manager_addDestination E 0 3 (argv ! 7) p4 M3 k' = Inr (0, M, k')"
    using steps(1-3) M4(1) r k3 by (simp_all add: FWD_WORKER_TYPE_def)
  have "\<exists>start. \<forall>n. zap_main n E argv input k = bindE (zap_loop n E (argv ! 7) (argv ! 8) ([], \<lparr>chars = input, good_stream = True\<rparr>) 0 0 start M k')
      (\<lambda>(o1, actual, out1, M5, k5). Inr (o1, out1, M5, k5))"
    unfolding zap_main_def Let_def ports steps' bindE.simps prod.case
    by (simp only: ports refl simp_thms if_False steps' bindE.simps prod.case add_0_right)
      (rule exI, rule allI, rule refl)
  then obtain start where eq: "\<And>n. zap_main n E argv input k =
      bindE (zap_loop n E (argv ! 7) (argv ! 8) ([], \<lparr>chars = input, good_stream = True\<rparr>) 0 0 start M k')
        (\<lambda>(o1, actual, out1, M5, k5). Inr (o1, out1, M5, k5))" by blast
  have "\<exists>out' M'. zap_main n E argv input k = Inr (Endless, out', M', k') \<and>
      zap_state ?a (presses n input mod 3) M'" for n
    using zap_loop_state [OF z ports(5) refl, of n "([], \<lparr>chars = input, good_stream = True\<rparr>)" start]
    by (auto simp: eq presses_ahead_def presses_def lines_ahead_def)
  then show ?thesis using ports(5) by blast
qed

end
