(* ===== verification/Example_Properties.thy ===== *)
theory Example_Properties
  imports Console_Spec Example_Spec Demo_Runs
begin

text \<open>
  The properties of the example programs: the command interpreter of the console and the web
  service, the broadcast and zapping programs, the service methods.
\<close>

section \<open>The command interpreter\<close>

definition logged :: "(int \<times> 'k cstate) res \<Rightarrow> (bool \<times> 'k cstate) res" where
  "logged m = bindE m (\<lambda>(_, st). Inr (False, st))"

text \<open>
  C28. The command lines are read back exactly: a line printed from the arguments of a command, with
  \<^verbatim>\<open>int\<close> numbers and an address without blanks, makes \<^verbatim>\<open>execute\<close> call the manager with those arguments
  and the identifier of the flow counter; and no line whatever makes the taking apart of a line throw:
  the only undefined outcome is a number \<^verbatim>\<open>atoi\<close> cannot represent.
\<close>

theorem console_reads_commands:
  fixes E :: "'k env"
  assumes "fits_int t" and "fits_int p" and "fits_int i" and "fits_int d" and "word_text ip"
  shows "execute E True (''addsource '' @ show_int t @ '' '' @ ip @ '' '' @ show_int p) (c, k) =
      logged (cl_addSource E t (flowId c) ip p (c, k)) \<and>
    execute E True (''remsource '' @ show_int i) (c, k) = logged (cl_removeSource E i (c, k)) \<and>
    execute E True (''adddestination '' @ show_int i @ '' '' @ ip @ '' '' @ show_int p) (c, k) =
      logged (cl_addDestination E i (flowId c) ip p (c, k)) \<and>
    execute E True (''remdestination '' @ show_int i @ '' '' @ show_int d) (c, k) =
      logged (cl_removeDestination E i d (c, k)) \<and>
    (\<forall>line e. parse_line line = Inl e \<longrightarrow> e = NotRepresentable)"
proof (intro conjI allI impI)
  have pass: "bindE (bindE m (\<lambda>(_, st1). Inr st1)) (\<lambda>st1. Inr (False, st1)) = logged m" for m :: "(int \<times> 'k cstate) res"
    by (cases m) (auto simp: logged_def)
  note defs = execute_def run_command_def log_debug_def Let_def pass
  show "execute E True (''addsource '' @ show_int t @ '' '' @ ip @ '' '' @ show_int p) (c, k) =
      logged (cl_addSource E t (flowId c) ip p (c, k))"
    unfolding execute_def parse_addsource_line [OF assms(1,2,5)] by (simp add: defs)
  show "execute E True (''remsource '' @ show_int i) (c, k) = logged (cl_removeSource E i (c, k))"
    unfolding execute_def parse_remsource_line by (simp add: defs atoi_show_int [OF assms(3)])
  show "execute E True (''adddestination '' @ show_int i @ '' '' @ ip @ '' '' @ show_int p) (c, k) =
      logged (cl_addDestination E i (flowId c) ip p (c, k))"
    unfolding execute_def parse_adddestination_line [OF assms(3,2,5)] by (simp add: defs)
  show "execute E True (''remdestination '' @ show_int i @ '' '' @ show_int d) (c, k) =
      logged (cl_removeDestination E i d (c, k))"
    unfolding execute_def parse_remdestination_line [OF assms(3,4)] by (simp add: defs)
qed (rule parse_line_safe)

theorem console_reads_commands_witness:
  "execute sim_env True ''remsource 101'' (\<lparr>sm = Manager_new, flowId = 100, cout = []\<rparr>, sim_init) =
     logged (cl_removeSource sim_env 101 (\<lparr>sm = Manager_new, flowId = 100, cout = []\<rparr>, sim_init))"
proof -
  have "fits_int 1" "fits_int 4000" "fits_int 101" "fits_int 102" "word_text ''10.0.0.1''"
    by (simp_all add: fits_int_def word_text_def)
  moreover have "''remsource 101'' = ''remsource '' @ show_int 101" by code_simp
  ultimately show ?thesis
    using console_reads_commands [of 1 4000 101 102 "''10.0.0.1''" sim_env
        "\<lparr>sm = Manager_new, flowId = 100, cout = []\<rparr>" sim_init] by metis
qed

text \<open>
  C29. A session of the console keeps the manager consistent: whatever lines are typed, as long as
  every source that is added asks for a valid port and for a worker type other than RTCP, the program
  either keeps the invariant of the manager with all registered identifiers handed out by its own
  counter, or stops at a number out of range, at the end of the counter or in the printing of the
  port table.
\<close>

theorem console_session:
  assumes "platform_ok E opn"
    and "\<forall>line \<in> set input. \<forall>cmd. parse_line line = Inr cmd \<longrightarrow> admissible cmd"
  shows "within {NotRepresentable, SignedOverflow, OutOfBounds} (cl_main E dbg input k) (console_ok opn)"
  unfolding cl_main_def by (rule read_loop_ok [OF console_ok_new assms])

definition demo_lines :: "string list" where
  "demo_lines = [''addsource 1 1 4000'', ''adddestination 100 2 5000'', ''remsource 7'', ''printm'', ''exit'']"

theorem console_session_witness:
  "within {NotRepresentable, SignedOverflow, OutOfBounds} (cl_main sim_env True demo_lines sim_init)
     (console_ok sim_open)"
proof -
  have "list_all (\<lambda>line. case parse_line line of Inl e \<Rightarrow> True | Inr cmd \<Rightarrow> admissible cmd) demo_lines"
    by code_simp
  then have "\<forall>line \<in> set demo_lines. \<forall>cmd. parse_line line = Inr cmd \<longrightarrow> admissible cmd"
    by (auto simp: list_all_iff)
  from console_session [OF sim_platform_ok this] show ?thesis .
qed

text \<open>
  The calls of the manager are arguments of \<^verbatim>\<open>LOG4CXX_DEBUG\<close>: when the logger is not enabled for
  debugging, no command of the console or of the web service adds, removes or changes anything, and
  the flow counter stays where it is.
\<close>

lemma console_needs_debug:
  assumes "execute E False line (c, k) = Inr (ended, c', k') \<or> ws_execute E False line (c, k) = Inr (ended, c', k')"
  shows "k' = k \<and> sm c' = sm c \<and> flowId c' = flowId c"
  using assms run_command_silent by (fastforce simp: execute_def ws_execute_def bindE_Inr_iff)

lemma console_needs_debug_example:
  "execute sim_env False ''addsource 1 1 4000'' (\<lparr>sm = Manager_new, flowId = 100, cout = []\<rparr>, sim_init) =
     Inr (False, \<lparr>sm = Manager_new, flowId = 100, cout = []\<rparr>, sim_init) \<and> sm \<lparr>sm = Manager_new, flowId = 100, cout = []\<rparr> = Manager_new"
proof -
  let ?c = "\<lparr>sm = Manager_new, flowId = 100, cout = []\<rparr>"
  have "parse_line ''addsource 1 1 4000'' = Inr (AddSource 1 ''1'' 4000)" by code_simp
  then have run: "execute sim_env False ''addsource 1 1 4000'' (?c, sim_init) = Inr (False, ?c, sim_init)"
    by (simp add: execute_def run_command_def log_debug_def)
  from console_needs_debug [OF disjI1 [OF this]] run show ?thesis by simp
qed

section \<open>Broadcast and zapping\<close>

fun endless :: "'k prog_result \<Rightarrow> bool" where
  "endless (Inr (Endless, _)) = True"
| "endless _ = False"

lemma endlessE: "endless m \<Longrightarrow> (\<And>out M k. m = Inr (Endless, out, M, k) \<Longrightarrow> P) \<Longrightarrow> P"
  by (cases m rule: endless.cases) (auto split: prod.splits)

text \<open>
  C30. The zapping program: once it has started without an error, it never stops by itself, also past the end
  of its input, and after every number of rounds exactly one of its three channels has the
  destination, the one given by the number of empty lines seen so far modulo 3. Past the last line every
  round sees that line again, so the program switches for ever when the input ends with a line feed, and
  no more when it ends in a line that is not empty.
\<close>

theorem zap_one_channel:
  assumes "zap_main 0 E argv input k = Inr (Endless, out, M, k')"
  shows "\<exists>p. atoi (argv ! 8) = Inr p \<and>
    (\<forall>n. \<exists>out' M'. zap_main n E argv input k = Inr (Endless, out', M', k') \<and>
       (\<forall>i \<in> {0, 1, 2}. dests M' i = Some (if i = presses n input mod 3
          then [3 \<mapsto> source_addr E (argv ! 7) p k'] else Map.empty)))"
  using zap_main_state [OF assms] unfolding zap_state_def by blast

definition zap_args :: "string list" where
  "zap_args = [''ZAP'', ''1'', ''4000'', ''1'', ''4001'', ''1'', ''4002'', ''2'', ''5000'']"

definition zap_input :: string where
  "zap_input = newline @ ''x''"

theorem zap_one_channel_witness:
  "\<exists>out M k. zap_main 5 sim_env zap_args zap_input sim_init = Inr (Endless, out, M, k) \<and>
     dests M 1 = Some [3 \<mapsto> source_addr sim_env ''2'' 5000 k]"
proof -
  have "endless (zap_main 0 sim_env zap_args zap_input sim_init)" by code_simp
  then obtain out M k where run: "zap_main 0 sim_env zap_args zap_input sim_init = Inr (Endless, out, M, k)"
    by (rule endlessE)
  have a: "atoi (zap_args ! 8) = Inr 5000" "zap_args ! 7 = ''2''" "presses 5 zap_input mod 3 = 1"
  proof -
    have ls: "line_list zap_input = [[], ''x'']" by code_simp
    have "{i. i < 5 \<and> seen_line [[], ''x''] i = []} = {0}"
      by (auto simp: seen_line_def less_Suc_eq numeral_eq_Suc)
    then show "presses 5 zap_input mod 3 = 1" by (simp add: presses_def ls)
  qed code_simp+
  from zap_one_channel [OF run] obtain out' M' where
    "zap_main 5 sim_env zap_args zap_input sim_init = Inr (Endless, out', M', k)"
    "\<forall>i \<in> {0, 1, 2}. dests M' i = Some (if i = presses 5 zap_input mod 3
        then [3 \<mapsto> source_addr sim_env (zap_args ! 7) 5000 k] else Map.empty)"
    unfolding a(1) by blast
  then show ?thesis unfolding a by (intro exI conjI) (assumption, simp)
qed

section \<open>The service methods\<close>

text \<open>
  \<^verbatim>\<open>ns__addDestination\<close> never looks at the address of the request, and what the print methods return
  cannot be read.
\<close>

lemma service_address_ignored:
  "ns_addDestination E i d raw (Some ip) port st = ns_addDestination E i d raw (Some ip') port st"
  by (simp add: ns_addDestination_def)

lemma service_print_dangles:
  "bindE (ns_printManagement E st) (\<lambda>(_, p). read_ptr p) \<noteq> Inr s"
  "bindE (ns_printForwarding E st) (\<lambda>(_, p). read_ptr p) \<noteq> Inr s"
  "bindE (ns_printPortFd E st) (\<lambda>(_, p). read_ptr p) \<noteq> Inr s"
  by (simp_all add: ns_printManagement_def ns_printForwarding_def ns_printPortFd_def c_str_of_temporary_def
      bindE_Inr_iff)

end
