(* ===== verification/Slist.thy ===== *)
theory Slist
  imports Prelude
begin

text \<open>
  The generalised list of libltdl, the loader library in the repository (\<^verbatim>\<open>libltdl/slist.c\<close>,
  \<^verbatim>\<open>libltdl/libltdl/slist.h\<close>). Items are linked through their \<^verbatim>\<open>next\<close> field and changed in place, so
  they live in a heap from addresses to items; \<open>None\<close> marks memory that is not allocated, and reading
  or writing there is \<open>BadPointer\<close>. A \<^verbatim>\<open>SList*\<close> is a \<open>nat option\<close>. A chain can be a cycle, so every loop
  has fuel; the lemmas say how much is enough. A callback gets the address of an item and the item;
  the function pointers themselves are never null.
\<close>

section \<open>Items and memory\<close>

record 'a snode =
  nxt :: "nat option"
  userdata :: 'a

type_synonym 'a sheap = "nat \<Rightarrow> 'a snode option"

definition item_at :: "'a sheap \<Rightarrow> nat \<Rightarrow> 'a snode res" where
  "item_at h r = (case h r of None \<Rightarrow> Inl BadPointer | Some x \<Rightarrow> Inr x)"

definition set_next :: "nat \<Rightarrow> nat option \<Rightarrow> 'a sheap \<Rightarrow> 'a sheap res" where
  "set_next r p h = bindE (item_at h r) (\<lambda>x. Inr (h(r \<mapsto> x\<lparr>nxt := p\<rparr>)))"

section \<open>Operations\<close>

fun slist_delete ::
    "nat \<Rightarrow> (nat \<Rightarrow> 'a sheap \<Rightarrow> 'a sheap res) \<Rightarrow> nat option \<Rightarrow> 'a sheap \<Rightarrow> (nat option \<times> 'a sheap) res" where
  "slist_delete n del None h = Inr (None, h)"
| "slist_delete 0 del (Some r) h = Inl OutOfFuel"
| "slist_delete (Suc n) del (Some r) h =
     bindE (item_at h r) (\<lambda>x. bindE (del r h) (\<lambda>h1. slist_delete n del (nxt x) h1))"

text \<open>The loop over the items after the first: \<open>head\<close> is the item in front of the one looked at.\<close>

fun remove_after ::
    "nat \<Rightarrow> (nat \<Rightarrow> 'a snode \<Rightarrow> 'r option) \<Rightarrow> nat \<Rightarrow> 'a sheap \<Rightarrow> ('r option \<times> 'a sheap) res" where
  "remove_after n fnd head h =
     bindE (item_at h head) (\<lambda>x.
       case nxt x of None \<Rightarrow> Inr (None, h)
       | Some m \<Rightarrow>
         (case n of 0 \<Rightarrow> Inl OutOfFuel
          | Suc n' \<Rightarrow> bindE (item_at h m) (\<lambda>y.
              case fnd m y of
                Some v \<Rightarrow> bindE (set_next head (nxt y) h) (\<lambda>h1. Inr (Some v, h1))
              | None \<Rightarrow> remove_after n' fnd m h)))"

declare remove_after.simps [simp del]

text \<open>\<open>phead\<close> is passed by reference: its new value is returned.\<close>

definition slist_remove ::
    "nat \<Rightarrow> (nat \<Rightarrow> 'a snode \<Rightarrow> 'r option) \<Rightarrow> nat option \<Rightarrow> 'a sheap \<Rightarrow> ('r option \<times> nat option \<times> 'a sheap) res" where
  "slist_remove n fnd phead h =
     (case phead of None \<Rightarrow> Inr (None, None, h)
      | Some r \<Rightarrow> bindE (item_at h r) (\<lambda>x.
          case fnd r x of
            Some v \<Rightarrow> Inr (Some v, nxt x, h)
          | None \<Rightarrow> bindE (remove_after n fnd r h) (\<lambda>(v, h1). Inr (v, phead, h1))))"

fun slist_find :: "nat \<Rightarrow> (nat \<Rightarrow> 'a snode \<Rightarrow> 'r option) \<Rightarrow> nat option \<Rightarrow> 'a sheap \<Rightarrow> 'r option res" where
  "slist_find n fnd None h = Inr None"
| "slist_find 0 fnd (Some r) h = Inl OutOfFuel"
| "slist_find (Suc n) fnd (Some r) h =
     bindE (item_at h r) (\<lambda>x. case fnd r x of Some v \<Rightarrow> Inr (Some v) | None \<Rightarrow> slist_find n fnd (nxt x) h)"

fun last_item :: "nat \<Rightarrow> nat \<Rightarrow> 'a sheap \<Rightarrow> nat res" where
  "last_item n r h =
     bindE (item_at h r) (\<lambda>x. case nxt x of None \<Rightarrow> Inr r
       | Some m \<Rightarrow> (case n of 0 \<Rightarrow> Inl OutOfFuel | Suc n' \<Rightarrow> last_item n' m h))"

declare last_item.simps [simp del]

definition slist_concat :: "nat \<Rightarrow> nat option \<Rightarrow> nat option \<Rightarrow> 'a sheap \<Rightarrow> (nat option \<times> 'a sheap) res" where
  "slist_concat n head tail h =
     (case head of None \<Rightarrow> Inr (tail, h)
      | Some r \<Rightarrow> bindE (last_item n r h) (\<lambda>last. bindE (set_next last tail h) (\<lambda>h1. Inr (head, h1))))"

definition slist_cons :: "nat option \<Rightarrow> nat option \<Rightarrow> 'a sheap \<Rightarrow> (nat option \<times> 'a sheap) res" where
  "slist_cons item slist h =
     (case item of None \<Rightarrow> Inr (slist, h)
      | Some r \<Rightarrow> bindE (item_at h r) (\<lambda>x.
          if nxt x \<noteq> None then Inl AssertFailed
          else bindE (set_next r slist h) (\<lambda>h1. Inr (item, h1))))"

definition slist_tail :: "nat option \<Rightarrow> 'a sheap \<Rightarrow> nat option res" where
  "slist_tail slist h = (case slist of None \<Rightarrow> Inr None | Some r \<Rightarrow> bindE (item_at h r) (\<lambda>x. Inr (nxt x)))"

text \<open>Items are counted from 1; the count itself bounds the loop.\<close>

fun slist_nth :: "nat option \<Rightarrow> nat \<Rightarrow> 'a sheap \<Rightarrow> nat option res" where
  "slist_nth None n h = Inr None"
| "slist_nth (Some r) n h =
     (if n > 1 then bindE (item_at h r) (\<lambda>x. slist_nth (nxt x) (n - 1) h) else Inr (Some r))"

fun slist_length :: "nat \<Rightarrow> nat option \<Rightarrow> 'a sheap \<Rightarrow> nat res" where
  "slist_length fuel None h = Inr 0"
| "slist_length 0 (Some r) h = Inl OutOfFuel"
| "slist_length (Suc fuel) (Some r) h =
     bindE (item_at h r) (\<lambda>x. bindE (slist_length fuel (nxt x) h) (\<lambda>n. Inr (n + 1)))"

fun reverse_loop :: "nat \<Rightarrow> nat option \<Rightarrow> nat option \<Rightarrow> 'a sheap \<Rightarrow> (nat option \<times> 'a sheap) res" where
  "reverse_loop n None result h = Inr (result, h)"
| "reverse_loop 0 (Some r) result h = Inl OutOfFuel"
| "reverse_loop (Suc n) (Some r) result h =
     bindE (item_at h r) (\<lambda>x. bindE (set_next r result h) (\<lambda>h1. reverse_loop n (nxt x) (Some r) h1))"

definition slist_reverse :: "nat \<Rightarrow> nat option \<Rightarrow> 'a sheap \<Rightarrow> (nat option \<times> 'a sheap) res" where
  "slist_reverse n slist h = reverse_loop n slist None h"

text \<open>The callback may change the user data and the memory; it gets them as a state.\<close>

fun slist_foreach ::
    "nat \<Rightarrow> (nat \<Rightarrow> 's \<times> 'a sheap \<Rightarrow> ('r option \<times> 's \<times> 'a sheap) res) \<Rightarrow> nat option \<Rightarrow> 's \<times> 'a sheap \<Rightarrow>
     ('r option \<times> 's \<times> 'a sheap) res" where
  "slist_foreach n f None s = Inr (None, s)"
| "slist_foreach 0 f (Some r) s = Inl OutOfFuel"
| "slist_foreach (Suc n) f (Some r) s =
     bindE (item_at (snd s) r) (\<lambda>x. bindE (f r s) (\<lambda>(result, s1).
       if result \<noteq> None then Inr (result, s1) else slist_foreach n f (nxt x) s1))"

section \<open>Sorting\<close>

text \<open>
  \<^verbatim>\<open>insert\<close> points to the local item \<^verbatim>\<open>merged\<close> (\<open>None\<close>) or to the last item linked; \<open>merged\<close> is
  \<^verbatim>\<open>merged.next\<close>.
\<close>

definition link :: "nat option \<Rightarrow> nat option \<Rightarrow> nat option \<Rightarrow> 'a sheap \<Rightarrow> (nat option \<times> 'a sheap) res" where
  "link ins p merged h =
     (case ins of None \<Rightarrow> Inr (p, h) | Some r \<Rightarrow> bindE (set_next r p h) (\<lambda>h1. Inr (merged, h1)))"

fun merge_loop ::
    "nat \<Rightarrow> ('a \<Rightarrow> 'a \<Rightarrow> int) \<Rightarrow> nat option \<Rightarrow> nat option \<Rightarrow> nat option \<Rightarrow> nat option \<Rightarrow> 'a sheap \<Rightarrow>
     (nat option \<times> 'a sheap) res" where
  "merge_loop n cmp (Some l) (Some r) ins merged h =
     (case n of 0 \<Rightarrow> Inl OutOfFuel
      | Suc n' \<Rightarrow> bindE (item_at h l) (\<lambda>x. bindE (item_at h r) (\<lambda>y.
          if cmp (userdata x) (userdata y) \<le> 0 then
            bindE (link ins (Some l) merged h) (\<lambda>(m, h1).
            bindE (item_at h1 l) (\<lambda>x1. merge_loop n' cmp (nxt x1) (Some r) (Some l) m h1))
          else
            bindE (link ins (Some r) merged h) (\<lambda>(m, h1).
            bindE (item_at h1 r) (\<lambda>y1. merge_loop n' cmp (Some l) (nxt y1) (Some r) m h1)))))"
| "merge_loop n cmp left right ins merged h =
     link ins (if left \<noteq> None then left else right) merged h"

definition slist_sort_merge ::
    "nat \<Rightarrow> ('a \<Rightarrow> 'a \<Rightarrow> int) \<Rightarrow> nat option \<Rightarrow> nat option \<Rightarrow> 'a sheap \<Rightarrow> (nat option \<times> 'a sheap) res" where
  "slist_sort_merge n cmp left right h = merge_loop n cmp left right None None h"

text \<open>\<open>right\<close> goes two items ahead for every one of \<open>slist\<close>.\<close>

fun skip_half :: "nat \<Rightarrow> nat option \<Rightarrow> nat \<Rightarrow> 'a sheap \<Rightarrow> nat res" where
  "skip_half n None slist h = Inr slist"
| "skip_half 0 (Some r) slist h = Inl OutOfFuel"
| "skip_half (Suc n) (Some r) slist h =
     bindE (item_at h r) (\<lambda>x. case nxt x of None \<Rightarrow> Inr slist
       | Some r1 \<Rightarrow> bindE (item_at h r1) (\<lambda>y. case nxt y of None \<Rightarrow> Inr slist
         | Some r2 \<Rightarrow> bindE (item_at h slist) (\<lambda>z. case nxt z of None \<Rightarrow> Inl NullDeref
           | Some s \<Rightarrow> skip_half n (Some r2) s h)))"

fun slist_sort :: "nat \<Rightarrow> ('a \<Rightarrow> 'a \<Rightarrow> int) \<Rightarrow> nat option \<Rightarrow> 'a sheap \<Rightarrow> (nat option \<times> 'a sheap) res" where
  "slist_sort n cmp None h = Inr (None, h)"
| "slist_sort 0 cmp (Some l) h = Inl OutOfFuel"
| "slist_sort (Suc n) cmp (Some l) h =
     bindE (item_at h l) (\<lambda>x. bindE (skip_half n (nxt x) l h) (\<lambda>s.
     bindE (item_at h s) (\<lambda>y. bindE (set_next s None h) (\<lambda>h1.
     bindE (slist_sort n cmp (Some l) h1) (\<lambda>(left, h2).
     bindE (slist_sort n cmp (nxt y) h2) (\<lambda>(right, h3).
       slist_sort_merge n cmp left right h3))))))"

section \<open>Boxes\<close>

text \<open>The address \<^verbatim>\<open>malloc\<close> returns is an argument, null when it fails.\<close>

definition slist_box :: "nat option \<Rightarrow> 'a \<Rightarrow> 'a sheap \<Rightarrow> nat option \<times> 'a sheap" where
  "slist_box mem d h =
     (case mem of None \<Rightarrow> (None, h) | Some r \<Rightarrow> (Some r, h(r \<mapsto> \<lparr>nxt = None, userdata = d\<rparr>)))"

definition slist_unbox :: "nat option \<Rightarrow> 'a sheap \<Rightarrow> ('a option \<times> 'a sheap) res" where
  "slist_unbox item h =
     (case item of None \<Rightarrow> Inr (None, h)
      | Some r \<Rightarrow> bindE (item_at h r) (\<lambda>x. Inr (Some (userdata x), h(r := None))))"

end
