(* ===== verification/Argz.thy ===== *)
theory Argz
  imports Prelude
begin

text \<open>
  String buffers of libltdl: argz vectors (\<^verbatim>\<open>libltdl/argz.c\<close>) and the bounded string functions
  (\<^verbatim>\<open>libltdl/lt__strl.c\<close>). An argz vector is its block of bytes; the pointer to it is null exactly when
  there are none. A pointer into it is an offset. Whether an allocation succeeds is an argument.
\<close>

definition ENOMEM :: int where "ENOMEM = 12"

section \<open>argz vectors\<close>

definition argz_append :: "bool \<Rightarrow> string \<Rightarrow> string \<Rightarrow> int \<times> string" where
  "argz_append mem argz buf =
     (if buf = [] then (0, argz) else if \<not> mem then (ENOMEM, argz) else (0, argz @ buf))"

text \<open>The copying loop: \<open>out\<close> is what has been written before \<^verbatim>\<open>q\<close>.\<close>

fun sep_loop :: "char \<Rightarrow> string \<Rightarrow> string \<Rightarrow> string" where
  "sep_loop delim [] out = out"
| "sep_loop delim (p # ps) out =
     (if p = delim then
        (if out \<noteq> [] \<and> last out \<noteq> EOS then sep_loop delim ps (out @ [EOS]) else sep_loop delim ps out)
      else sep_loop delim ps (out @ [p]))"

text \<open>\<open>str\<close> is the text of the string, without its terminator. The block is never empty.\<close>

definition argz_create_sep :: "bool \<Rightarrow> string \<Rightarrow> char \<Rightarrow> string \<Rightarrow> int \<times> string" where
  "argz_create_sep mem str delim argz =
     (if \<not> mem then (ENOMEM, argz) else (0, sep_loop delim str [] @ [EOS]))"

fun scan_back :: "string \<Rightarrow> nat \<Rightarrow> nat" where
  "scan_back argz 0 = 0"
| "scan_back argz (Suc n) = (if argz ! n \<noteq> EOS then scan_back argz n else Suc n)"

definition argz_insert :: "bool \<Rightarrow> string \<Rightarrow> nat option \<Rightarrow> string \<Rightarrow> (int \<times> string) res" where
  "argz_insert mem argz position entry =
     (if entry = [] then Inl AssertFailed
      else case position of
        None \<Rightarrow> Inr (argz_append mem argz (entry @ [EOS]))
      | Some b \<Rightarrow>
          if b > length argz then Inl OutOfBounds
          else let n = scan_back argz b in
            if \<not> mem then Inr (ENOMEM, argz)
            else Inr (0, take n argz @ entry @ [EOS] @ drop n argz))"

fun find_eos :: "string \<Rightarrow> nat \<Rightarrow> nat option" where
  "find_eos [] n = None"
| "find_eos (c # s) n = (if c = EOS then Some n else find_eos s (Suc n))"

definition argz_next :: "string \<Rightarrow> nat option \<Rightarrow> nat option res" where
  "argz_next argz entry =
     (case entry of
        Some e \<Rightarrow>
          if argz = [] then Inl BadPointer
          else if e \<ge> length argz then Inl AssertFailed
          else (case find_eos (drop e argz) e of
                  None \<Rightarrow> Inl OutOfBounds
                | Some n \<Rightarrow> Inr (if n + 1 \<ge> length argz then None else Some (n + 1)))
      | None \<Rightarrow> Inr (if length argz > 0 then Some 0 else None))"

text \<open>
  \<^verbatim>\<open>argz_len\<close> is lowered twice before it is first compared with 0; for a vector of fewer than two bytes
  the unsigned number goes round and the loop starts outside the block.
\<close>

fun stringify_loop :: "nat \<Rightarrow> char \<Rightarrow> string \<Rightarrow> string" where
  "stringify_loop 0 sep argz = argz"
| "stringify_loop (Suc i) sep argz =
     stringify_loop i sep (if argz ! Suc i = EOS then argz[Suc i := sep] else argz)"

definition argz_stringify :: "string \<Rightarrow> char \<Rightarrow> string res" where
  "argz_stringify argz sep =
     (if sep = EOS then Inr argz
      else if length argz < 2 then Inl OutOfBounds
      else Inr (stringify_loop (length argz - 2) sep argz))"

section \<open>Bounded copying\<close>

definition poke :: "string \<Rightarrow> nat \<Rightarrow> char \<Rightarrow> string res" where
  "poke dst n c = (if n < length dst then Inr (dst[n := c]) else Inl OutOfBounds)"

text \<open>The copying loop of both functions; the number of characters in \<open>dst\<close> comes back with the rest of \<open>src\<close>.\<close>

fun copy_loop :: "string \<Rightarrow> nat \<Rightarrow> string \<Rightarrow> nat \<Rightarrow> (string \<times> nat \<times> string) res" where
  "copy_loop [] dstsize dst n = Inr (dst, n, [])"
| "copy_loop (q # src) dstsize dst n =
     (if n < dstsize - 1 then bindE (poke dst n q) (\<lambda>d. copy_loop src dstsize d (Suc n))
      else Inr (dst, n, q # src))"

definition lt_strlcpy :: "string \<Rightarrow> string \<Rightarrow> nat \<Rightarrow> (nat \<times> string) res" where
  "lt_strlcpy dst src dstsize =
     (if dstsize < 1 then Inl AssertFailed
      else bindE (copy_loop (c_str src) dstsize dst 0) (\<lambda>(d, n, rest).
        bindE (poke d n EOS) (\<lambda>d1. Inr (n + length rest, d1))))"

definition lt_strlcat :: "string \<Rightarrow> string \<Rightarrow> nat \<Rightarrow> (nat \<times> string) res" where
  "lt_strlcat dst src dstsize =
     (if dstsize < 1 then Inl AssertFailed
      else bindE (strlen dst) (\<lambda>len.
        bindE (copy_loop (c_str src) dstsize dst len) (\<lambda>(d, n, rest).
          bindE (poke d n EOS) (\<lambda>d1. Inr (n + length rest, d1)))))"

end
