(* ===== verification/Ltdl_State.thy ===== *)
theory Ltdl_State
  imports Slist Argz
begin

text \<open>
  The state of libltdl, the loader library in the repository (\<^verbatim>\<open>libltdl/\<close>), its memory functions
  (\<^verbatim>\<open>lt__alloc.c\<close>) and its error state (\<^verbatim>\<open>lt_error.c\<close>). The static variables of all its files are one
  record. A function of the library is an action: from a state to a value and a state, or to the first
  undefined operation. Module handles, loader tables and the items of the list of loaders live in
  memory and are named by addresses; strings are values. What the operating system does is a record
  of functions (\<open>lt_os\<close>), what the functions behind function pointers do another one (\<open>lt_code\<close>).

  The configuration is that of the build on Linux: the path separator is a colon, directories have
  no second separator, modules are loaded with \<^verbatim>\<open>dlopen\<close>, which loads their dependencies itself.
\<close>

section \<open>Actions\<close>

type_synonym ('s, 'a) act = "'s \<Rightarrow> ('a \<times> 's) res"

definition retS :: "'a \<Rightarrow> ('s, 'a) act" where
  "retS x = (\<lambda>s. Inr (x, s))"

definition bindS :: "('s, 'a) act \<Rightarrow> ('a \<Rightarrow> ('s, 'b) act) \<Rightarrow> ('s, 'b) act" where
  "bindS m f = (\<lambda>s. bindE (m s) (\<lambda>(x, s1). f x s1))"

definition andS :: "('s, 'a) act \<Rightarrow> ('s, 'b) act \<Rightarrow> ('s, 'b) act" where
  "andS m m' = bindS m (\<lambda>_. m')"

definition modify :: "('s \<Rightarrow> 's) \<Rightarrow> ('s, unit) act" where
  "modify f = (\<lambda>s. Inr ((), f s))"

definition asks :: "('s \<Rightarrow> 'a) \<Rightarrow> ('s, 'a) act" where
  "asks f = (\<lambda>s. Inr (f s, s))"

definition fault :: "ub \<Rightarrow> ('s, 'a) act" where
  "fault e = (\<lambda>s. Inl e)"

definition lift :: "'a res \<Rightarrow> ('s, 'a) act" where
  "lift r = (\<lambda>s. bindE r (\<lambda>x. Inr (x, s)))"

definition asserts :: "bool \<Rightarrow> ('s, unit) act" where
  "asserts b = (if b then retS () else fault AssertFailed)"

fun deref :: "ub \<Rightarrow> 'a option \<Rightarrow> ('s, 'a) act" where
  "deref e None = fault e"
| "deref e (Some x) = retS x"

named_theorems act_simps

lemma act_run [act_simps]:
  "retS x s = Inr (x, s)" "bindS m f s = bindE (m s) (\<lambda>(x, s1). f x s1)"
  "andS m m' s = bindE (m s) (\<lambda>(x, s1). m' s1)" "modify g s = Inr ((), g s)" "asks h s = Inr (h s, s)"
  "fault e s = Inl e" "lift r s = bindE r (\<lambda>x. Inr (x, s))"
  "asserts b s = (if b then Inr ((), s) else Inl AssertFailed)"
  by (simp_all add: retS_def bindS_def andS_def modify_def asks_def fault_def lift_def asserts_def)

lemma deref_run [act_simps]:
  "deref e None s = Inl e" "deref e (Some x) s = Inr (x, s)"
  by (simp_all add: act_simps)

section \<open>Data\<close>

datatype lt_error =
    LT_ERROR_UNKNOWN | LT_ERROR_DLOPEN_NOT_SUPPORTED | LT_ERROR_INVALID_LOADER | LT_ERROR_INIT_LOADER
  | LT_ERROR_REMOVE_LOADER | LT_ERROR_FILE_NOT_FOUND | LT_ERROR_DEPLIB_NOT_FOUND | LT_ERROR_NO_SYMBOLS
  | LT_ERROR_CANNOT_OPEN | LT_ERROR_CANNOT_CLOSE | LT_ERROR_SYMBOL_NOT_FOUND | LT_ERROR_NO_MEMORY
  | LT_ERROR_INVALID_HANDLE | LT_ERROR_BUFFER_OVERFLOW | LT_ERROR_INVALID_ERRORCODE | LT_ERROR_SHUTDOWN
  | LT_ERROR_CLOSE_RESIDENT_MODULE | LT_ERROR_INVALID_MUTEX_ARGS | LT_ERROR_INVALID_POSITION
  | LT_ERROR_CONFLICTING_FLAGS

definition lt_dlerror_table :: "(lt_error \<times> string) list" where
  "lt_dlerror_table =
    [(LT_ERROR_UNKNOWN, ''unknown error''),
     (LT_ERROR_DLOPEN_NOT_SUPPORTED, ''dlopen support not available''),
     (LT_ERROR_INVALID_LOADER, ''invalid loader''),
     (LT_ERROR_INIT_LOADER, ''loader initialization failed''),
     (LT_ERROR_REMOVE_LOADER, ''loader removal failed''),
     (LT_ERROR_FILE_NOT_FOUND, ''file not found''),
     (LT_ERROR_DEPLIB_NOT_FOUND, ''dependency library not found''),
     (LT_ERROR_NO_SYMBOLS, ''no symbols defined''),
     (LT_ERROR_CANNOT_OPEN, ''can'' @ [CHR 39] @ ''t open the module''),
     (LT_ERROR_CANNOT_CLOSE, ''can'' @ [CHR 39] @ ''t close the module''),
     (LT_ERROR_SYMBOL_NOT_FOUND, ''symbol not found''),
     (LT_ERROR_NO_MEMORY, ''not enough memory''),
     (LT_ERROR_INVALID_HANDLE, ''invalid module handle''),
     (LT_ERROR_BUFFER_OVERFLOW, ''internal buffer overflow''),
     (LT_ERROR_INVALID_ERRORCODE, ''invalid errorcode''),
     (LT_ERROR_SHUTDOWN, ''library already shutdown''),
     (LT_ERROR_CLOSE_RESIDENT_MODULE, ''can'' @ [CHR 39] @ ''t close resident module''),
     (LT_ERROR_INVALID_MUTEX_ARGS, ''internal error (code withdrawn)''),
     (LT_ERROR_INVALID_POSITION, ''invalid search path insert position''),
     (LT_ERROR_CONFLICTING_FLAGS, ''symbol visibility can be global or local'')]"

definition LT_ERROR_MAX :: int where
  "LT_ERROR_MAX = int (length lt_dlerror_table)"

text \<open>
  A pointer to a message points into the table of the library or to a string from elsewhere; the code
  compares such pointers.
\<close>

datatype err_msg = Table lt_error | Diagnostic string
  | Dangling                                   \<comment> \<open>a local array of a function that has returned\<close>

record lt_advise =
  try_ext :: bool
  adv_is_resident :: bool
  adv_is_symglobal :: bool
  adv_is_symlocal :: bool
  try_preload_only :: bool

text \<open>A table of a loader; functions are addresses of code, \<open>None\<close> for null pointers.\<close>

record lt_dlvtable =
  vt_name :: "string option"
  sym_prefix :: "string option"
  module_open :: "nat option"
  module_close :: "nat option"
  find_sym :: "nat option"
  dlloader_init :: "nat option"
  dlloader_exit :: "nat option"
  dlloader_data :: "nat option"
  priority :: int

definition LT_DLLOADER_PREPEND :: int where "LT_DLLOADER_PREPEND = 0"
definition LT_DLLOADER_APPEND :: int where "LT_DLLOADER_APPEND = 1"

text \<open>\<^verbatim>\<open>lt_dlinfo\<close> is part of the handle; \<open>interface_data\<close> leaves the end marker out.\<close>

record lt_handle =
  hnext :: "nat option"
  vtable :: "nat option"
  filename :: "string option"
  mname :: "string option"
  ref_count :: int
  is_resident :: bool
  is_symglobal :: bool
  is_symlocal :: bool
  depcount :: nat
  deplibs :: "nat list"
  hmodule :: "nat option"
  interface_data :: "(nat \<times> nat option) list"

text \<open>The static variables of the loaders for other systems; functions are addresses of code.\<close>

record system_statics =
  loadlibrary_vtable :: "nat option"
  loadlibrary_iface :: "nat option"
  shl_vtable :: "nat option"
  shl_self :: "nat option"
  dld_vtable :: "nat option"
  dld_names :: "nat \<Rightarrow> string option"          \<comment> \<open>the copies of file names in memory\<close>
  add_on_vtable :: "nat option"
  dyld_vtable :: "nat option"
  lt__addimage :: "nat option"
  lt__image_symbol :: "nat option"
  lt__image_symbol_p :: "nat option"
  lt__module_export :: "nat option"
  dyld_cannot_close :: int

definition zero_statics :: system_statics where
  "zero_statics = \<lparr>loadlibrary_vtable = None, loadlibrary_iface = None, shl_vtable = None, shl_self = None,
     dld_vtable = None, dld_names = Map.empty, add_on_vtable = None, dyld_vtable = None, lt__addimage = None, lt__image_symbol = None,
     lt__image_symbol_p = None, lt__module_export = None, dyld_cannot_close = 0\<rparr>"

record 'k ltdl =
  last_error :: "err_msg option"
  user_error_strings :: "string list"
  errorcount :: int
  alloc_die_set :: bool                        \<comment> \<open>\<^verbatim>\<open>lt__alloc_die\<close> is the callback of \<^verbatim>\<open>ltdl.c\<close>\<close>
  user_search_path :: "string option"
  handles :: "nat option"
  hmem :: "nat \<Rightarrow> lt_handle option"
  initialized :: int
  loaders :: "nat option"
  lmem :: "nat sheap"                          \<comment> \<open>the boxes of the list of loaders\<close>
  vmem :: "nat \<Rightarrow> lt_dlvtable option"
  preopen_vtable :: "nat option"               \<comment> \<open>\<^verbatim>\<open>vtable\<close> of \<^verbatim>\<open>preopen.c\<close>\<close>
  dlopen_vtable :: "nat option"                \<comment> \<open>\<^verbatim>\<open>vtable\<close> of \<^verbatim>\<open>dlopen.c\<close>\<close>
  preloaded_symlists :: "nat list"             \<comment> \<open>the chain of symbol lists, by their addresses\<close>
  default_preloaded_symbols :: "nat option"
  interfaces :: "nat \<Rightarrow> (string \<times> nat option) option" \<comment> \<open>\<^verbatim>\<open>lt__interface_id\<close> objects\<close>
  statics :: system_statics
  plat :: 'k

type_synonym ('k, 'a) lt = "('k ltdl, 'a) act"

text \<open>
  The operating system, the static symbol lists (pairs up to the null name), the strings of the
  configuration, and the number of rounds a loop over a chain may take.
\<close>

record 'k lt_os =
  os_malloc :: "'k \<Rightarrow> nat option \<times> 'k"
  os_junk :: "nat \<Rightarrow> 'k \<Rightarrow> string"             \<comment> \<open>the bytes of fresh memory\<close>
  os_fopen :: "string \<Rightarrow> 'k \<Rightarrow> string option \<times> 'k"
  os_access :: "string \<Rightarrow> 'k \<Rightarrow> bool \<times> 'k"
  os_getenv :: "string \<Rightarrow> 'k \<Rightarrow> string option"
  os_readdir :: "string \<Rightarrow> 'k \<Rightarrow> string list option \<times> 'k"
  os_dlopen :: "string option \<Rightarrow> bool \<Rightarrow> bool \<Rightarrow> 'k \<Rightarrow> nat option \<times> 'k" \<comment> \<open>\<^verbatim>\<open>RTLD_GLOBAL\<close>, \<^verbatim>\<open>RTLD_LOCAL\<close>\<close>
  os_dlclose :: "nat option \<Rightarrow> 'k \<Rightarrow> int \<times> 'k"
  os_dlsym :: "nat option \<Rightarrow> string \<Rightarrow> 'k \<Rightarrow> nat option \<times> 'k"
  os_dlerror :: "'k \<Rightarrow> string option \<times> 'k"
  symlist_at :: "nat \<Rightarrow> (string \<times> nat option) list"
  LT_OBJDIR :: string
  LT_LIBEXT :: string
  LT_MODULE_EXT :: string
  LT_MODULE_PATH_VAR :: string
  LT_DLSEARCH_PATH :: string
  LTDLOPEN_symbols :: nat                      \<comment> \<open>address of \<^verbatim>\<open>preloaded_symbols\<close>\<close>
  LTDLOPEN_name :: string                      \<comment> \<open>\<^verbatim>\<open>LT_STR(LTDLOPEN)\<close>\<close>
  rounds :: nat

record 'k lt_code =
  call_open :: "nat \<Rightarrow> nat option \<Rightarrow> string option \<Rightarrow> lt_advise option \<Rightarrow> ('k, nat option) lt"
  call_close :: "nat \<Rightarrow> nat option \<Rightarrow> nat option \<Rightarrow> ('k, int) lt"
  call_sym :: "nat \<Rightarrow> nat option \<Rightarrow> nat option \<Rightarrow> string \<Rightarrow> ('k, nat option) lt"
  call_loader :: "nat \<Rightarrow> nat option \<Rightarrow> ('k, int) lt"
  call_get_vtable :: "nat \<Rightarrow> nat option \<Rightarrow> ('k, nat option) lt"
  call_iface :: "nat \<Rightarrow> nat \<Rightarrow> string \<Rightarrow> ('k, int) lt"

text \<open>A call of the operating system.\<close>

definition sys :: "('k \<Rightarrow> 'a \<times> 'k) \<Rightarrow> ('k, 'a) lt" where
  "sys f = (\<lambda>s. case f (plat s) of (x, k) \<Rightarrow> Inr (x, s\<lparr>plat := k\<rparr>))"

lemma sys_run: "sys f s = Inr (fst (f (plat s)), s\<lparr>plat := snd (f (plat s))\<rparr>)"
  by (simp add: sys_def case_prod_beta)

section \<open>The last error\<close>

definition lt__error_string :: "int \<Rightarrow> err_msg res" where
  "lt__error_string errorcode =
     (if errorcode < 0 \<or> errorcode \<ge> LT_ERROR_MAX then Inl AssertFailed
      else Inr (Table (fst (lt_dlerror_table ! nat errorcode))))"

definition lt__get_last_error :: "('k, err_msg option) lt" where
  "lt__get_last_error = asks last_error"

definition lt__set_last_error :: "err_msg option \<Rightarrow> ('k, unit) lt" where
  "lt__set_last_error errormsg = modify (last_error_update (\<lambda>_. errormsg))"

text \<open>\<^verbatim>\<open>LT__SETERROR\<close> with a name of the enumeration.\<close>

definition set_error :: "lt_error \<Rightarrow> ('k, unit) lt" where
  "set_error e = lt__set_last_error (Some (Table e))"

lemma error_run [act_simps]:
  "lt__get_last_error s = Inr (last_error s, s)"
  "lt__set_last_error m s = Inr ((), s\<lparr>last_error := m\<rparr>)"
  "set_error e s = Inr ((), s\<lparr>last_error := Some (Table e)\<rparr>)"
  by (simp_all add: lt__get_last_error_def lt__set_last_error_def set_error_def act_simps)

definition lt_dlseterror :: "int \<Rightarrow> ('k, int) lt" where
  "lt_dlseterror errindex =
     bindS (asks errorcount) (\<lambda>n.
       if errindex \<ge> n \<or> errindex < 0 then andS (set_error LT_ERROR_INVALID_ERRORCODE) (retS 1)
       else if errindex < LT_ERROR_MAX then
         bindS (lift (lt__error_string errindex)) (\<lambda>m. andS (lt__set_last_error (Some m)) (retS 0))
       else bindS (asks user_error_strings) (\<lambda>us.
         if nat (errindex - LT_ERROR_MAX) \<ge> length us then fault OutOfBounds
         else andS (lt__set_last_error (Some (Diagnostic (us ! nat (errindex - LT_ERROR_MAX))))) (retS 0)))"

definition lt_dlerror :: "('k, err_msg option) lt" where
  "lt_dlerror = bindS lt__get_last_error (\<lambda>error. andS (lt__set_last_error None) (retS error))"

text \<open>Whether the last error is the message for a missing file: the pointers are compared.\<close>

definition file_not_found :: "('k, bool) lt" where
  "file_not_found = bindS lt__get_last_error (\<lambda>error. retS (error = Some (Table LT_ERROR_FILE_NOT_FOUND)))"

section \<open>Memory\<close>

definition lt__alloc_die_callback :: "('k, unit) lt" where
  "lt__alloc_die_callback = set_error LT_ERROR_NO_MEMORY"

definition alloc_die_default :: "('k, unit) lt" where
  "alloc_die_default = fault ExitFailure"

definition lt__alloc_die :: "('k, unit) lt" where
  "lt__alloc_die = bindS (asks alloc_die_set) (\<lambda>b. if b then lt__alloc_die_callback else alloc_die_default)"

definition lt__malloc :: "'k lt_os \<Rightarrow> ('k, nat option) lt" where
  "lt__malloc S = bindS (sys (os_malloc S)) (\<lambda>mem.
     if mem = None then andS lt__alloc_die (retS None) else retS mem)"

text \<open>
  Zeroed memory, resized memory and copies: what is stored is a value of the caller, so only the
  success matters, and the address where it is one of a handle.
\<close>

definition lt__zalloc :: "'k lt_os \<Rightarrow> ('k, nat option) lt" where
  "lt__zalloc S = bindS (lt__malloc S) retS"

definition lt__realloc :: "'k lt_os \<Rightarrow> ('k, bool) lt" where
  "lt__realloc S = bindS (sys (os_malloc S)) (\<lambda>mem.
     if mem = None then andS lt__alloc_die (retS False) else retS True)"

definition lt__memdup :: "'k lt_os \<Rightarrow> string \<Rightarrow> ('k, string option) lt" where
  "lt__memdup S mem = bindS (lt__malloc S) (\<lambda>newmem. retS (if newmem = None then None else Some mem))"

definition lt__strdup :: "'k lt_os \<Rightarrow> string \<Rightarrow> ('k, string option) lt" where
  "lt__strdup S str = bindS (lt__memdup S (str @ [EOS])) (\<lambda>m. retS (map_option c_str m))"

definition lt_dladderror :: "'k lt_os \<Rightarrow> string \<Rightarrow> ('k, int) lt" where
  "lt_dladderror S diagnostic =
     bindS (asks errorcount) (\<lambda>n.
     bindS (lt__realloc S) (\<lambda>temp.
       if temp then andS (modify (\<lambda>s. s\<lparr>
           user_error_strings := take (nat (n - LT_ERROR_MAX)) (user_error_strings s) @ [diagnostic],
           errorcount := n + 1\<rparr>)) (retS n)
       else retS (-1)))"

section \<open>Objects in memory\<close>

definition handle_at :: "nat \<Rightarrow> ('k, lt_handle) lt" where
  "handle_at r = bindS (asks (\<lambda>s. hmem s r)) (deref BadPointer)"

definition update_handle :: "nat \<Rightarrow> (lt_handle \<Rightarrow> lt_handle) \<Rightarrow> ('k, unit) lt" where
  "update_handle r f = bindS (handle_at r) (\<lambda>x. modify (\<lambda>s. s\<lparr>hmem := (hmem s)(r \<mapsto> f x)\<rparr>))"

definition free_handle :: "nat \<Rightarrow> ('k, unit) lt" where
  "free_handle r = bindS (handle_at r) (\<lambda>_. modify (\<lambda>s. s\<lparr>hmem := (hmem s)(r := None)\<rparr>))"

definition vtable_at :: "nat \<Rightarrow> ('k, lt_dlvtable) lt" where
  "vtable_at v = bindS (asks (\<lambda>s. vmem s v)) (deref BadPointer)"

lemma handle_run [act_simps]:
  "handle_at r s = (case hmem s r of None \<Rightarrow> Inl BadPointer | Some x \<Rightarrow> Inr (x, s))"
  "update_handle r f s = (case hmem s r of None \<Rightarrow> Inl BadPointer
     | Some x \<Rightarrow> Inr ((), s\<lparr>hmem := (hmem s)(r \<mapsto> f x)\<rparr>))"
  "free_handle r s = (case hmem s r of None \<Rightarrow> Inl BadPointer
     | Some x \<Rightarrow> Inr ((), s\<lparr>hmem := (hmem s)(r := None)\<rparr>))"
  "vtable_at v s = (case vmem s v of None \<Rightarrow> Inl BadPointer | Some x \<Rightarrow> Inr (x, s))"
  by (simp_all add: handle_at_def update_handle_def free_handle_def vtable_at_def act_simps split: option.splits)

end
