(* ===== verification/Ltdl_Path.thy ===== *)
theory Ltdl_Path
  imports Ltdl_State
begin

text \<open>
  Search paths of libltdl (\<^verbatim>\<open>libltdl/ltdl.c\<close>): making a path canonical, walking through its
  directories, the files of a directory, and the user's search path. A pointer into a vector or a
  path is an offset. A callback works on a state of its own, the data pointers of the code. The
  loops over a vector get its length as fuel, which is enough, as every round goes one entry on.
\<close>

abbreviation PATHSEP :: char where "PATHSEP \<equiv> CHR '':''"
abbreviation SLASH :: char where "SLASH \<equiv> CHR ''/''"

section \<open>Canonical paths\<close>

text \<open>The copying loop: \<open>out\<close> is what \<^verbatim>\<open>canonical\<close> holds before \<^verbatim>\<open>dest\<close>.\<close>

fun canon_loop :: "string \<Rightarrow> string \<Rightarrow> string" where
  "canon_loop [] out = out"
| "canon_loop (c # path) out =
     (let d = (case path of [] \<Rightarrow> EOS | e # _ \<Rightarrow> e) in
      if c = PATHSEP \<and> (out = [] \<or> d = PATHSEP \<or> d = EOS) then canon_loop path out
      else if c \<noteq> SLASH then canon_loop path (out @ [c])
      else if d \<noteq> PATHSEP \<and> d \<noteq> EOS \<and> d \<noteq> SLASH then canon_loop path (out @ [SLASH])
      else canon_loop path out)"

text \<open>\<open>None\<close>: the function returned 1 and left its result argument alone.\<close>

definition canonicalize_path :: "'k lt_os \<Rightarrow> string \<Rightarrow> ('k, string option) lt" where
  "canonicalize_path S path =
     andS (asserts (path \<noteq> [])) (bindS (lt__malloc S) (\<lambda>canonical.
       retS (if canonical = None then None else Some (canon_loop path []))))"

text \<open>\<^verbatim>\<open>argz.c\<close> calls \<^verbatim>\<open>malloc\<close> itself; its failure is translated here.\<close>

definition argz_failed :: "int \<Rightarrow> ('k, unit) lt" where
  "argz_failed error = set_error (if error = ENOMEM then LT_ERROR_NO_MEMORY else LT_ERROR_UNKNOWN)"

definition argzize_path :: "'k lt_os \<Rightarrow> string \<Rightarrow> ('k, string option) lt" where
  "argzize_path S path =
     bindS (sys (os_malloc S)) (\<lambda>mem. case argz_create_sep (mem \<noteq> None) path PATHSEP [] of (error, argz) \<Rightarrow>
       if error \<noteq> 0 then andS (argz_failed error) (retS None) else retS (Some argz))"

section \<open>The directories of a path\<close>

text \<open>The name that \<^verbatim>\<open>strcpy\<close> builds in a buffer of the given size.\<close>

definition file_in_dir :: "nat \<Rightarrow> string \<Rightarrow> string \<Rightarrow> string res" where
  "file_in_dir fsize dir base =
     (if length dir + 1 > fsize then Inl BufferOverflow
      else if base = [] then Inr dir
      else if dir = [] then Inl OutOfBounds
      else let d = (if last dir \<noteq> SLASH then dir @ [SLASH] else dir) in
        if length d + length base + 1 > fsize then Inl BufferOverflow else Inr (d @ base))"

type_synonym ('k, 's) callback = "string \<Rightarrow> 's \<Rightarrow> ('k, int \<times> 's) lt"

fun dir_loop ::
    "nat \<Rightarrow> 'k lt_os \<Rightarrow> string \<Rightarrow> nat option \<Rightarrow> string \<Rightarrow> nat \<Rightarrow> ('k, 's) callback \<Rightarrow> 's \<Rightarrow> ('k, int \<times> 's) lt" where
  "dir_loop n S argz prev base fsize func d =
     bindS (lift (argz_next argz prev)) (\<lambda>p. case p of None \<Rightarrow> retS (0, d)
       | Some e \<Rightarrow>
         (case n of 0 \<Rightarrow> fault OutOfFuel | Suc n' \<Rightarrow>
          let dir = c_str (drop e argz) in
          bindS (if 1 + length dir + length base \<ge> fsize
              then bindS (lt__malloc S) (\<lambda>mem.
                retS (if mem = None then None else Some (1 + length dir + 1 + length base)))
              else retS (Some fsize)) (\<lambda>sz. case sz of None \<Rightarrow> retS (0, d)
            | Some fsize' \<Rightarrow>
              andS (asserts (fsize' > length dir))
              (bindS (lift (file_in_dir fsize' dir base)) (\<lambda>fname.
               bindS (func fname d) (\<lambda>(result, d').
                 if result \<noteq> 0 then retS (result, d')
                 else dir_loop n' S argz (Some e) base fsize' func d'))))))"

declare dir_loop.simps [simp del]

definition foreach_dirinpath ::
    "'k lt_os \<Rightarrow> string option \<Rightarrow> string option \<Rightarrow> ('k, 's) callback \<Rightarrow> 's \<Rightarrow> ('k, int \<times> 's) lt" where
  "foreach_dirinpath S search_path base_name func d =
     (case search_path of
        None \<Rightarrow> andS (set_error LT_ERROR_FILE_NOT_FOUND) (retS (0, d))
      | Some path \<Rightarrow>
          if path = [] then andS (set_error LT_ERROR_FILE_NOT_FOUND) (retS (0, d))
          else bindS (canonicalize_path S path) (\<lambda>c. case c of None \<Rightarrow> retS (0, d)
            | Some canonical \<Rightarrow>
              bindS (argzize_path S canonical) (\<lambda>a. case a of None \<Rightarrow> retS (0, d)
                | Some argz \<Rightarrow> dir_loop (length argz) S argz None
                    (case base_name of None \<Rightarrow> [] | Some b \<Rightarrow> b) 0 func d)))"

section \<open>Finding a file\<close>

fun strrchr :: "string \<Rightarrow> char \<Rightarrow> nat option" where
  "strrchr [] c = None"
| "strrchr (d # s) c =
     (case strrchr s c of Some n \<Rightarrow> Some (Suc n) | None \<Rightarrow> if d = c then Some 0 else None)"

text \<open>An open file is what is left to read of it; the state is \<open>(*pdir, *pfile)\<close>.\<close>

definition find_file_callback :: "'k lt_os \<Rightarrow> ('k, string option \<times> string option) callback" where
  "find_file_callback S fname d =
     (case d of (pdir, _) \<Rightarrow>
       andS (asserts (fname \<noteq> []))
       (bindS (sys (os_fopen S fname)) (\<lambda>pfile. case pfile of None \<Rightarrow> retS (0, pdir, None)
         | Some file \<Rightarrow>
           let name = (case strrchr fname SLASH of Some (Suc n) \<Rightarrow> take (Suc n) fname | _ \<Rightarrow> fname) in
           bindS (lt__strdup S name) (\<lambda>dir. retS (if dir = None then -1 else 1, dir, Some file)))))"

definition find_file ::
    "'k lt_os \<Rightarrow> string option \<Rightarrow> string \<Rightarrow> string option \<Rightarrow> ('k, string option \<times> string option) lt" where
  "find_file S search_path base_name pdir =
     bindS (foreach_dirinpath S search_path (Some base_name) (find_file_callback S) (pdir, None)) (\<lambda>(_, d). retS d)"

section \<open>The files of a directory\<close>

definition lt_argz_insert :: "'k lt_os \<Rightarrow> string \<Rightarrow> nat option \<Rightarrow> string \<Rightarrow> ('k, int \<times> string) lt" where
  "lt_argz_insert S argz position entry =
     bindS (sys (os_malloc S)) (\<lambda>mem.
     bindS (if position \<noteq> None then lift (argz_insert (mem \<noteq> None) argz position entry)
            else retS (argz_append (mem \<noteq> None) argz (entry @ [EOS]))) (\<lambda>(error, argz').
       if error \<noteq> 0 then andS (argz_failed error) (retS (1, argz')) else retS (0, argz')))"

text \<open>The sign of \<^verbatim>\<open>strcmp\<close>, which compares characters as unsigned numbers.\<close>

fun strcmp :: "string \<Rightarrow> string \<Rightarrow> int" where
  "strcmp [] [] = 0"
| "strcmp [] (d # t) = -1"
| "strcmp (c # s) [] = 1"
| "strcmp (c # s) (d # t) =
     (if c = d then strcmp s t else if (of_char c :: nat) < of_char d then -1 else 1)"

text \<open>Whether the entry is there already, and the first entry that is greater.\<close>

fun order_loop :: "nat \<Rightarrow> string \<Rightarrow> nat option \<Rightarrow> string \<Rightarrow> (bool \<times> nat option) res" where
  "order_loop n argz prev entry =
     bindE (argz_next argz prev) (\<lambda>position. case position of None \<Rightarrow> Inr (False, None)
       | Some b \<Rightarrow>
         let cmp = strcmp entry (c_str (drop b argz)) in
         if cmp < 0 then Inr (False, Some b)
         else if cmp = 0 then Inr (True, None)
         else (case n of 0 \<Rightarrow> Inl OutOfFuel | Suc n' \<Rightarrow> order_loop n' argz (Some b) entry))"

declare order_loop.simps [simp del]

definition lt_argz_insertinorder :: "'k lt_os \<Rightarrow> string \<Rightarrow> string \<Rightarrow> ('k, int \<times> string) lt" where
  "lt_argz_insertinorder S argz entry =
     andS (asserts (entry \<noteq> []))
     (bindS (if argz \<noteq> [] then lift (order_loop (length argz) argz None entry) else retS (False, None))
       (\<lambda>(dup, position). if dup then retS (0, argz) else lt_argz_insert S argz position entry))"

text \<open>The end of a file name without its version numbers, and without its extension.\<close>

fun version_start :: "string \<Rightarrow> nat \<Rightarrow> nat" where
  "version_start name (Suc (Suc p)) =
     (if name ! Suc p \<in> set ''.0123456789'' then version_start name (Suc p) else Suc (Suc p))"
| "version_start name p = p"

fun last_dot :: "string \<Rightarrow> nat \<Rightarrow> nat option" where
  "last_dot name 0 = None"
| "last_dot name (Suc p) = (if name ! Suc p = CHR ''.'' then Some (Suc p) else last_dot name p)"

definition plain_end :: "string \<Rightarrow> nat" where
  "plain_end name =
     (let p = version_start name (length name);
          e = (if p < length name \<and> name ! p = CHR ''.'' then p else length name)
      in case last_dot name (e - 1) of Some q \<Rightarrow> q | None \<Rightarrow> e)"

definition lt_argz_insertdir :: "'k lt_os \<Rightarrow> string \<Rightarrow> string \<Rightarrow> string \<Rightarrow> ('k, int \<times> string) lt" where
  "lt_argz_insertdir S argz dirnam d_name =
     bindS (lt__malloc S) (\<lambda>buf.
       if buf = None then retS (1, argz)
       else lt_argz_insertinorder S argz (dirnam @ [SLASH] @ take (plain_end d_name) d_name))"

fun readdir_loop :: "'k lt_os \<Rightarrow> string \<Rightarrow> string list \<Rightarrow> string \<Rightarrow> ('k, int \<times> string) lt" where
  "readdir_loop S dirnam [] argz = retS (0, argz)"
| "readdir_loop S dirnam (dp # dps) argz =
     (if take 1 dp \<noteq> ''.'' then
        bindS (lt_argz_insertdir S argz dirnam dp) (\<lambda>(e, argz').
          if e \<noteq> 0 then retS (1, argz') else readdir_loop S dirnam dps argz')
      else readdir_loop S dirnam dps argz)"

definition list_files_by_dir :: "'k lt_os \<Rightarrow> string \<Rightarrow> string \<Rightarrow> ('k, int \<times> string) lt" where
  "list_files_by_dir S dirnam argz =
     andS (asserts (dirnam \<noteq> []))
     (andS (asserts (last dirnam \<noteq> SLASH))
     (bindS (sys (os_readdir S dirnam)) (\<lambda>dirp. case dirp of None \<Rightarrow> retS (1, argz)
        | Some names \<Rightarrow> readdir_loop S dirnam names argz)))"

fun file_loop :: "nat \<Rightarrow> string \<Rightarrow> nat option \<Rightarrow> ('k, 's) callback \<Rightarrow> 's \<Rightarrow> ('k, int \<times> 's) lt" where
  "file_loop n argz prev func d =
     bindS (lift (argz_next argz prev)) (\<lambda>p. case p of None \<Rightarrow> retS (0, d)
       | Some e \<Rightarrow>
         (case n of 0 \<Rightarrow> fault OutOfFuel | Suc n' \<Rightarrow>
          bindS (func (c_str (drop e argz)) d) (\<lambda>(is_done, d').
            if is_done \<noteq> 0 then retS (is_done, d') else file_loop n' argz (Some e) func d')))"

declare file_loop.simps [simp del]

definition foreachfile_callback :: "'k lt_os \<Rightarrow> ('k, 's) callback \<Rightarrow> ('k, 's) callback" where
  "foreachfile_callback S func dirname d =
     bindS (list_files_by_dir S dirname []) (\<lambda>(e, argz).
       if e \<noteq> 0 \<or> argz = [] then retS (0, d) else file_loop (length argz) argz None func d)"

definition lt_dlforeachfile :: "'k lt_os \<Rightarrow> string option \<Rightarrow> ('k, 's) callback \<Rightarrow> 's \<Rightarrow> ('k, int \<times> 's) lt" where
  "lt_dlforeachfile S search_path func d =
     (let each = (\<lambda>path d. foreach_dirinpath S path None (foreachfile_callback S func) d);
          unless = (\<lambda>r m. case r of (is_done, d) \<Rightarrow> if is_done \<noteq> 0 then retS (is_done, d) else m d) in
      if search_path \<noteq> None then each search_path d
      else
        bindS (asks user_search_path) (\<lambda>u.
        bindS (each u d) (\<lambda>r1.
        bindS (asks (\<lambda>s. os_getenv S ''LTDL_LIBRARY_PATH'' (plat s))) (\<lambda>p2.
        bindS (unless r1 (each p2)) (\<lambda>r2.
        bindS (asks (\<lambda>s. os_getenv S (LT_MODULE_PATH_VAR S) (plat s))) (\<lambda>p3.
        bindS (unless r2 (each p3)) (\<lambda>r3.
          unless r3 (\<lambda>d3. if LT_DLSEARCH_PATH S \<noteq> [] then each (Some (LT_DLSEARCH_PATH S)) d3
                          else retS (0, d3)))))))))"

section \<open>The user's search path\<close>

definition lt_dlpath_insertdir ::
    "'k lt_os \<Rightarrow> string option \<Rightarrow> nat option \<Rightarrow> string \<Rightarrow> ('k, int \<times> string option) lt" where
  "lt_dlpath_insertdir S ppath position dir =
     andS (asserts (dir \<noteq> []))
     (bindS (canonicalize_path S dir) (\<lambda>c. case c of None \<Rightarrow> retS (1, ppath)
       | Some canonical \<Rightarrow>
         andS (asserts (canonical \<noteq> []))
         (case ppath of
            None \<Rightarrow>
              andS (asserts (position = None))
              (bindS (lt__strdup S dir) (\<lambda>d. retS (if d = None then 1 else 0, d)))
          | Some path \<Rightarrow>
              bindS (argzize_path S path) (\<lambda>a. case a of None \<Rightarrow> retS (1, ppath)
                | Some argz \<Rightarrow>
                  andS (asserts (case position of None \<Rightarrow> True | Some b \<Rightarrow> b \<le> length path))
                  (bindS (lt_argz_insert S argz position dir) (\<lambda>(e, argz').
                    if e \<noteq> 0 then retS (1, ppath)
                    else bindS (lift (argz_stringify argz' PATHSEP)) (\<lambda>s. retS (0, Some (c_str s)))))))))"

definition set_user_path :: "string option \<Rightarrow> ('k, unit) lt" where
  "set_user_path p = modify (user_search_path_update (\<lambda>_. p))"

definition lt_dladdsearchdir :: "'k lt_os \<Rightarrow> string option \<Rightarrow> ('k, int) lt" where
  "lt_dladdsearchdir S search_dir =
     (case search_dir of None \<Rightarrow> retS 0
      | Some d \<Rightarrow>
          if d = [] then retS 0
          else bindS (asks user_search_path) (\<lambda>u.
            bindS (lt_dlpath_insertdir S u None d) (\<lambda>(e, u').
              andS (set_user_path u') (retS (if e \<noteq> 0 then 1 else 0)))))"

text \<open>The position is the distance of the pointer from the start of the path.\<close>

definition lt_dlinsertsearchdir :: "'k lt_os \<Rightarrow> int option \<Rightarrow> string option \<Rightarrow> ('k, int) lt" where
  "lt_dlinsertsearchdir S position search_dir =
     bindS (asks user_search_path) (\<lambda>u.
       if (case position of None \<Rightarrow> False
           | Some b \<Rightarrow> (case u of None \<Rightarrow> True | Some path \<Rightarrow> b < 0 \<or> b \<ge> int (length path)))
       then andS (set_error LT_ERROR_INVALID_POSITION) (retS 1)
       else (case search_dir of None \<Rightarrow> retS 0
         | Some d \<Rightarrow>
             if d = [] then retS 0
             else bindS (lt_dlpath_insertdir S u (map_option nat position) d) (\<lambda>(e, u').
               andS (set_user_path u') (retS (if e \<noteq> 0 then 1 else 0)))))"

definition lt_dlsetsearchpath :: "'k lt_os \<Rightarrow> string option \<Rightarrow> ('k, int) lt" where
  "lt_dlsetsearchpath S search_path =
     andS (set_user_path None)
     (case search_path of None \<Rightarrow> retS 0
      | Some path \<Rightarrow>
          if path = [] then retS 0
          else bindS (canonicalize_path S path) (\<lambda>c. case c of None \<Rightarrow> retS 1
            | Some canonical \<Rightarrow> andS (set_user_path (Some canonical)) (retS 0)))"

definition lt_dlgetsearchpath :: "('k, string option) lt" where
  "lt_dlgetsearchpath = asks user_search_path"

end
