(* ===== verification/Ltdl_Archive.thy ===== *)
theory Ltdl_Archive
  imports Ltdl_Path
begin

text \<open>
  Reading a libtool archive, the \<^verbatim>\<open>.la\<close> file that describes a module: \<^verbatim>\<open>trim\<close> and \<^verbatim>\<open>parse_dotla_file\<close>
  of \<^verbatim>\<open>libltdl/ltdl.c\<close>. An open file is what is left of it and its end-of-file flag; the line buffer
  is kept as a block of bytes that the code makes larger for long lines.
\<close>

type_synonym lt_file = "string \<times> bool"

section \<open>Reading lines\<close>

text \<open>At most so many characters, up to the end of the line; the flag says that the end was hit.\<close>

fun take_line :: "nat \<Rightarrow> string \<Rightarrow> string \<times> string \<times> bool" where
  "take_line 0 f = ([], f, False)"
| "take_line (Suc n) [] = ([], [], True)"
| "take_line (Suc n) (c # f) =
     (if c = CHR 0x0A then ([c], f, False)
      else case take_line n f of (got, f', e) \<Rightarrow> (c # got, f', e))"

text \<open>\<^verbatim>\<open>fgets (line + pos, n, file)\<close>; the first component is whether it did not return null.\<close>

definition fgets :: "string \<Rightarrow> nat \<Rightarrow> nat \<Rightarrow> lt_file \<Rightarrow> (bool \<times> string \<times> lt_file) res" where
  "fgets line pos n file =
     (case take_line (n - 1) (fst file) of (got, rest, e) \<Rightarrow>
       if got = [] then Inr (False, line, rest, snd file \<or> e)
       else if pos + length got + 1 > length line then Inl BufferOverflow
       else Inr (True, take pos line @ got @ EOS # drop (pos + length got + 1) line, rest, snd file \<or> e))"

definition feof :: "lt_file \<Rightarrow> bool" where
  "feof file = snd file"

text \<open>
  The loop that enlarges the buffer while the line does not fit: \<open>None\<close> when there is no memory,
  else the buffer, \<^verbatim>\<open>line_len\<close> and the file.
\<close>

fun grow_loop ::
    "nat \<Rightarrow> 'k lt_os \<Rightarrow> string \<Rightarrow> nat \<Rightarrow> lt_file \<Rightarrow> ('k, (string \<times> nat \<times> lt_file) option) lt" where
  "grow_loop n S line line_len file =
     (if line_len < 2 \<or> line_len - 2 \<ge> length line then fault OutOfBounds
      else if line ! (line_len - 2) \<noteq> EOS \<and> line ! (line_len - 2) \<noteq> CHR 0x0A \<and> \<not> feof file then
        (case n of 0 \<Rightarrow> fault OutOfFuel | Suc n' \<Rightarrow>
         bindS (lt__realloc S) (\<lambda>ok. if \<not> ok then retS None else
         bindS (asks (\<lambda>s. os_junk S line_len (plat s))) (\<lambda>more.
         bindS (lift (poke (take (2 * line_len) (line @ more)) (2 * line_len - 2) EOS)) (\<lambda>line'.
         bindS (lift (fgets line' (line_len - 1) (line_len + 1) file)) (\<lambda>(ok, line'', file').
           if \<not> ok then retS (Some (line'', line_len, file'))
           else grow_loop n' S line'' (2 * line_len) file')))))
      else retS (Some (line, line_len, file)))"

declare grow_loop.simps [simp del]

section \<open>The entries of an archive\<close>

record dotla =
  la_dlname :: "string option"
  la_libdir :: "string option"
  la_deplibs :: "string option"
  la_old_name :: "string option"
  la_installed :: bool

abbreviation QUOTE :: char where "QUOTE \<equiv> CHR 39"

text \<open>The text between the first and the last quote; \<^verbatim>\<open>end - str - 1\<close> bytes are copied.\<close>

definition trim :: "'k lt_os \<Rightarrow> string \<Rightarrow> ('k, int \<times> string option) lt" where
  "trim S str =
     (case strrchr str QUOTE of None \<Rightarrow> retS (1, None)
      | Some e \<Rightarrow>
          if length str > 3 \<and> str ! 0 = QUOTE then
            bindS (lt__malloc S) (\<lambda>tmp.
              if tmp = None then retS (1, None)
              else if e = 0 then fault BufferOverflow
              else retS (0, Some (take (e - 1) (drop 1 str))))
          else retS (0, None))"

definition starts :: "string \<Rightarrow> string \<Rightarrow> bool" where
  "starts pre line \<longleftrightarrow> take (length pre) line = pre"

definition la_line :: "'k lt_os \<Rightarrow> string \<Rightarrow> dotla \<Rightarrow> ('k, int \<times> dotla) lt" where
  "la_line S line d =
     (if starts ''dlname='' line then
        bindS (trim S (drop 7 line)) (\<lambda>(e, v). retS (e, d\<lparr>la_dlname := v\<rparr>))
      else if starts ''old_library='' line then
        bindS (trim S (drop 12 line)) (\<lambda>(e, v). retS (e, d\<lparr>la_old_name := v\<rparr>))
      else if starts ''libdir='' line then
        bindS (trim S (drop 7 line)) (\<lambda>(e, v). retS (e, d\<lparr>la_libdir := v\<rparr>))
      else if starts ''dependency_libs='' line then
        bindS (trim S (drop 16 line)) (\<lambda>(e, v). retS (e, d\<lparr>la_deplibs := v\<rparr>))
      else if line = ''installed=yes'' @ newline then retS (0, d\<lparr>la_installed := True\<rparr>)
      else if line = ''installed=no'' @ newline then retS (0, d\<lparr>la_installed := False\<rparr>)
      else if la_dlname d = None \<and> starts ''library_names='' line then
        bindS (trim S (drop 14 line)) (\<lambda>(e, v).
          if e \<noteq> 0 then retS (e, d\<lparr>la_dlname := v\<rparr>)
          else (case v of None \<Rightarrow> retS (e, d\<lparr>la_dlname := v\<rparr>)
            | Some names \<Rightarrow>
                (case strrchr names (CHR '' '') of None \<Rightarrow> retS (e, d\<lparr>la_dlname := v\<rparr>)
                 | Some b \<Rightarrow> bindS (lt__strdup S (drop (b + 1) names)) (\<lambda>last_libname.
                     case last_libname of None \<Rightarrow> retS (1, d\<lparr>la_dlname := v\<rparr>)
                     | Some l \<Rightarrow> retS (e, d\<lparr>la_dlname := Some l\<rparr>)))))
      else retS (0, d))"

text \<open>The loop over the lines, and the function. The file is the whole file, just opened.\<close>

fun la_loop :: "nat \<Rightarrow> 'k lt_os \<Rightarrow> string \<Rightarrow> nat \<Rightarrow> lt_file \<Rightarrow> dotla \<Rightarrow> ('k, int \<times> dotla) lt" where
  "la_loop n S line line_len file d =
     (if feof file then retS (0, d)
      else case n of 0 \<Rightarrow> fault OutOfFuel | Suc n' \<Rightarrow>
        bindS (lift (poke line (line_len - 2) EOS)) (\<lambda>line1.
        bindS (lift (fgets line1 0 line_len file)) (\<lambda>(ok, line2, file2).
          if \<not> ok then retS (0, d)
          else bindS (grow_loop (length (fst file2) + 1) S line2 line_len file2) (\<lambda>g.
            case g of None \<Rightarrow> retS (1, d)
            | Some (line3, line_len3, file3) \<Rightarrow>
                let text = c_str line3 in
                if take 1 text = newline \<or> take 1 text = ''#'' then la_loop n' S line3 line_len3 file3 d
                else bindS (la_line S text d) (\<lambda>(errors, d').
                  if errors \<noteq> 0 then retS (errors, d') else la_loop n' S line3 line_len3 file3 d')))))"

declare la_loop.simps [simp del]

definition LT_FILENAME_MAX :: nat where "LT_FILENAME_MAX = 2048"

definition parse_dotla_file :: "'k lt_os \<Rightarrow> string \<Rightarrow> dotla \<Rightarrow> ('k, int \<times> dotla) lt" where
  "parse_dotla_file S file d =
     bindS (lt__malloc S) (\<lambda>line.
       if line = None then andS (set_error LT_ERROR_FILE_NOT_FOUND) (retS (1, d))
       else bindS (asks (\<lambda>s. os_junk S LT_FILENAME_MAX (plat s))) (\<lambda>junk.
         la_loop (length file + 1) S junk LT_FILENAME_MAX (file, False) d))"

section \<open>File name extensions\<close>

definition archive_ext :: string where "archive_ext = ''.la''"

definition has_library_ext :: "'k lt_os \<Rightarrow> string \<Rightarrow> bool" where
  "has_library_ext S fname =
     (case strrchr fname (CHR ''.'') of None \<Rightarrow> False
      | Some e \<Rightarrow> drop e fname = archive_ext \<or> drop e fname = LT_MODULE_EXT S)"

end
