(* ===== verification/Ltdl_Handles.thy ===== *)
theory Ltdl_Handles
  imports Ltdl_State
begin

text \<open>
  Open modules of libltdl (\<^verbatim>\<open>libltdl/ltdl.c\<close>): closing a handle with the libraries it depends on, symbol
  look up, residency, the data that callers attach to a handle, and the iterators over the list of
  handles. A null handle is \<open>None\<close>. The loops along the list of handles take \<open>rounds S\<close> steps at most;
  \<open>n\<close> bounds how deep closing a library closes others.
\<close>

section \<open>Closing\<close>

text \<open>The search of \<^verbatim>\<open>lt_dlclose\<close>: the handle in front of the one looked for (itself at the head).\<close>

fun find_link :: "nat \<Rightarrow> nat option \<Rightarrow> nat option \<Rightarrow> nat option \<Rightarrow> ('k, nat option) lt" where
  "find_link n prv None handle = retS None"
| "find_link n prv (Some cur) handle =
     (if handle = Some cur then retS prv
      else case n of 0 \<Rightarrow> fault OutOfFuel
        | Suc n' \<Rightarrow> bindS (handle_at cur) (\<lambda>x. find_link n' (Some cur) (hnext x) handle))"

declare find_link.simps [simp del]

function lt_dlclose :: "nat \<Rightarrow> 'k lt_os \<Rightarrow> 'k lt_code \<Rightarrow> nat option \<Rightarrow> ('k, int) lt"
  and unload_loop :: "nat \<Rightarrow> 'k lt_os \<Rightarrow> 'k lt_code \<Rightarrow> nat list \<Rightarrow> ('k, int) lt" where
  "lt_dlclose n S V handle =
     bindS (asks handles) (\<lambda>hs.
     bindS (find_link (rounds S) hs hs handle) (\<lambda>l. case (l, handle) of
       (Some prv, Some r) \<Rightarrow>
         andS (update_handle r (\<lambda>x. x\<lparr>ref_count := ref_count x - 1\<rparr>))
         (bindS (handle_at r) (\<lambda>x.
            if ref_count x \<le> 0 \<and> \<not> is_resident x then
              bindS (deref NullDeref (vtable x)) (\<lambda>v.
              bindS (vtable_at v) (\<lambda>vt.
              andS (if hs \<noteq> Some r then update_handle prv (\<lambda>y. y\<lparr>hnext := hnext x\<rparr>)
                    else modify (handles_update (\<lambda>_. hnext x)))
              (bindS (deref NullDeref (module_close vt)) (\<lambda>f.
               bindS (call_close V f (dlloader_data vt) (hmodule x)) (\<lambda>e1.
               bindS (handle_at r) (\<lambda>x1.
               bindS (unload_loop n S V (take (depcount x1) (deplibs x1))) (\<lambda>e2.
               andS (free_handle r) (retS (e1 + e2)))))))))
            else if is_resident x then andS (set_error LT_ERROR_CLOSE_RESIDENT_MODULE) (retS 1)
            else retS 0))
     | _ \<Rightarrow> andS (set_error LT_ERROR_INVALID_HANDLE) (retS 1)))"
| "unload_loop n S V [] = retS 0"
| "unload_loop 0 S V (d # ds) = fault OutOfFuel"
| "unload_loop (Suc n) S V (d # ds) =
     bindS (handle_at d) (\<lambda>y.
     bindS (if is_resident y then retS 0 else lt_dlclose n S V (Some d)) (\<lambda>e.
     bindS (unload_loop (Suc n) S V ds) (\<lambda>e'. retS (e + e'))))"
  by pat_completeness auto
termination
  by (relation "measures [\<lambda>x. case x of Inl (n, _) \<Rightarrow> n | Inr (n, _) \<Rightarrow> n,
      \<lambda>x. case x of Inl _ \<Rightarrow> 1 | Inr _ \<Rightarrow> 0,
      \<lambda>x. case x of Inl _ \<Rightarrow> 0 | Inr (_, _, _, ds) \<Rightarrow> length ds]") auto

declare lt_dlclose.simps [simp del] unload_loop.simps [simp del]

definition unload_deplibs :: "nat \<Rightarrow> 'k lt_os \<Rightarrow> 'k lt_code \<Rightarrow> nat \<Rightarrow> ('k, int) lt" where
  "unload_deplibs n S V handle =
     bindS (handle_at handle) (\<lambda>x.
       if depcount x \<noteq> 0 then
         bindS (unload_loop n S V (take (depcount x) (deplibs x))) (\<lambda>e.
           andS (update_handle handle (\<lambda>y. y\<lparr>deplibs := []\<rparr>)) (retS e))
       else retS 0)"

section \<open>Symbols\<close>

definition LT_SYMBOL_LENGTH :: nat where "LT_SYMBOL_LENGTH = 128"
definition LT_SYMBOL_OVERHEAD :: nat where "LT_SYMBOL_OVERHEAD = 5"

fun text_of :: "string option \<Rightarrow> string" where
  "text_of None = []"
| "text_of (Some s) = s"

text \<open>What \<^verbatim>\<open>strcpy\<close> and \<^verbatim>\<open>strcat\<close> leave in a buffer of the given size.\<close>

definition in_buffer :: "nat \<Rightarrow> string \<Rightarrow> string res" where
  "in_buffer n s = (if length s + 1 > n then Inl BufferOverflow else Inr s)"

definition lt_dlsym :: "'k lt_os \<Rightarrow> 'k lt_code \<Rightarrow> nat option \<Rightarrow> string option \<Rightarrow> ('k, nat option) lt" where
  "lt_dlsym S V place symbol =
     (case (place, symbol) of
        (None, _) \<Rightarrow> andS (set_error LT_ERROR_INVALID_HANDLE) (retS None)
      | (Some h, None) \<Rightarrow> andS (set_error LT_ERROR_SYMBOL_NOT_FOUND) (retS None)
      | (Some h, Some sy) \<Rightarrow>
          bindS (handle_at h) (\<lambda>x.
          bindS (deref NullDeref (vtable x)) (\<lambda>v.
          bindS (vtable_at v) (\<lambda>vt.
          let lensym = length sy + length (text_of (sym_prefix vt)) + length (text_of (mname x)) in
          bindS (if lensym + LT_SYMBOL_OVERHEAD < LT_SYMBOL_LENGTH then retS (Some LT_SYMBOL_LENGTH)
              else bindS (lt__malloc S) (\<lambda>mem.
                retS (if mem = None then None else Some (lensym + LT_SYMBOL_OVERHEAD + 1)))) (\<lambda>b.
          case b of None \<Rightarrow> andS (set_error LT_ERROR_BUFFER_OVERFLOW) (retS None)
          | Some n \<Rightarrow>
            bindS (case mname x of None \<Rightarrow> retS None
              | Some name \<Rightarrow>
                bindS lt__get_last_error (\<lambda>saved_error.
                bindS (lift (in_buffer n (text_of (sym_prefix vt) @ name @ ''_LTX_'' @ sy))) (\<lambda>s.
                bindS (deref NullDeref (find_sym vt)) (\<lambda>f.
                bindS (call_sym V f (dlloader_data vt) (hmodule x) s) (\<lambda>address.
                  if address \<noteq> None then retS address
                  else andS (lt__set_last_error saved_error) (retS None)))))) (\<lambda>address.
            if address \<noteq> None then retS address
            else
              bindS (lift (in_buffer n (text_of (sym_prefix vt) @ sy))) (\<lambda>s.
              bindS (deref NullDeref (find_sym vt)) (\<lambda>f.
                call_sym V f (dlloader_data vt) (hmodule x) s))))))))"

section \<open>Residency and information\<close>

definition lt_dlmakeresident :: "nat option \<Rightarrow> ('k, int) lt" where
  "lt_dlmakeresident handle =
     (case handle of None \<Rightarrow> andS (set_error LT_ERROR_INVALID_HANDLE) (retS 1)
      | Some h \<Rightarrow> andS (update_handle h (\<lambda>x. x\<lparr>is_resident := True\<rparr>)) (retS 0))"

definition lt_dlisresident :: "nat option \<Rightarrow> ('k, int) lt" where
  "lt_dlisresident handle =
     (case handle of None \<Rightarrow> andS (set_error LT_ERROR_INVALID_HANDLE) (retS (-1))
      | Some h \<Rightarrow> bindS (handle_at h) (\<lambda>x. retS (if is_resident x then 1 else 0)))"

text \<open>A pointer to the information part of a handle names the handle.\<close>

definition lt_dlgetinfo :: "nat option \<Rightarrow> ('k, nat option) lt" where
  "lt_dlgetinfo handle =
     (case handle of None \<Rightarrow> andS (set_error LT_ERROR_INVALID_HANDLE) (retS None) | Some h \<Rightarrow> retS (Some h))"

section \<open>Callers' interfaces and data\<close>

definition lt_dlinterface_register :: "'k lt_os \<Rightarrow> string \<Rightarrow> nat option \<Rightarrow> ('k, nat option) lt" where
  "lt_dlinterface_register S id_string iface =
     bindS (lt__malloc S) (\<lambda>interface_id. case interface_id of None \<Rightarrow> retS None
       | Some r \<Rightarrow> bindS (lt__strdup S id_string) (\<lambda>id. case id of None \<Rightarrow> retS None
           | Some i \<Rightarrow> andS (modify (\<lambda>s. s\<lparr>interfaces := (interfaces s)(r \<mapsto> (i, iface))\<rparr>)) (retS (Some r))))"

definition interface_at :: "nat \<Rightarrow> ('k, string \<times> nat option) lt" where
  "interface_at r = bindS (asks (\<lambda>s. interfaces s r)) (deref BadPointer)"

definition lt_dlinterface_free :: "nat option \<Rightarrow> ('k, unit) lt" where
  "lt_dlinterface_free key =
     bindS (deref NullDeref key) (\<lambda>r. bindS (interface_at r) (\<lambda>_.
       modify (\<lambda>s. s\<lparr>interfaces := (interfaces s)(r := None)\<rparr>)))"

fun key_index :: "nat \<Rightarrow> (nat \<times> nat option) list \<Rightarrow> nat" where
  "key_index key [] = 0"
| "key_index key ((k, d) # xs) = (if k = key then 0 else Suc (key_index key xs))"

definition lt_dlcaller_set_data :: "'k lt_os \<Rightarrow> nat \<Rightarrow> nat \<Rightarrow> nat option \<Rightarrow> ('k, nat option) lt" where
  "lt_dlcaller_set_data S key handle data =
     bindS (handle_at handle) (\<lambda>cur.
       let xs = interface_data cur; i = key_index key xs in
       if i < length xs then
         andS (update_handle handle (\<lambda>x. x\<lparr>interface_data := xs[i := (key, data)]\<rparr>)) (retS (snd (xs ! i)))
       else bindS (lt__realloc S) (\<lambda>temp.
         if \<not> temp then retS None
         else andS (update_handle handle (\<lambda>x. x\<lparr>interface_data := xs @ [(key, data)]\<rparr>)) (retS None)))"

definition lt_dlcaller_get_data :: "nat \<Rightarrow> nat \<Rightarrow> ('k, nat option) lt" where
  "lt_dlcaller_get_data key handle =
     bindS (handle_at handle) (\<lambda>cur.
       let xs = interface_data cur; i = key_index key xs in
       retS (if i < length xs then snd (xs ! i) else None))"

section \<open>Iterating over the handles\<close>

text \<open>Going on while the check of the interface fails.\<close>

fun advance :: "nat \<Rightarrow> 'k lt_code \<Rightarrow> nat \<Rightarrow> nat option \<Rightarrow> ('k, nat option) lt" where
  "advance n V iface None = retS None"
| "advance n V iface (Some r) =
     bindS (interface_at iface) (\<lambda>(id, check). case check of None \<Rightarrow> retS (Some r)
       | Some f \<Rightarrow> bindS (call_iface V f r id) (\<lambda>e.
           if e = 0 then retS (Some r)
           else case n of 0 \<Rightarrow> fault OutOfFuel
             | Suc n' \<Rightarrow> bindS (handle_at r) (\<lambda>x. advance n' V iface (hnext x))))"

declare advance.simps [simp del]

definition lt_dlhandle_iterate :: "'k lt_os \<Rightarrow> 'k lt_code \<Rightarrow> nat option \<Rightarrow> nat option \<Rightarrow> ('k, nat option) lt" where
  "lt_dlhandle_iterate S V iface place =
     (case iface of None \<Rightarrow> fault AssertFailed
      | Some i \<Rightarrow>
          bindS (case place of None \<Rightarrow> asks handles | Some p \<Rightarrow> bindS (handle_at p) (\<lambda>x. retS (hnext x)))
            (advance (rounds S) V i))"

fun fetch_loop :: "nat \<Rightarrow> 'k lt_os \<Rightarrow> 'k lt_code \<Rightarrow> nat option \<Rightarrow> string \<Rightarrow> nat option \<Rightarrow> ('k, nat option) lt" where
  "fetch_loop n S V iface module_name handle =
     bindS (lt_dlhandle_iterate S V iface handle) (\<lambda>h. case h of None \<Rightarrow> retS None
       | Some r \<Rightarrow> bindS (handle_at r) (\<lambda>x.
           if mname x = Some module_name then retS (Some r)
           else case n of 0 \<Rightarrow> fault OutOfFuel | Suc n' \<Rightarrow> fetch_loop n' S V iface module_name (Some r)))"

declare fetch_loop.simps [simp del]

definition lt_dlhandle_fetch :: "'k lt_os \<Rightarrow> 'k lt_code \<Rightarrow> nat option \<Rightarrow> string \<Rightarrow> ('k, nat option) lt" where
  "lt_dlhandle_fetch S V iface module_name =
     (if iface = None then fault AssertFailed else fetch_loop (rounds S) S V iface module_name None)"

text \<open>The loop of \<^verbatim>\<open>lt_dlhandle_map\<close>: \<open>cur\<close> stays where it is between two calls of the function.\<close>

fun map_loop ::
    "nat \<Rightarrow> 'k lt_os \<Rightarrow> 'k lt_code \<Rightarrow> nat \<Rightarrow> (nat option \<Rightarrow> 's \<Rightarrow> ('k, int \<times> 's) lt) \<Rightarrow> nat option \<Rightarrow> 's \<Rightarrow>
     ('k, int \<times> 's) lt" where
  "map_loop n S V iface func None d = retS (0, d)"
| "map_loop n S V iface func (Some cur) d =
     bindS (advance (rounds S) V iface (Some cur)) (\<lambda>cur'.
     bindS (func cur' d) (\<lambda>(errorcode, d').
       if errorcode \<noteq> 0 then retS (errorcode, d')
       else case n of 0 \<Rightarrow> fault OutOfFuel | Suc n' \<Rightarrow> map_loop n' S V iface func cur' d'))"

declare map_loop.simps [simp del]

definition lt_dlhandle_map ::
    "nat \<Rightarrow> 'k lt_os \<Rightarrow> 'k lt_code \<Rightarrow> nat option \<Rightarrow> (nat option \<Rightarrow> 's \<Rightarrow> ('k, int \<times> 's) lt) \<Rightarrow> 's \<Rightarrow>
     ('k, int \<times> 's) lt" where
  "lt_dlhandle_map n S V iface func d =
     (case iface of None \<Rightarrow> fault AssertFailed
      | Some i \<Rightarrow> bindS (asks handles) (\<lambda>hs. map_loop n S V i func hs d))"

end
