(* ===== verification/Ltdl_Loader.thy ===== *)
theory Ltdl_Loader
  imports Ltdl_Handles
begin

text \<open>
  The list of loaders of libltdl (\<^verbatim>\<open>libltdl/lt_dlloader.c\<close>): each item of the list is a box that holds
  the address of a loader's table. A callback of a list function that meets a bad pointer ends the
  walk with it, and the fault is raised after the call.
\<close>

definition loader_callback :: "(nat \<Rightarrow> lt_dlvtable option) \<Rightarrow> string \<Rightarrow> nat \<Rightarrow> nat snode \<Rightarrow> nat res option" where
  "loader_callback vm name r item =
     (case vm (userdata item) of None \<Rightarrow> Some (Inl BadPointer)
      | Some v \<Rightarrow> (case vt_name v of None \<Rightarrow> Some (Inl NullDeref)
          | Some nm \<Rightarrow> if nm = name then Some (Inr r) else None))"

definition valid_vtable :: "lt_dlvtable \<Rightarrow> bool" where
  "valid_vtable v \<longleftrightarrow> \<not> (module_open v = None \<or> module_close v = None \<or> find_sym v = None \<or>
     (priority v \<noteq> LT_DLLOADER_PREPEND \<and> priority v \<noteq> LT_DLLOADER_APPEND))"

definition set_loaders :: "nat option \<Rightarrow> nat sheap \<Rightarrow> ('k, unit) lt" where
  "set_loaders p h = modify (\<lambda>s. s\<lparr>loaders := p, lmem := h\<rparr>)"

definition lt_dlloader_add :: "'k lt_os \<Rightarrow> nat option \<Rightarrow> ('k, int) lt" where
  "lt_dlloader_add S vt =
     (case vt of None \<Rightarrow> andS (set_error LT_ERROR_INVALID_LOADER) (retS 1)
      | Some v \<Rightarrow> bindS (vtable_at v) (\<lambda>x.
          if \<not> valid_vtable x then andS (set_error LT_ERROR_INVALID_LOADER) (retS 1)
          else bindS (sys (os_malloc S)) (\<lambda>mem.
            bindS (asks (\<lambda>s. slist_box mem v (lmem s))) (\<lambda>(item, h).
            if item = None then andS lt__alloc_die (retS 1)
            else bindS (asks loaders) (\<lambda>ls.
              bindS (lift (if priority x = LT_DLLOADER_PREPEND then slist_cons item ls h
                           else slist_concat (rounds S) ls item h)) (\<lambda>(p, h1).
              andS (set_loaders p h1) (retS 0)))))))"

definition lt_dlloader_next :: "nat option \<Rightarrow> ('k, nat option) lt" where
  "lt_dlloader_next loader =
     (case loader of None \<Rightarrow> asks loaders
      | Some r \<Rightarrow> bindS (asks lmem) (\<lambda>h. bindS (lift (item_at h r)) (\<lambda>item. retS (nxt item))))"

definition lt_dlloader_get :: "nat option \<Rightarrow> ('k, nat option) lt" where
  "lt_dlloader_get loader =
     (case loader of None \<Rightarrow> retS None
      | Some r \<Rightarrow> bindS (asks lmem) (\<lambda>h. bindS (lift (item_at h r)) (\<lambda>item. retS (Some (userdata item)))))"

fun no_fault :: "nat res option \<Rightarrow> nat option res" where
  "no_fault None = Inr None"
| "no_fault (Some (Inl e)) = Inl e"
| "no_fault (Some (Inr r)) = Inr (Some r)"

definition lt_dlloader_find :: "'k lt_os \<Rightarrow> string \<Rightarrow> ('k, nat option) lt" where
  "lt_dlloader_find S name =
     bindS (asks (\<lambda>s. slist_find (rounds S) (loader_callback (vmem s) name) (loaders s) (lmem s))) (\<lambda>found.
     bindS (lift (bindE found no_fault)) lt_dlloader_get)"

text \<open>Which handles use a loader, and whether one of them is resident.\<close>

fun use_loop :: "nat \<Rightarrow> 'k lt_os \<Rightarrow> 'k lt_code \<Rightarrow> nat option \<Rightarrow> nat \<Rightarrow> nat option \<Rightarrow> bool \<times> bool \<Rightarrow> ('k, bool \<times> bool) lt" where
  "use_loop n S V iface vt handle used =
     bindS (lt_dlhandle_iterate S V iface handle) (\<lambda>h. case h of None \<Rightarrow> retS used
       | Some r \<Rightarrow>
         bindS (handle_at r) (\<lambda>cur.
         bindS (if vtable cur = Some vt then bindS (lt_dlisresident (Some r)) (\<lambda>b. retS (True, snd used \<or> b \<noteq> 0))
                else retS used) (\<lambda>used'.
         case n of 0 \<Rightarrow> fault OutOfFuel | Suc n' \<Rightarrow> use_loop n' S V iface vt (Some r) used')))"

declare use_loop.simps [simp del]

definition lt_dlloader_remove :: "'k lt_os \<Rightarrow> 'k lt_code \<Rightarrow> string \<Rightarrow> ('k, nat option) lt" where
  "lt_dlloader_remove S V name =
     bindS (lt_dlloader_find S name) (\<lambda>vt. case vt of
       None \<Rightarrow> andS (set_error LT_ERROR_INVALID_LOADER) (retS None)
     | Some v \<Rightarrow>
         bindS (lt_dlinterface_register S ''lt_dlloader_remove'' None) (\<lambda>iface.
         bindS (use_loop (rounds S) S V iface v None (False, False)) (\<lambda>(in_use, in_use_by_resident).
         andS (lt_dlinterface_free iface)
         (if in_use then
            andS (if \<not> in_use_by_resident then set_error LT_ERROR_REMOVE_LOADER else retS ()) (retS None)
          else bindS (vtable_at v) (\<lambda>x.
            bindS (case dlloader_exit x of None \<Rightarrow> retS 0 | Some f \<Rightarrow> call_loader V f (dlloader_data x)) (\<lambda>e.
            if e \<noteq> 0 then retS None
            else
              bindS (asks (\<lambda>s. slist_remove (rounds S) (loader_callback (vmem s) name) (loaders s) (lmem s))) (\<lambda>m.
              bindS (lift m) (\<lambda>(found, p, h).
              bindS (lift (no_fault found)) (\<lambda>item.
              bindS (lift (slist_unbox item h)) (\<lambda>(boxed, h1).
              andS (set_loaders p h1) (retS boxed)))))))))))"

end
