(* ===== verification/Ltdl_Open.thy ===== *)
theory Ltdl_Open
  imports Ltdl_Archive Ltdl_Loader
begin

text \<open>
  Opening modules with libltdl (\<^verbatim>\<open>libltdl/ltdl.c\<close>): the loaders are asked in turn
  (\<open>tryall_dlopen\<close>), files are looked for along the search paths, archives are read, and the handle
  is hooked into the list (\<open>try_dlopen\<close> and the public functions). A \<^verbatim>\<open>lt_dlhandle*\<close> is the address
  it points to, and its new value comes back with the error count. Cutting names at a dot or a slash
  follows the C library.
\<close>

section \<open>Asking the loaders\<close>

definition zero_handle :: lt_handle where
  "zero_handle = \<lparr>hnext = None, vtable = None, filename = None, mname = None, ref_count = 0,
     is_resident = False, is_symglobal = False, is_symlocal = False, depcount = 0, deplibs = [],
     hmodule = None, interface_data = []\<rparr>"

definition new_handle :: "'k lt_os \<Rightarrow> ('k, nat option) lt" where
  "new_handle S = bindS (lt__zalloc S) (\<lambda>p. case p of None \<Rightarrow> retS None
     | Some r \<Rightarrow> andS (modify (\<lambda>s. s\<lparr>hmem := (hmem s)(r \<mapsto> zero_handle)\<rparr>)) (retS (Some r)))"

text \<open>The handle whose file name is the given one; null is the program itself.\<close>

fun opened :: "nat \<Rightarrow> nat option \<Rightarrow> string option \<Rightarrow> ('k, nat option) lt" where
  "opened n None fname = retS None"
| "opened n (Some r) fname =
     bindS (handle_at r) (\<lambda>x. if filename x = fname then retS (Some r)
       else case n of 0 \<Rightarrow> fault OutOfFuel | Suc n' \<Rightarrow> opened n' (hnext x) fname)"

declare opened.simps [simp del]

definition take_advice :: "nat \<Rightarrow> lt_advise option \<Rightarrow> ('k, unit) lt" where
  "take_advice h advise =
     (case advise of None \<Rightarrow> retS ()
      | Some a \<Rightarrow> update_handle h (\<lambda>x. x\<lparr>is_resident := adv_is_resident a,
          is_symglobal := adv_is_symglobal a, is_symlocal := adv_is_symlocal a\<rparr>))"

text \<open>The loop over the loaders; the result is the table of the one that opened the module.\<close>

fun try_loaders ::
    "nat \<Rightarrow> 'k lt_os \<Rightarrow> 'k lt_code \<Rightarrow> nat \<Rightarrow> string option \<Rightarrow> lt_advise option \<Rightarrow> nat option \<Rightarrow> nat option \<Rightarrow>
     ('k, nat option) lt" where
  "try_loaders n S V h fname advise vt loader =
     bindS (if vt \<noteq> None then retS vt else lt_dlloader_get loader) (\<lambda>lv.
     bindS (deref NullDeref lv) (\<lambda>v.
     bindS (vtable_at v) (\<lambda>x.
     bindS (deref NullDeref (module_open x)) (\<lambda>f.
     bindS (call_open V f (dlloader_data x) fname advise) (\<lambda>module.
     andS (update_handle h (\<lambda>y. y\<lparr>hmodule := module\<rparr>))
     (if module \<noteq> None then andS (take_advice h advise) (retS (Some v))
      else if vt \<noteq> None then retS None
      else bindS (lt_dlloader_next loader) (\<lambda>l. if l = None then retS None
        else case n of 0 \<Rightarrow> fault OutOfFuel | Suc n' \<Rightarrow> try_loaders n' S V h fname advise vt l)))))))"

declare try_loaders.simps [simp del]

definition tryall_dlopen ::
    "'k lt_os \<Rightarrow> 'k lt_code \<Rightarrow> nat option \<Rightarrow> string option \<Rightarrow> lt_advise option \<Rightarrow> nat option \<Rightarrow>
     ('k, int \<times> nat option) lt" where
  "tryall_dlopen S V phandle fname advise vt =
     bindS lt__get_last_error (\<lambda>saved_error.
     bindS (asks handles) (\<lambda>hs.
     bindS (opened (rounds S) hs fname) (\<lambda>found. case found of
       Some r \<Rightarrow> andS (update_handle r (\<lambda>x. x\<lparr>ref_count := ref_count x + 1\<rparr>)) (retS (0, Some r))
     | None \<Rightarrow>
         bindS (deref NullDeref phandle) (\<lambda>h.
         bindS (case fname of None \<Rightarrow> retS (Some None)
            | Some f \<Rightarrow> bindS (lt__strdup S f) (\<lambda>c. retS (if c = None then None else Some c))) (\<lambda>name.
         andS (update_handle h (\<lambda>x. x\<lparr>filename := (case name of None \<Rightarrow> None | Some c \<Rightarrow> c)\<rparr>))
         (if name = None then retS (1, phandle)
          else
            bindS (lt_dlloader_next None) (\<lambda>loader.
            bindS (try_loaders (rounds S) S V h fname advise vt loader) (\<lambda>lv.
              if lv = None then andS (update_handle h (\<lambda>x. x\<lparr>filename := None\<rparr>)) (retS (1, phandle))
              else andS (update_handle h (\<lambda>x. x\<lparr>vtable := lv\<rparr>))
                (andS (lt__set_last_error saved_error) (retS (0, phandle)))))))))))"

definition cut_slash :: "string \<Rightarrow> string" where
  "cut_slash dir = (if dir \<noteq> [] \<and> last dir = SLASH then butlast dir else dir)"

text \<open>With a prefix the function calls itself once more, the prefix as the directory.\<close>

definition dlopen_in ::
    "'k lt_os \<Rightarrow> 'k lt_code \<Rightarrow> nat option \<Rightarrow> string \<Rightarrow> string \<Rightarrow> lt_advise option \<Rightarrow> ('k, int \<times> nat option) lt" where
  "dlopen_in S V handle dirname dlname advise =
     bindS (lt__malloc S) (\<lambda>mem. if mem = None then retS (1, handle)
       else bindS (tryall_dlopen S V handle (Some (cut_slash dirname @ [SLASH] @ dlname)) advise None) (\<lambda>(e, h).
         retS (if e \<noteq> 0 then 1 else 0, h)))"

definition tryall_dlopen_module ::
    "'k lt_os \<Rightarrow> 'k lt_code \<Rightarrow> nat option \<Rightarrow> string option \<Rightarrow> string \<Rightarrow> string \<Rightarrow> lt_advise option \<Rightarrow>
     ('k, int \<times> nat option) lt" where
  "tryall_dlopen_module S V handle prefix dirname dlname advise =
     (case prefix of None \<Rightarrow> dlopen_in S V handle dirname dlname advise
      | Some p \<Rightarrow> bindS (lt__malloc S) (\<lambda>mem. if mem = None then retS (1, handle)
          else dlopen_in S V handle p (cut_slash dirname @ [SLASH] @ dlname) advise))"

text \<open>One attempt after the other, until one returns 0.\<close>

fun attempts :: "(nat option \<Rightarrow> ('k, int \<times> nat option) lt) list \<Rightarrow> nat option \<Rightarrow> ('k, int \<times> nat option) lt" where
  "attempts [] handle = retS (1, handle)"
| "attempts (m # ms) handle =
     bindS (m handle) (\<lambda>(e, h). if e = 0 then retS (0, h) else attempts ms h)"

definition find_module ::
    "'k lt_os \<Rightarrow> 'k lt_code \<Rightarrow> nat option \<Rightarrow> string option \<Rightarrow> dotla \<Rightarrow> lt_advise option \<Rightarrow>
     ('k, int \<times> nat option) lt" where
  "find_module S V handle dir la advise =
     attempts
       ((case la_old_name la of None \<Rightarrow> [] | Some old \<Rightarrow> [\<lambda>h. tryall_dlopen S V h (Some old) advise None]) @
        (case la_dlname la of None \<Rightarrow> []
         | Some dl \<Rightarrow>
             (case la_libdir la of None \<Rightarrow> []
              | Some l \<Rightarrow> if la_installed la then [\<lambda>h. tryall_dlopen_module S V h None l dl advise] else []) @
             (if \<not> la_installed la then [\<lambda>h. tryall_dlopen_module S V h dir (LT_OBJDIR S) dl advise] else []) @
             (case dir of None \<Rightarrow> [] | Some d \<Rightarrow> [\<lambda>h. tryall_dlopen_module S V h None d dl advise])))
       handle"

definition find_handle_callback :: "'k lt_os \<Rightarrow> 'k lt_code \<Rightarrow> lt_advise option \<Rightarrow> ('k, nat option) callback" where
  "find_handle_callback S V advise fname phandle =
     bindS (sys (os_access S fname)) (\<lambda>readable.
       if \<not> readable then retS (0, phandle)
       else bindS (tryall_dlopen S V phandle (Some fname) advise None) (\<lambda>(e, h).
         retS (1, if e \<noteq> 0 then None else h)))"

text \<open>Whether a file was found, and the handle.\<close>

definition find_handle ::
    "'k lt_os \<Rightarrow> 'k lt_code \<Rightarrow> string option \<Rightarrow> string \<Rightarrow> nat option \<Rightarrow> lt_advise option \<Rightarrow> ('k, bool \<times> nat option) lt" where
  "find_handle S V search_path base_name phandle advise =
     (if search_path = None then retS (False, phandle)
      else bindS (foreach_dirinpath S search_path (Some base_name) (find_handle_callback S V advise) phandle)
        (\<lambda>(r, h). retS (r \<noteq> 0, h)))"

text \<open>The version of \<^verbatim>\<open>load_deplibs\<close> for systems that load dependencies themselves.\<close>

definition load_deplibs :: "nat \<Rightarrow> ('k, int) lt" where
  "load_deplibs handle = andS (update_handle handle (\<lambda>x. x\<lparr>depcount := 0\<rparr>)) (retS 0)"

section \<open>Names\<close>

definition is_alnum :: "char \<Rightarrow> bool" where
  "is_alnum c \<longleftrightarrow> (let n = (of_char c :: nat) in
     48 \<le> n \<and> n \<le> 57 \<or> 65 \<le> n \<and> n \<le> 90 \<or> 97 \<le> n \<and> n \<le> 122)"

text \<open>The name before the last dot, with underscores for what is not a letter or digit.\<close>

definition ext_of :: "string \<Rightarrow> nat" where
  "ext_of base = (case strrchr base (CHR ''.'') of None \<Rightarrow> length base | Some e \<Rightarrow> e)"

definition mod_name :: "string \<Rightarrow> string" where
  "mod_name base = map (\<lambda>c. if is_alnum c then c else CHR ''_'') (take (ext_of base) base)"

definition split_name :: "string \<Rightarrow> string option \<times> string" where
  "split_name canonical =
     (case strrchr canonical SLASH of None \<Rightarrow> (None, canonical)
      | Some n \<Rightarrow> (Some (take (Suc n) canonical), drop (Suc n) canonical))"

section \<open>\<^verbatim>\<open>try_dlopen\<close>\<close>

text \<open>From the label \<^verbatim>\<open>register_handle\<close> on.\<close>

definition register_handle :: "nat option \<Rightarrow> nat option \<Rightarrow> string option \<Rightarrow> err_msg option \<Rightarrow> ('k, int \<times> nat option) lt" where
  "register_handle phandle newhandle name saved_error =
     andS (case phandle of None \<Rightarrow> retS ()
           | Some p \<Rightarrow> if phandle \<noteq> newhandle then free_handle p else retS ())
     (bindS (deref NullDeref newhandle) (\<lambda>r.
      bindS (handle_at r) (\<lambda>x.
      andS (if ref_count x = 0 then
              bindS (asks handles) (\<lambda>hs.
                andS (update_handle r (\<lambda>y. y\<lparr>ref_count := 1, mname := name, hnext := hs\<rparr>))
                  (modify (handles_update (\<lambda>_. Some r))))
            else retS ())
      (andS (lt__set_last_error saved_error) (retS (0, Some r))))))"

definition try_self :: "'k lt_os \<Rightarrow> 'k lt_code \<Rightarrow> lt_advise option \<Rightarrow> err_msg option \<Rightarrow> ('k, int \<times> nat option) lt" where
  "try_self S V advise saved_error =
     bindS (new_handle S) (\<lambda>p. case p of None \<Rightarrow> retS (1, None)
       | Some r \<Rightarrow>
         andS (update_handle r (\<lambda>x. x\<lparr>is_resident := True\<rparr>))
         (bindS (tryall_dlopen S V p None advise None) (\<lambda>(e, newhandle).
            if e \<noteq> 0 then andS (free_handle r) (retS (1, None))
            else register_handle p newhandle None saved_error)))"

text \<open>The preloaded module of that name: \<open>None\<close> when there is none and the search goes on.\<close>

definition try_preopen ::
    "'k lt_os \<Rightarrow> 'k lt_code \<Rightarrow> string \<Rightarrow> lt_advise option \<Rightarrow> err_msg option \<Rightarrow> ('k, (int \<times> nat option) option) lt" where
  "try_preopen S V name advise saved_error =
     bindS (lt_dlloader_find S ''lt_preopen'') (\<lambda>vt.
       if vt = None then retS None
       else bindS (lt__malloc S) (\<lambda>archive_name.
       bindS (new_handle S) (\<lambda>p.
         case (p, archive_name) of
           (Some r, Some _) \<Rightarrow>
             bindS (tryall_dlopen S V p (Some (name @ ''.'' @ LT_LIBEXT S)) advise vt) (\<lambda>(e, newhandle).
               if e = 0 then bindS (register_handle p newhandle (Some name) saved_error) (\<lambda>x. retS (Some x))
               else andS (free_handle r) (retS None))
         | _ \<Rightarrow> retS (Some (1, p)))))"

text \<open>The places where an archive is looked for, when its name has no directory.\<close>

definition find_archive ::
    "'k lt_os \<Rightarrow> string option \<Rightarrow> string \<Rightarrow> string \<Rightarrow> ('k, string option \<times> string option) lt" where
  "find_archive S dir base attempt =
     (let look = (\<lambda>path r. case r of (d, file) \<Rightarrow>
        if file = None \<and> path \<noteq> None then find_file S path base d else retS (d, file)) in
      bindS (if dir \<noteq> None then retS (dir, None) else
          bindS (asks user_search_path) (\<lambda>u.
          bindS (look u (dir, None)) (\<lambda>r1.
          bindS (asks (\<lambda>s. os_getenv S ''LTDL_LIBRARY_PATH'' (plat s))) (\<lambda>p2.
          bindS (look p2 r1) (\<lambda>r2.
          bindS (asks (\<lambda>s. os_getenv S (LT_MODULE_PATH_VAR S) (plat s))) (\<lambda>p3.
          bindS (look p3 r2) (\<lambda>r3.
            look (if LT_DLSEARCH_PATH S \<noteq> [] then Some (LT_DLSEARCH_PATH S) else None) r3))))))) (\<lambda>(d, file).
        if file = None then bindS (sys (os_fopen S attempt)) (\<lambda>f. retS (d, f)) else retS (d, file)))"

definition try_archive ::
    "'k lt_os \<Rightarrow> 'k lt_code \<Rightarrow> string option \<Rightarrow> string \<Rightarrow> string \<Rightarrow> string \<Rightarrow> lt_advise option \<Rightarrow> err_msg option \<Rightarrow>
     ('k, int \<times> nat option) lt" where
  "try_archive S V dir base attempt name advise saved_error =
     bindS (find_archive S dir base attempt) (\<lambda>(dir', file). case file of
       None \<Rightarrow> andS (set_error LT_ERROR_FILE_NOT_FOUND) (retS (1, None))
     | Some text \<Rightarrow>
         bindS (parse_dotla_file S text \<lparr>la_dlname = None, la_libdir = None, la_deplibs = None,
             la_old_name = None, la_installed = True\<rparr>) (\<lambda>(e, la).
         bindS (new_handle S) (\<lambda>p. case p of None \<Rightarrow> retS ((if e \<noteq> 0 then 1 else 0) + 1, None)
           | Some r \<Rightarrow>
             if e \<noteq> 0 then andS (free_handle r) (retS (1, None))
             else bindS (load_deplibs r) (\<lambda>le.
               if le \<noteq> 0 then andS (free_handle r) (retS (1, None))
               else bindS (find_module S V p dir' la advise) (\<lambda>(fe, newhandle).
                 if fe \<noteq> 0 then andS (unload_deplibs (rounds S) S V r) (andS (free_handle r) (retS (1, None)))
                 else andS (if p \<noteq> newhandle then andS (unload_deplibs (rounds S) S V r) (retS ()) else retS ())
                   (register_handle p newhandle (Some name) saved_error))))))"

definition try_plain ::
    "'k lt_os \<Rightarrow> 'k lt_code \<Rightarrow> string option \<Rightarrow> string \<Rightarrow> string \<Rightarrow> string \<Rightarrow> lt_advise option \<Rightarrow> err_msg option \<Rightarrow>
     ('k, int \<times> nat option) lt" where
  "try_plain S V dir base attempt name advise saved_error =
     (let look = (\<lambda>path r. case r of (found, h) \<Rightarrow>
        if found then retS (found, h) else find_handle S V path base h advise) in
      bindS (new_handle S) (\<lambda>p. case p of None \<Rightarrow> retS (1, None)
        | Some r \<Rightarrow>
          bindS (if dir \<noteq> None then retS (False, p) else
            bindS (asks user_search_path) (\<lambda>u.
            bindS (look u (False, p)) (\<lambda>r1.
            bindS (asks (\<lambda>s. os_getenv S ''LTDL_LIBRARY_PATH'' (plat s))) (\<lambda>p2.
            bindS (look p2 r1) (\<lambda>r2.
            bindS (asks (\<lambda>s. os_getenv S (LT_MODULE_PATH_VAR S) (plat s))) (\<lambda>p3.
            bindS (look p3 r2) (\<lambda>r3.
              look (Some (LT_DLSEARCH_PATH S)) r3))))))) (\<lambda>(found, h).
          bindS (if found then retS h
            else bindS (tryall_dlopen S V h (Some attempt) advise None) (\<lambda>(e, h'). retS (if e \<noteq> 0 then None else h')))
            (\<lambda>newhandle.
              if newhandle = None then andS (free_handle r) (retS (1, None))
              else register_handle p newhandle (Some name) saved_error))))"

text \<open>The result is the error count and what \<^verbatim>\<open>*phandle\<close> is then; it is null before.\<close>

definition try_dlopen ::
    "'k lt_os \<Rightarrow> 'k lt_code \<Rightarrow> string option \<Rightarrow> string option \<Rightarrow> lt_advise option \<Rightarrow> ('k, int \<times> nat option) lt" where
  "try_dlopen S V fname ext advise =
     bindS lt__get_last_error (\<lambda>saved_error. case fname of
       None \<Rightarrow> try_self S V advise saved_error
     | Some f \<Rightarrow>
         andS (asserts (f \<noteq> []))
         (bindS (case ext of None \<Rightarrow> lt__strdup S f
            | Some e \<Rightarrow> bindS (lt__malloc S) (\<lambda>m. retS (if m = None then None else Some (f @ e)))) (\<lambda>a. case a of
            None \<Rightarrow> retS (1, None)
          | Some attempt \<Rightarrow>
            bindS (canonicalize_path S attempt) (\<lambda>c. case c of None \<Rightarrow> retS (1, None)
            | Some canonical \<Rightarrow>
              case split_name canonical of (dir, base) \<Rightarrow>
              bindS (if dir = None then retS True else bindS (lt__malloc S) (\<lambda>m. retS (m \<noteq> None))) (\<lambda>ok.
              if \<not> ok then retS (1, None)
              else andS (asserts (base \<noteq> []))
              (bindS (lt__malloc S) (\<lambda>m. if m = None then retS (1, None)
               else let name = mod_name base in
                 bindS (if dir = None then try_preopen S V name advise saved_error else retS None) (\<lambda>pre.
                 case pre of Some result \<Rightarrow> retS result
                 | None \<Rightarrow>
                   if (case advise of None \<Rightarrow> False | Some adv \<Rightarrow> try_preload_only adv) then retS (0, None)
                   else if drop (ext_of base) base = archive_ext then
                     try_archive S V dir base attempt name advise saved_error
                   else try_plain S V dir base attempt name advise saved_error))))))))"

section \<open>Advice\<close>

definition lt_dladvise_init :: "'k lt_os \<Rightarrow> ('k, int \<times> lt_advise option) lt" where
  "lt_dladvise_init S = bindS (lt__zalloc S) (\<lambda>p. retS (if p = None then (1, None)
     else (0, Some \<lparr>try_ext = False, adv_is_resident = False, adv_is_symglobal = False,
       adv_is_symlocal = False, try_preload_only = False\<rparr>)))"

text \<open>The argument is a pointer to the caller's pointer; null is \<open>None\<close> at either level.\<close>

definition lt_dladvise_destroy :: "lt_advise option option \<Rightarrow> int \<times> lt_advise option option" where
  "lt_dladvise_destroy padvise = (0, map_option (\<lambda>_. None) padvise)"

definition set_advice ::
    "(lt_advise \<Rightarrow> lt_advise) \<Rightarrow> lt_advise option option \<Rightarrow> ('k, int \<times> lt_advise option option) lt" where
  "set_advice f padvise =
     (case padvise of Some (Some a) \<Rightarrow> retS (0, Some (Some (f a))) | _ \<Rightarrow> fault AssertFailed)"

definition lt_dladvise_ext :: "lt_advise option option \<Rightarrow> ('k, int \<times> lt_advise option option) lt" where
  "lt_dladvise_ext = set_advice (try_ext_update (\<lambda>_. True))"
definition lt_dladvise_resident :: "lt_advise option option \<Rightarrow> ('k, int \<times> lt_advise option option) lt" where
  "lt_dladvise_resident = set_advice (adv_is_resident_update (\<lambda>_. True))"
definition lt_dladvise_local :: "lt_advise option option \<Rightarrow> ('k, int \<times> lt_advise option option) lt" where
  "lt_dladvise_local = set_advice (adv_is_symlocal_update (\<lambda>_. True))"
definition lt_dladvise_global :: "lt_advise option option \<Rightarrow> ('k, int \<times> lt_advise option option) lt" where
  "lt_dladvise_global = set_advice (adv_is_symglobal_update (\<lambda>_. True))"
definition lt_dladvise_preload :: "lt_advise option option \<Rightarrow> ('k, int \<times> lt_advise option option) lt" where
  "lt_dladvise_preload = set_advice (try_preload_only_update (\<lambda>_. True))"

section \<open>The public functions\<close>

text \<open>The part of \<^verbatim>\<open>lt_dlopenadvise\<close> that tries the two extensions.\<close>

definition open_with_ext :: "'k lt_os \<Rightarrow> 'k lt_code \<Rightarrow> string \<Rightarrow> lt_advise option \<Rightarrow> ('k, nat option) lt" where
  "open_with_ext S V fname advise =
     (let give_up = andS (set_error LT_ERROR_FILE_NOT_FOUND) (retS None) in
      bindS (try_dlopen S V (Some fname) (Some archive_ext) advise) (\<lambda>(e1, h1).
      bindS file_not_found (\<lambda>nf1.
        if h1 \<noteq> None \<or> e1 > 0 \<and> \<not> nf1 then retS h1
        else bindS (try_dlopen S V (Some fname) (Some (LT_MODULE_EXT S)) advise) (\<lambda>(e2, h2).
        bindS file_not_found (\<lambda>nf2.
          if h2 \<noteq> None \<or> e2 > 0 \<and> \<not> nf2 then retS h2 else give_up)))))"

definition lt_dlopenadvise :: "'k lt_os \<Rightarrow> 'k lt_code \<Rightarrow> string option \<Rightarrow> lt_advise option \<Rightarrow> ('k, nat option) lt" where
  "lt_dlopenadvise S V fname advise =
     (if (case advise of None \<Rightarrow> False | Some a \<Rightarrow> adv_is_symlocal a \<and> adv_is_symglobal a) then
        andS (set_error LT_ERROR_CONFLICTING_FLAGS) (retS None)
      else case fname of
        None \<Rightarrow> bindS (try_dlopen S V None None advise) (\<lambda>(e, h). retS (if e \<noteq> 0 then None else h))
      | Some f \<Rightarrow>
          if (case advise of None \<Rightarrow> True | Some a \<Rightarrow> \<not> try_ext a) \<or> has_library_ext S f then
            bindS (try_dlopen S V fname None advise) (\<lambda>(e, h). retS (if e \<noteq> 0 then None else h))
          else if f \<noteq> [] then open_with_ext S V f advise
          else andS (set_error LT_ERROR_FILE_NOT_FOUND) (retS None))"

definition lt_dlopen :: "'k lt_os \<Rightarrow> 'k lt_code \<Rightarrow> string option \<Rightarrow> ('k, nat option) lt" where
  "lt_dlopen S V fname = lt_dlopenadvise S V fname None"

definition lt_dlopenext :: "'k lt_os \<Rightarrow> 'k lt_code \<Rightarrow> string option \<Rightarrow> ('k, nat option) lt" where
  "lt_dlopenext S V fname =
     bindS (lt_dladvise_init S) (\<lambda>(e, advise).
       if e \<noteq> 0 then retS None
       else bindS (lt_dladvise_ext (Some advise)) (\<lambda>(e', padvise).
         if e' \<noteq> 0 then retS None else lt_dlopenadvise S V fname (case padvise of None \<Rightarrow> None | Some a \<Rightarrow> a)))"

end
