(* ===== verification/Ltdl_Backends.thy ===== *)
theory Ltdl_Backends
  imports Ltdl_Open
begin

text \<open>
  Two loaders of libltdl: the one for preloaded modules (\<^verbatim>\<open>libltdl/loaders/preopen.c\<close>), whose symbols
  are static lists, and the one for \<^verbatim>\<open>dlopen\<close> (\<^verbatim>\<open>libltdl/loaders/dlopen.c\<close>). Their functions have
  the addresses below; \<open>with_backends\<close> is the code with these functions at them. A symbol list is
  the list of its entries up to the null name, a module of the first loader the address of its list.
\<close>

section \<open>Preloaded modules: the symbol lists\<close>

definition free_symlists :: "('k, unit) lt" where
  "free_symlists = modify (preloaded_symlists_update (\<lambda>_. []))"

definition add_symlist :: "'k lt_os \<Rightarrow> nat \<Rightarrow> ('k, int) lt" where
  "add_symlist S symlist =
     bindS (asks preloaded_symlists) (\<lambda>lists.
       if symlist \<in> set lists then retS 0
       else bindS (lt__zalloc S) (\<lambda>tmp.
         if tmp = None then retS 1
         else andS (modify (preloaded_symlists_update (\<lambda>_. symlist # lists))) (retS 0)))"

definition lt_dlpreload_default :: "nat option \<Rightarrow> ('k, int) lt" where
  "lt_dlpreload_default preloaded = andS (modify (default_preloaded_symbols_update (\<lambda>_. preloaded))) (retS 0)"

definition lt_dlpreload :: "'k lt_os \<Rightarrow> nat option \<Rightarrow> ('k, int) lt" where
  "lt_dlpreload S preloaded =
     (case preloaded of Some p \<Rightarrow> add_symlist S p
      | None \<Rightarrow> andS free_symlists (bindS (asks default_preloaded_symbols) (\<lambda>d.
          case d of None \<Rightarrow> retS 0 | Some p \<Rightarrow> add_symlist S p)))"

text \<open>The modules of a list are its entries without an address; the program itself is left out.\<close>

fun open_entries :: "'k lt_os \<Rightarrow> 'k lt_code \<Rightarrow> (nat \<Rightarrow> ('k, int) lt) \<Rightarrow> (string \<times> nat option) list \<Rightarrow> ('k, int) lt" where
  "open_entries S V func [] = retS 0"
| "open_entries S V func ((name, address) # symbols) =
     bindS (if address = None \<and> name \<noteq> ''@PROGRAM@'' then
         bindS (lt_dlopen S V (Some name)) (\<lambda>handle. case handle of None \<Rightarrow> retS 1 | Some h \<Rightarrow> func h)
       else retS 0) (\<lambda>e. bindS (open_entries S V func symbols) (\<lambda>e'. retS (e + e')))"

fun open_lists ::
    "'k lt_os \<Rightarrow> 'k lt_code \<Rightarrow> string \<Rightarrow> (nat \<Rightarrow> ('k, int) lt) \<Rightarrow> nat list \<Rightarrow> ('k, int \<times> nat) lt" where
  "open_lists S V originator func [] = retS (0, 0)"
| "open_lists S V originator func (l # ls) =
     (case symlist_at S l of [] \<Rightarrow> fault NullDeref
      | (name, _) # symbols \<Rightarrow>
          bindS (if name = originator then bindS (open_entries S V func symbols) (\<lambda>e. retS (e, 1)) else retS (0, 0)) (\<lambda>(e, f).
          bindS (open_lists S V originator func ls) (\<lambda>(e', f'). retS (e + e', f + f'))))"

definition lt_dlpreload_open ::
    "'k lt_os \<Rightarrow> 'k lt_code \<Rightarrow> string option \<Rightarrow> (nat \<Rightarrow> ('k, int) lt) \<Rightarrow> ('k, int) lt" where
  "lt_dlpreload_open S V originator func =
     bindS (asks preloaded_symlists) (\<lambda>ls.
     bindS (open_lists S V (case originator of None \<Rightarrow> ''@PROGRAM@'' | Some p \<Rightarrow> p) func ls) (\<lambda>(errors, found).
       if found = 0 then andS (set_error LT_ERROR_CANNOT_OPEN) (retS (errors + 1)) else retS errors))"

section \<open>Preloaded modules: the loader\<close>

definition preopen_vl_init :: "'k lt_os \<Rightarrow> ('k, int) lt" where
  "preopen_vl_init S =
     andS free_symlists (bindS (asks default_preloaded_symbols) (\<lambda>d.
       case d of None \<Rightarrow> retS 0 | Some p \<Rightarrow> lt_dlpreload S (Some p)))"

definition preopen_vl_exit :: "('k, int) lt" where
  "preopen_vl_exit = andS (modify (preopen_vtable_update (\<lambda>_. None))) (andS free_symlists (retS 0))"

text \<open>A module without symbols after its entry is passed over.\<close>

fun has_module :: "(string \<times> nat option) list \<Rightarrow> string \<Rightarrow> bool" where
  "has_module [] fname = False"
| "has_module ((name, address) # symbols) fname =
     (if address = None \<and> name = fname \<and> (case symbols of (_, Some _) # _ \<Rightarrow> True | _ \<Rightarrow> False) then True
      else has_module symbols fname)"

fun find_list :: "(nat \<Rightarrow> (string \<times> nat option) list) \<Rightarrow> string \<Rightarrow> nat list \<Rightarrow> nat option" where
  "find_list at fname [] = None"
| "find_list at fname (l # ls) = (if has_module (at l) fname then Some l else find_list at fname ls)"

definition preopen_vm_open :: "'k lt_os \<Rightarrow> string option \<Rightarrow> ('k, nat option) lt" where
  "preopen_vm_open S fname =
     bindS (asks preloaded_symlists) (\<lambda>ls.
       if ls = [] then andS (set_error LT_ERROR_NO_SYMBOLS) (retS None)
       else (case find_list (symlist_at S) (case fname of None \<Rightarrow> ''@PROGRAM@'' | Some f \<Rightarrow> f) ls of
           Some l \<Rightarrow> retS (Some l)
         | None \<Rightarrow> andS (set_error LT_ERROR_FILE_NOT_FOUND) (retS None)))"

definition preopen_vm_close :: "('k, int) lt" where
  "preopen_vm_close = retS 0"

definition preopen_vm_sym :: "'k lt_os \<Rightarrow> nat option \<Rightarrow> string \<Rightarrow> ('k, nat option) lt" where
  "preopen_vm_sym S module name =
     bindS (deref NullDeref module) (\<lambda>l.
       if length (symlist_at S l) < 2 then fault OutOfBounds
       else (case map_of (drop 2 (symlist_at S l)) name of
           Some address \<Rightarrow> retS address
         | None \<Rightarrow> andS (set_error LT_ERROR_SYMBOL_NOT_FOUND) (retS None)))"

section \<open>Tables and addresses\<close>

definition preopen_open_at :: nat where "preopen_open_at = 1"
definition preopen_close_at :: nat where "preopen_close_at = 2"
definition preopen_sym_at :: nat where "preopen_sym_at = 3"
definition preopen_init_at :: nat where "preopen_init_at = 4"
definition preopen_exit_at :: nat where "preopen_exit_at = 5"
definition preopen_get_vtable_at :: nat where "preopen_get_vtable_at = 6"
definition dlopen_open_at :: nat where "dlopen_open_at = 11"
definition dlopen_close_at :: nat where "dlopen_close_at = 12"
definition dlopen_sym_at :: nat where "dlopen_sym_at = 13"
definition dlopen_exit_at :: nat where "dlopen_exit_at = 15"
definition dlopen_get_vtable_at :: nat where "dlopen_get_vtable_at = 16"

lemmas code_at = preopen_open_at_def preopen_close_at_def preopen_sym_at_def preopen_init_at_def
  preopen_exit_at_def preopen_get_vtable_at_def dlopen_open_at_def dlopen_close_at_def dlopen_sym_at_def
  dlopen_exit_at_def dlopen_get_vtable_at_def

definition zero_vtable :: lt_dlvtable where
  "zero_vtable = \<lparr>vt_name = None, sym_prefix = None, module_open = None, module_close = None,
     find_sym = None, dlloader_init = None, dlloader_exit = None, dlloader_data = None, priority = 0\<rparr>"

definition preopen_fill :: "nat option \<Rightarrow> lt_dlvtable \<Rightarrow> lt_dlvtable" where
  "preopen_fill data v = v\<lparr>vt_name := Some ''lt_preopen'', sym_prefix := None,
     module_open := Some preopen_open_at, module_close := Some preopen_close_at,
     find_sym := Some preopen_sym_at, dlloader_init := Some preopen_init_at,
     dlloader_exit := Some preopen_exit_at, dlloader_data := data, priority := LT_DLLOADER_PREPEND\<rparr>"

definition dlopen_fill :: "nat option \<Rightarrow> lt_dlvtable \<Rightarrow> lt_dlvtable" where
  "dlopen_fill data v = v\<lparr>vt_name := Some ''lt_dlopen'',
     module_open := Some dlopen_open_at, module_close := Some dlopen_close_at,
     find_sym := Some dlopen_sym_at, dlloader_exit := Some dlopen_exit_at,
     dlloader_data := data, priority := LT_DLLOADER_PREPEND\<rparr>"

text \<open>The function \<^verbatim>\<open>get_vtable\<close> of both files, over the static variable and what it fills in.\<close>

definition fill_vtable ::
    "(nat option \<Rightarrow> lt_dlvtable \<Rightarrow> lt_dlvtable) \<Rightarrow> nat option \<Rightarrow> nat option \<Rightarrow> ('k, nat option) lt" where
  "fill_vtable fill loader_data v =
     (case v of None \<Rightarrow> retS None
      | Some r \<Rightarrow>
         bindS (vtable_at r) (\<lambda>x.
         andS (if vt_name x = None then modify (\<lambda>s. s\<lparr>vmem := (vmem s)(r \<mapsto> fill loader_data x)\<rparr>) else retS ())
         (bindS (vtable_at r) (\<lambda>y.
            if dlloader_data y \<noteq> loader_data then andS (set_error LT_ERROR_INIT_LOADER) (retS None)
            else retS (Some r)))))"

definition new_vtable ::
    "'k lt_os \<Rightarrow> (nat option \<Rightarrow> 'k ltdl \<Rightarrow> 'k ltdl) \<Rightarrow> ('k, nat option) lt" where
  "new_vtable S set_static =
     bindS (lt__zalloc S) (\<lambda>p. case p of
         None \<Rightarrow> retS None
       | Some r \<Rightarrow> andS (modify (\<lambda>s. set_static (Some r) (s\<lparr>vmem := (vmem s)(r \<mapsto> zero_vtable)\<rparr>))) (retS (Some r)))"

definition make_vtable ::
    "'k lt_os \<Rightarrow> ('k ltdl \<Rightarrow> nat option) \<Rightarrow> (nat option \<Rightarrow> 'k ltdl \<Rightarrow> 'k ltdl) \<Rightarrow>
     (nat option \<Rightarrow> lt_dlvtable \<Rightarrow> lt_dlvtable) \<Rightarrow> nat option \<Rightarrow> ('k, nat option) lt" where
  "make_vtable S get_static set_static fill loader_data =
     bindS (asks get_static) (\<lambda>v0.
     bindS (if v0 = None then new_vtable S set_static else retS v0) (fill_vtable fill loader_data))"

definition preopen_get_vtable :: "'k lt_os \<Rightarrow> nat option \<Rightarrow> ('k, nat option) lt" where
  "preopen_get_vtable S = make_vtable S preopen_vtable (\<lambda>v. preopen_vtable_update (\<lambda>_. v)) preopen_fill"

definition dlopen_get_vtable :: "'k lt_os \<Rightarrow> nat option \<Rightarrow> ('k, nat option) lt" where
  "dlopen_get_vtable S = make_vtable S dlopen_vtable (\<lambda>v. dlopen_vtable_update (\<lambda>_. v)) dlopen_fill"

section \<open>The loader for \<^verbatim>\<open>dlopen\<close>\<close>

text \<open>\<^verbatim>\<open>DL__SETERROR\<close>: the message of the system, whatever the error.\<close>

definition dl_set_error :: "'k lt_os \<Rightarrow> ('k, unit) lt" where
  "dl_set_error S = bindS (sys (os_dlerror S)) (\<lambda>m. lt__set_last_error (map_option Diagnostic m))"

definition dlopen_vl_exit :: "('k, int) lt" where
  "dlopen_vl_exit = andS (modify (dlopen_vtable_update (\<lambda>_. None))) (retS 0)"

definition dlopen_vm_open :: "'k lt_os \<Rightarrow> string option \<Rightarrow> lt_advise option \<Rightarrow> ('k, nat option) lt" where
  "dlopen_vm_open S fname advise =
     (let global = (case advise of None \<Rightarrow> False | Some a \<Rightarrow> adv_is_symglobal a);
          local = (case advise of None \<Rightarrow> False | Some a \<Rightarrow> adv_is_symlocal a) in
      bindS (sys (os_dlopen S fname global local)) (\<lambda>module.
        andS (if module = None then dl_set_error S else retS ()) (retS module)))"

definition dlopen_vm_close :: "'k lt_os \<Rightarrow> nat option \<Rightarrow> ('k, int) lt" where
  "dlopen_vm_close S module =
     bindS (sys (os_dlclose S module)) (\<lambda>r. if r \<noteq> 0 then andS (dl_set_error S) (retS 1) else retS 0)"

definition dlopen_vm_sym :: "'k lt_os \<Rightarrow> nat option \<Rightarrow> string \<Rightarrow> ('k, nat option) lt" where
  "dlopen_vm_sym S module name =
     bindS (sys (os_dlsym S module name)) (\<lambda>address.
       andS (if address = None then dl_set_error S else retS ()) (retS address))"

section \<open>The code of both\<close>

definition with_backends :: "'k lt_os \<Rightarrow> 'k lt_code \<Rightarrow> 'k lt_code" where
  "with_backends S V = V\<lparr>
     call_open := (\<lambda>f data fname advise.
       if f = preopen_open_at then preopen_vm_open S fname
       else if f = dlopen_open_at then dlopen_vm_open S fname advise else call_open V f data fname advise),
     call_close := (\<lambda>f data module.
       if f = preopen_close_at then preopen_vm_close
       else if f = dlopen_close_at then dlopen_vm_close S module else call_close V f data module),
     call_sym := (\<lambda>f data module name.
       if f = preopen_sym_at then preopen_vm_sym S module name
       else if f = dlopen_sym_at then dlopen_vm_sym S module name else call_sym V f data module name),
     call_loader := (\<lambda>f data.
       if f = preopen_init_at then preopen_vl_init S
       else if f = preopen_exit_at then preopen_vl_exit
       else if f = dlopen_exit_at then dlopen_vl_exit else call_loader V f data),
     call_get_vtable := (\<lambda>f data.
       if f = preopen_get_vtable_at then preopen_get_vtable S data
       else if f = dlopen_get_vtable_at then dlopen_get_vtable S data else call_get_vtable V f data)\<rparr>"

text \<open>Addresses at which no function lies.\<close>

definition no_code :: "'k lt_code" where
  "no_code = \<lparr>call_open = (\<lambda>_ _ _ _. fault BadPointer), call_close = (\<lambda>_ _ _. fault BadPointer),
     call_sym = (\<lambda>_ _ _ _. fault BadPointer), call_loader = (\<lambda>_ _. fault BadPointer),
     call_get_vtable = (\<lambda>_ _. fault BadPointer), call_iface = (\<lambda>_ _ _. fault BadPointer)\<rparr>"

end
