(* ===== verification/Ltdl_Init.thy ===== *)
theory Ltdl_Init
  imports Ltdl_Backends
begin

text \<open>
  Start and end of libltdl (\<^verbatim>\<open>libltdl/ltdl.c\<close>): \<^verbatim>\<open>lt_dlinit\<close> hooks the preopening loader into the
  list, preloads the symbols of the others and opens them; \<^verbatim>\<open>lt_dlexit\<close> closes the modules, those with
  fewer users first, and takes the loaders away. \<open>n\<close> bounds the rounds of \<^verbatim>\<open>lt_dlexit\<close>.
\<close>

section \<open>Start\<close>

definition loader_init :: "'k lt_os \<Rightarrow> 'k lt_code \<Rightarrow> nat option \<Rightarrow> nat option \<Rightarrow> ('k, int) lt" where
  "loader_init S V vtable_func data =
     bindS (case vtable_func of None \<Rightarrow> retS None | Some f \<Rightarrow> call_get_vtable V f data) (\<lambda>vt.
     bindS (lt_dlloader_add S vt) (\<lambda>errors.
     andS (asserts (errors \<noteq> 0 \<or> vt \<noteq> None))
     (if errors \<noteq> 0 then retS errors
      else bindS (deref NullDeref vt) (\<lambda>v. bindS (vtable_at v) (\<lambda>x.
        case dlloader_init x of None \<Rightarrow> retS 0
        | Some f \<Rightarrow> bindS (call_loader V f (dlloader_data x)) (\<lambda>e.
            if e \<noteq> 0 then andS (set_error LT_ERROR_INIT_LOADER) (retS 1) else retS 0))))))"

definition loader_init_callback :: "'k lt_os \<Rightarrow> 'k lt_code \<Rightarrow> nat \<Rightarrow> ('k, int) lt" where
  "loader_init_callback S V handle =
     bindS (lt_dlsym S V (Some handle) (Some ''get_vtable'')) (\<lambda>f. loader_init S V f None)"

definition lt_dlinit :: "'k lt_os \<Rightarrow> 'k lt_code \<Rightarrow> ('k, int) lt" where
  "lt_dlinit S V =
     andS (modify (initialized_update (\<lambda>i. i + 1)))
     (bindS (asks initialized) (\<lambda>i. if i \<noteq> 1 then retS 0 else
       andS (modify (\<lambda>s. s\<lparr>alloc_die_set := True, handles := None, user_search_path := None\<rparr>))
       (bindS (loader_init S V (Some preopen_get_vtable_at) None) (\<lambda>e1.
        bindS (if e1 \<noteq> 0 then retS e1 else lt_dlpreload S (Some (LTDLOPEN_symbols S))) (\<lambda>e2.
          if e2 \<noteq> 0 then retS e2
          else lt_dlpreload_open S V (Some (LTDLOPEN_name S)) (loader_init_callback S V))))))"

section \<open>End\<close>

text \<open>The first handle that is not resident becomes the head of the list.\<close>

fun skip_resident :: "nat \<Rightarrow> ('k, unit) lt" where
  "skip_resident n =
     bindS (asks handles) (\<lambda>hs. case hs of None \<Rightarrow> retS ()
       | Some r \<Rightarrow> bindS (handle_at r) (\<lambda>x.
           if is_resident x then
             andS (modify (handles_update (\<lambda>_. hnext x)))
               (case n of 0 \<Rightarrow> fault OutOfFuel | Suc n' \<Rightarrow> skip_resident n')
           else retS ()))"

declare skip_resident.simps [simp del]

fun in_list :: "nat \<Rightarrow> nat option \<Rightarrow> nat \<Rightarrow> ('k, bool) lt" where
  "in_list n None cur = retS False"
| "in_list n (Some tmp) cur =
     (if tmp = cur then retS True
      else case n of 0 \<Rightarrow> fault OutOfFuel
        | Suc n' \<Rightarrow> bindS (handle_at tmp) (\<lambda>x. in_list n' (hnext x) cur))"

declare in_list.simps [simp del]

text \<open>One walk along the list: closing what has few enough users.\<close>

fun close_walk :: "nat \<Rightarrow> 'k lt_os \<Rightarrow> 'k lt_code \<Rightarrow> int \<Rightarrow> nat option \<Rightarrow> int \<Rightarrow> bool \<Rightarrow> ('k, int \<times> bool) lt" where
  "close_walk n S V level None errors saw = retS (errors, saw)"
| "close_walk n S V level (Some tmp) errors saw =
     bindS (handle_at tmp) (\<lambda>x.
     bindS (if \<not> is_resident x \<and> ref_count x \<le> level then
         bindS (lt_dlclose (rounds S) S V (Some tmp)) (\<lambda>e.
         bindS (case hnext x of None \<Rightarrow> retS None
           | Some c \<Rightarrow> bindS (asks handles) (\<lambda>hs. bindS (in_list (rounds S) hs c) (\<lambda>b.
               retS (if b then Some c else hs)))) (\<lambda>cur. retS (cur, if e \<noteq> 0 then 1 else 0)))
       else retS (hnext x, 0)) (\<lambda>(cur, e).
       case n of 0 \<Rightarrow> fault OutOfFuel
       | Suc n' \<Rightarrow> close_walk n' S V level cur (errors + e) (saw \<or> \<not> is_resident x)))"

declare close_walk.simps [simp del]

fun close_levels :: "nat \<Rightarrow> 'k lt_os \<Rightarrow> 'k lt_code \<Rightarrow> int \<Rightarrow> int \<Rightarrow> ('k, int) lt" where
  "close_levels n S V level errors =
     bindS (asks handles) (\<lambda>hs.
     bindS (close_walk (rounds S) S V level hs errors False) (\<lambda>(errors', saw).
       if \<not> saw then retS errors'
       else case n of 0 \<Rightarrow> fault OutOfFuel | Suc n' \<Rightarrow> close_levels n' S V (level + 1) errors'))"

declare close_levels.simps [simp del]

definition free_vtable :: "nat \<Rightarrow> ('k, unit) lt" where
  "free_vtable v = bindS (vtable_at v) (\<lambda>_. modify (\<lambda>s. s\<lparr>vmem := (vmem s)(v := None)\<rparr>))"

fun close_loaders :: "nat \<Rightarrow> 'k lt_os \<Rightarrow> 'k lt_code \<Rightarrow> nat option \<Rightarrow> int \<Rightarrow> ('k, int) lt" where
  "close_loaders n S V None errors = retS errors"
| "close_loaders n S V (Some loader) errors =
     bindS (lt_dlloader_next (Some loader)) (\<lambda>nextl.
     bindS (lt_dlloader_get (Some loader)) (\<lambda>vt.
     bindS (deref NullDeref vt) (\<lambda>v.
     bindS (vtable_at v) (\<lambda>x.
     bindS (deref NullDeref (vt_name x)) (\<lambda>name.
     bindS (lt_dlloader_remove S V name) (\<lambda>removed.
     bindS (case removed of Some r \<Rightarrow> andS (free_vtable r) (retS 0)
        | None \<Rightarrow> bindS lt__get_last_error (\<lambda>err. retS (if err \<noteq> None then 1 else 0))) (\<lambda>e.
       case n of 0 \<Rightarrow> fault OutOfFuel | Suc n' \<Rightarrow> close_loaders n' S V nextl (errors + e))))))))"

declare close_loaders.simps [simp del]

definition lt_dlexit :: "nat \<Rightarrow> 'k lt_os \<Rightarrow> 'k lt_code \<Rightarrow> ('k, int) lt" where
  "lt_dlexit n S V =
     bindS (asks handles) (\<lambda>handle.
     bindS (asks initialized) (\<lambda>i.
       if i = 0 then andS (set_error LT_ERROR_SHUTDOWN) (retS 1)
       else
         andS (modify (initialized_update (\<lambda>i. i - 1)))
         (if i - 1 \<noteq> 0 then retS 0
          else
            andS (skip_resident (rounds S))
            (bindS (if handle = None then retS 0 else close_levels n S V 1 0) (\<lambda>errors.
             andS (if errors = 0 then lt__set_last_error None else retS ())
             (bindS (lt_dlloader_next None) (\<lambda>loader.
              bindS (close_loaders (rounds S) S V loader errors) (\<lambda>errors'.
              andS (modify (user_search_path_update (\<lambda>_. None))) (retS errors')))))))))"

end
