(* ===== verification/Ltdl_Frame.thy ===== *)
theory Ltdl_Frame
  imports Ltdl_Init
begin

text \<open>
  Which functions of libltdl leave the module list alone. \<open>quiet S m\<close>: the action \<open>m\<close> changes no
  handle and not the list, takes no table of a loader away, and reaches the operating system only
  through its calls. Everything that looks for files, reads archives or reports errors is quiet, and
  so are the two loaders; \<open>triple\<close> states what an action does that is not.
\<close>

section \<open>Triples\<close>

definition triple :: "('s \<Rightarrow> bool) \<Rightarrow> ('s, 'a) act \<Rightarrow> ('a \<Rightarrow> 's \<Rightarrow> bool) \<Rightarrow> bool" where
  "triple P m Q \<longleftrightarrow> (\<forall>s r s'. P s \<longrightarrow> m s = Inr (r, s') \<longrightarrow> Q r s')"

named_theorems triples

lemma tripleD: "triple P m Q \<Longrightarrow> P s \<Longrightarrow> m s = Inr (r, s') \<Longrightarrow> Q r s'"
  by (simp add: triple_def)

lemma bindE_Inr: "bindE m f = Inr y \<longleftrightarrow> (\<exists>x. m = Inr x \<and> f x = Inr y)"
  by (cases m) auto

lemma bindS_ret: "bindS (retS x) f = f x"
  by (simp add: fun_eq_iff act_simps)

lemma triple_bind:
  assumes "triple P m R" and "\<And>x. triple (R x) (f x) Q"
  shows "triple P (bindS m f) Q"
  using assms unfolding triple_def by (fastforce simp: act_simps bindE_Inr)

lemma triple_and: "triple P m (\<lambda>_. R) \<Longrightarrow> triple R m' Q \<Longrightarrow> triple P (andS m m') Q"
  unfolding andS_def by (rule triple_bind)

lemma triple_ret: "(\<And>s. P s \<Longrightarrow> Q x s) \<Longrightarrow> triple P (retS x) Q"
  by (simp add: triple_def act_simps)

lemma triple_asks: "(\<And>s. P s \<Longrightarrow> Q (f s) s) \<Longrightarrow> triple P (asks f) Q"
  by (simp add: triple_def act_simps)

lemma triple_fault [triples]: "triple P (fault e) Q"
  by (simp add: triple_def act_simps)

lemma triple_conseq:
  assumes "triple P m Q" and "\<And>s. P' s \<Longrightarrow> P s" and "\<And>r s. Q r s \<Longrightarrow> Q' r s"
  shows "triple P' m Q'"
  using assms unfolding triple_def by blast

lemma triple_weaken: "triple P m Q \<Longrightarrow> (\<And>s. P' s \<Longrightarrow> P s) \<Longrightarrow> triple P' m Q"
  unfolding triple_def by blast

lemma triple_cases [triples]:
  "(b \<Longrightarrow> triple P m Q) \<Longrightarrow> (\<not> b \<Longrightarrow> triple P m' Q) \<Longrightarrow> triple P (if b then m else m') Q"
  "(x = None \<Longrightarrow> triple P m Q) \<Longrightarrow> (\<And>y. x = Some y \<Longrightarrow> triple P (f y) Q) \<Longrightarrow> triple P (case_option m f x) Q"
  "(\<And>a b. p = (a, b) \<Longrightarrow> triple P (g a b) Q) \<Longrightarrow> triple P (case_prod g p) Q"
  "(n = 0 \<Longrightarrow> triple P m Q) \<Longrightarrow> (\<And>k. n = Suc k \<Longrightarrow> triple P (h k) Q) \<Longrightarrow> triple P (case_nat m h n) Q"
  by (simp_all split: option.splits prod.splits nat.splits)

section \<open>Quiet actions\<close>

definition os_step :: "'k lt_os \<Rightarrow> 'k \<Rightarrow> 'k \<Rightarrow> bool" where
  "os_step S k k' \<longleftrightarrow> k' = snd (os_malloc S k) \<or> (\<exists>f. k' = snd (os_fopen S f k)) \<or>
     (\<exists>f. k' = snd (os_access S f k)) \<or> (\<exists>d. k' = snd (os_readdir S d k)) \<or>
     (\<exists>f g l. k' = snd (os_dlopen S f g l k)) \<or> (\<exists>m. k' = snd (os_dlclose S m k)) \<or>
     (\<exists>m n. k' = snd (os_dlsym S m n k)) \<or> k' = snd (os_dlerror S k)"

definition quiet_step :: "'k lt_os \<Rightarrow> 'k ltdl \<Rightarrow> 'k ltdl \<Rightarrow> bool" where
  "quiet_step S s s' \<longleftrightarrow> handles s' = handles s \<and> hmem s' = hmem s \<and> dom (vmem s) \<subseteq> dom (vmem s') \<and>
     (os_step S)\<^sup>*\<^sup>* (plat s) (plat s')"

definition quiet :: "'k lt_os \<Rightarrow> ('k, 'a) lt \<Rightarrow> bool" where
  "quiet S m \<longleftrightarrow> (\<forall>s r s'. m s = Inr (r, s') \<longrightarrow> quiet_step S s s')"

named_theorems quiets

lemma quiet_step_refl [simp]: "quiet_step S s s"
  by (simp add: quiet_step_def)

lemma quiet_step_trans: "quiet_step S s t \<Longrightarrow> quiet_step S t u \<Longrightarrow> quiet_step S s u"
  unfolding quiet_step_def by (auto intro: rtranclp_trans)

lemma quiet_bind [quiets]:
  assumes "quiet S m" and "\<And>x. quiet S (f x)"
  shows "quiet S (bindS m f)"
  unfolding quiet_def
proof (intro allI impI)
  fix s r s' assume "bindS m f s = Inr (r, s')"
  then obtain x t where "m s = Inr (x, t)" "f x t = Inr (r, s')" by (auto simp: act_simps bindE_Inr)
  then show "quiet_step S s s'" using assms unfolding quiet_def by (blast intro: quiet_step_trans)
qed

lemma quiet_and [quiets]: "quiet S m \<Longrightarrow> quiet S m' \<Longrightarrow> quiet S (andS m m')"
  unfolding andS_def by (rule quiet_bind)

lemma quiet_basic [quiets]:
  "quiet S (retS x)" "quiet S (asks f)" "quiet S (fault e)" "quiet S (lift r)" "quiet S (asserts b)"
  "quiet S (handle_at h)" "quiet S (vtable_at v)" "quiet S (lt__get_last_error)"
  "quiet S (lt__set_last_error m)" "quiet S (set_error er)"
  by (auto simp: quiet_def quiet_step_def act_simps bindE_Inr split: if_splits option.splits)

lemma quiet_deref [quiets]: "quiet S (deref e p)"
  by (cases p) (simp_all add: quiet_basic)

lemma quiet_cases [quiets]:
  "quiet S m \<Longrightarrow> quiet S m' \<Longrightarrow> quiet S (if b then m else m')"
  "quiet S m \<Longrightarrow> (\<And>y. quiet S (f y)) \<Longrightarrow> quiet S (case_option m f x)"
  "(\<And>a b. quiet S (g a b)) \<Longrightarrow> quiet S (case_prod g p)"
  "quiet S m \<Longrightarrow> (\<And>k. n = Suc k \<Longrightarrow> quiet S (h k)) \<Longrightarrow> quiet S (case_nat m h n)"
  "(\<And>y. quiet S (l y)) \<Longrightarrow> quiet S (Let z l)"
  by (simp_all split: option.splits prod.splits nat.splits)

lemma quiet_modify:
  "(\<And>s. handles (g s) = handles s \<and> hmem (g s) = hmem s \<and> dom (vmem s) \<subseteq> dom (vmem (g s)) \<and> plat (g s) = plat s) \<Longrightarrow>
     quiet S (modify g)"
  by (simp add: quiet_def act_simps quiet_step_def)

lemma quiet_sys: "(\<And>k. os_step S k (snd (f k))) \<Longrightarrow> quiet S (sys f)"
  by (auto simp: quiet_def sys_run quiet_step_def)

lemma quiet_calls [quiets]:
  "quiet S (sys (os_malloc S))" "quiet S (sys (os_fopen S f))" "quiet S (sys (os_access S f))"
  "quiet S (sys (os_readdir S d))" "quiet S (sys (os_dlopen S fo g l))" "quiet S (sys (os_dlclose S m))"
  "quiet S (sys (os_dlsym S m n))" "quiet S (sys (os_dlerror S))"
  by (rule quiet_sys, simp add: os_step_def, blast?)+

section \<open>Errors and memory\<close>

lemma quiet_memory [quiets]:
  "quiet S (lt__malloc S)" "quiet S (lt__zalloc S)" "quiet S (lt__realloc S)" "quiet S (lt__memdup S str)"
  "quiet S (lt__strdup S str)"
  unfolding lt__malloc_def lt__zalloc_def lt__realloc_def lt__memdup_def lt__strdup_def lt__alloc_die_def
    lt__alloc_die_callback_def alloc_die_default_def
  by (intro quiets)+

lemma quiet_user_errors [quiets]: "quiet S (lt_dlseterror n)" "quiet S (lt_dladderror S str)" "quiet S lt_dlerror"
  unfolding lt_dlseterror_def lt_dladderror_def lt_dlerror_def
  by (intro quiets quiet_modify conjI; simp)+

section \<open>Paths, directories and archives\<close>

lemma quiet_paths [quiets]: "quiet S (canonicalize_path S p)" "quiet S (argzize_path S p)"
  unfolding canonicalize_path_def argzize_path_def argz_failed_def by (intro quiets)+

lemma quiet_dir_loop [quiets]:
  assumes "\<And>f d. quiet S (func f d)"
  shows "quiet S (dir_loop n S argz prev base fsize func d)"
proof (induction n arbitrary: prev fsize d)
  case (Suc n)
  then show ?case by (subst dir_loop.simps) (auto intro!: quiets assms)
qed (subst dir_loop.simps, auto intro!: quiets assms)

lemma quiet_foreach [quiets]: "(\<And>f d. quiet S (func f d)) \<Longrightarrow> quiet S (foreach_dirinpath S p b func d)"
  unfolding foreach_dirinpath_def by (intro quiets) simp_all

lemma quiet_find_file [quiets]: "quiet S (find_file S path base d)"
  unfolding find_file_def find_file_callback_def by (intro quiets)

lemma quiet_insertdir [quiets]: "quiet S (lt_dlpath_insertdir S pp pos dir)"
  unfolding lt_dlpath_insertdir_def lt_argz_insert_def argz_failed_def by (intro quiets)

lemma quiet_search_path [quiets]:
  "quiet S (lt_dladdsearchdir S dir)" "quiet S (lt_dlinsertsearchdir S pos dir)" "quiet S (lt_dlsetsearchpath S path)"
  unfolding lt_dladdsearchdir_def lt_dlinsertsearchdir_def lt_dlsetsearchpath_def set_user_path_def
  by (intro quiets quiet_modify conjI; simp)+

lemma quiet_grow_loop [quiets]: "quiet S (grow_loop n S line len fl)"
proof (induction n arbitrary: line len fl)
  case (Suc n)
  then show ?case by (subst grow_loop.simps) (auto intro!: quiets)
qed (subst grow_loop.simps, auto intro!: quiets)

lemma quiet_la_line [quiets]: "quiet S (la_line S line d)"
  unfolding la_line_def trim_def by (intro quiets)

lemma quiet_la_loop [quiets]: "quiet S (la_loop n S line len fl d)"
proof (induction n arbitrary: line len fl d)
  case (Suc n)
  then show ?case by (subst la_loop.simps) (auto intro!: quiets)
qed (subst la_loop.simps, auto intro!: quiets)

lemma quiet_parse [quiets]: "quiet S (parse_dotla_file S file d)"
  unfolding parse_dotla_file_def by (intro quiets)

lemma quiet_find_archive [quiets]: "quiet S (find_archive S dir base attempt)"
  unfolding find_archive_def Let_def by (intro quiets)

section \<open>The list of loaders\<close>

lemma quiet_loaders [quiets]:
  "quiet S (lt_dlloader_next l)" "quiet S (lt_dlloader_get l)" "quiet S (lt_dlloader_find S name)"
  "quiet S (lt_dlloader_add S vt)"
  unfolding lt_dlloader_next_def lt_dlloader_get_def lt_dlloader_find_def lt_dlloader_add_def set_loaders_def
    lt__alloc_die_def lt__alloc_die_callback_def alloc_die_default_def
  by (intro quiets quiet_modify conjI; simp)+

section \<open>The code of loaders\<close>

text \<open>What the module list needs of the functions behind the pointers of a loader's table.\<close>

locale module_code =
  fixes S :: "'k lt_os" and V :: "'k lt_code"
  assumes open_quiet: "quiet S (call_open V f data fname advise)"
    and close_quiet: "quiet S (call_close V f data module)"
    and sym_quiet: "quiet S (call_sym V f data module name)"
    and loader_quiet: "quiet S (call_loader V f data)"
    and get_vtable_quiet: "quiet S (call_get_vtable V f data)"
    and iface_quiet: "quiet S (call_iface V i h str)"
begin

lemmas code_quiet = open_quiet close_quiet sym_quiet loader_quiet get_vtable_quiet iface_quiet

lemma dlsym_quiet: "quiet S (lt_dlsym S V place symbol)"
  unfolding lt_dlsym_def by (intro quiets code_quiet)

lemma loader_init_quiet: "quiet S (loader_init S V vf data)" "quiet S (loader_init_callback S V h)"
  unfolding loader_init_callback_def loader_init_def by (intro quiets code_quiet dlsym_quiet)+

lemma advance_quiet: "quiet S (advance n V i h)"
proof (induction n arbitrary: h)
  case 0
  then show ?case by (cases h; simp add: advance.simps interface_at_def; auto intro!: quiets code_quiet)
next
  case (Suc n)
  then show ?case by (cases h; simp add: advance.simps interface_at_def; auto intro!: quiets code_quiet)
qed

lemma iterate_quiet: "quiet S (lt_dlhandle_iterate S V i place)"
  unfolding lt_dlhandle_iterate_def by (intro quiets advance_quiet)

end

lemma quiet_symlists [quiets]:
  "quiet S free_symlists" "quiet S (add_symlist S l)" "quiet S (lt_dlpreload S p)" "quiet S (lt_dlpreload_default p)"
  unfolding free_symlists_def add_symlist_def lt_dlpreload_def lt_dlpreload_default_def
  by (intro quiets quiet_modify conjI; simp)+

lemma quiet_preopen [quiets]:
  "quiet S (preopen_vl_init S)" "quiet S preopen_vl_exit" "quiet S (preopen_vm_open S f)"
  "quiet S preopen_vm_close" "quiet S (preopen_vm_sym S m n)"
  unfolding preopen_vl_init_def preopen_vl_exit_def preopen_vm_open_def preopen_vm_close_def preopen_vm_sym_def
  by (intro quiets quiet_modify conjI; simp)+

lemma quiet_dlopen [quiets]:
  "quiet S dlopen_vl_exit" "quiet S (dlopen_vm_open S f a)" "quiet S (dlopen_vm_close S m)"
  "quiet S (dlopen_vm_sym S m n)"
  unfolding dlopen_vl_exit_def dlopen_vm_open_def dlopen_vm_close_def dlopen_vm_sym_def dl_set_error_def
  by (intro quiets quiet_modify conjI; simp)+

lemma quiet_tables [quiets]: "quiet S (preopen_get_vtable S d)" "quiet S (dlopen_get_vtable S d)"
  unfolding preopen_get_vtable_def dlopen_get_vtable_def make_vtable_def new_vtable_def fill_vtable_def
  by (intro quiets quiet_modify conjI; auto)+

lemma backends_keep:
  assumes "module_code S V"
  shows "module_code S (with_backends S V)"
  by (unfold_locales; simp add: with_backends_def module_code.code_quiet [OF assms] quiets)

interpretation backends: module_code S "with_backends S no_code" for S :: "'k lt_os"
  by (rule backends_keep) (unfold_locales; simp add: no_code_def quiets)

end
