(* ===== verification/Slist_Spec.thy ===== *)
theory Slist_Spec
  imports Slist "HOL-Library.Multiset"
begin

text \<open>
  The list of libltdl against lists: \<open>chain h p as\<close> says that the pointer \<open>p\<close> leads through the items
  at the addresses \<open>as\<close> and ends in null. Every operation on a chain of \<open>n\<close> items ends with fuel \<open>n\<close>
  -- but the sorting function, which does not end on any list with an item.
\<close>

section \<open>Chains\<close>

fun chain :: "'a sheap \<Rightarrow> nat option \<Rightarrow> nat list \<Rightarrow> bool" where
  "chain h p [] \<longleftrightarrow> p = None"
| "chain h p (a # as) \<longleftrightarrow> p = Some a \<and> (\<exists>x. h a = Some x \<and> chain h (nxt x) as)"

lemma chain_None [simp]: "chain h None as \<longleftrightarrow> as = []"
  by (cases as) auto

lemma chain_Some: "chain h (Some a) as \<longleftrightarrow> (\<exists>x bs. as = a # bs \<and> h a = Some x \<and> chain h (nxt x) bs)"
  by (cases as) auto

lemma chain_unique: "chain h p as \<Longrightarrow> chain h p bs \<Longrightarrow> as = bs"
  by (induction as arbitrary: p bs) (auto simp: chain_Some)

lemma chain_update: "a \<notin> set as \<Longrightarrow> chain (h(a := v)) p as = chain h p as"
  by (induction as arbitrary: p) auto

text \<open>The part of a chain that ends at a pointer \<open>q\<close>.\<close>

fun segment :: "'a sheap \<Rightarrow> nat option \<Rightarrow> nat list \<Rightarrow> nat option \<Rightarrow> bool" where
  "segment h p [] q \<longleftrightarrow> p = q"
| "segment h p (a # as) q \<longleftrightarrow> p = Some a \<and> (\<exists>x. h a = Some x \<and> segment h (nxt x) as q)"

lemma chain_append: "chain h p (as @ bs) \<longleftrightarrow> (\<exists>q. segment h p as q \<and> chain h q bs)"
  by (induction as arbitrary: p) auto

lemma segment_append: "segment h p (as @ bs) r \<longleftrightarrow> (\<exists>q. segment h p as q \<and> segment h q bs r)"
  by (induction as arbitrary: p) auto

lemma segment_update: "a \<notin> set as \<Longrightarrow> segment (h(a := v)) p as q = segment h p as q"
  by (induction as arbitrary: p) auto

lemma chain_tail_fresh:
  assumes "chain h p (a # as)"
  shows "a \<notin> set as"
proof
  assume "a \<in> set as"
  then obtain xs ys where as: "as = xs @ a # ys" by (auto dest: split_list)
  have "chain h (Some a) (a # ys)" and "chain h (Some a) (a # as)"
    using assms as by (auto simp: chain_append)
  then have "ys = as" using chain_unique by blast
  with as show False by simp
qed

lemma chain_distinct: "chain h p as \<Longrightarrow> distinct as"
proof (induction as arbitrary: p)
  case (Cons a as)
  then show ?case using chain_tail_fresh [OF Cons.prems] by auto
qed simp

lemma chain_alloc: "chain h p as \<Longrightarrow> a \<in> set as \<Longrightarrow> h a \<noteq> None"
  by (induction as arbitrary: p) auto

lemma item_at_Some [simp]: "h a = Some x \<Longrightarrow> item_at h a = Inr x"
  by (simp add: item_at_def)

lemma set_next_Some: "h a = Some x \<Longrightarrow> set_next a p h = Inr (h(a \<mapsto> x\<lparr>nxt := p\<rparr>))"
  by (simp add: set_next_def)

text \<open>No operation that only relinks items changes what they carry.\<close>

definition same_data :: "'a sheap \<Rightarrow> 'a sheap \<Rightarrow> bool" where
  "same_data h h' \<longleftrightarrow> (\<forall>a. map_option userdata (h' a) = map_option userdata (h a))"

lemma same_data_refl [simp]: "same_data h h"
  by (simp add: same_data_def)

lemma same_data_trans: "same_data h h1 \<Longrightarrow> same_data h1 h2 \<Longrightarrow> same_data h h2"
  by (simp add: same_data_def)

lemma same_data_next [simp]: "h a = Some x \<Longrightarrow> same_data h (h(a \<mapsto> x\<lparr>nxt := p\<rparr>))"
  by (simp add: same_data_def)

section \<open>The operations that always end\<close>

lemma slist_length_ok: "chain h p as \<Longrightarrow> length as \<le> n \<Longrightarrow> slist_length n p h = Inr (length as)"
proof (induction as arbitrary: p n)
  case (Cons a as)
  then show ?case by (cases n) auto
qed simp

lemma slist_nth_ok: "chain h p as \<Longrightarrow> slist_nth p n h = Inr (case drop (n - 1) as of [] \<Rightarrow> None | a # _ \<Rightarrow> Some a)"
proof (induction as arbitrary: p n)
  case (Cons a as)
  show ?case
  proof (cases "n > 1")
    case True
    then have "drop (n - 1) (a # as) = drop (n - 1 - 1) as" by (cases "n - 1") auto
    then show ?thesis using Cons True by auto
  qed (use Cons.prems in auto)
qed simp

lemma slist_find_ok:
  "chain h p as \<Longrightarrow> length as \<le> n \<Longrightarrow>
     slist_find n fnd p h = Inr (case filter (\<lambda>a. fnd a (the (h a)) \<noteq> None) as of
       [] \<Rightarrow> None | a # _ \<Rightarrow> fnd a (the (h a)))"
proof (induction as arbitrary: p n)
  case (Cons a as)
  then obtain x where x: "p = Some a" "h a = Some x" "chain h (nxt x) as" by auto
  from Cons.prems obtain m where "n = Suc m" "length as \<le> m" by (cases n) auto
  then show ?case using Cons.IH [OF x(3)] x(1,2) by (cases "fnd a x") auto
qed simp

lemma last_item_ok:
  "chain h (Some r) (as @ [l]) \<Longrightarrow> length as \<le> n \<Longrightarrow> last_item n r h = Inr l"
proof (induction as arbitrary: r n)
  case Nil
  then show ?case by (subst last_item.simps) auto
next
  case (Cons a as)
  then obtain x where x: "r = a" "h a = Some x" "chain h (nxt x) (as @ [l])" by auto
  from x(3) obtain m where m: "nxt x = Some m" by (cases "nxt x") auto
  obtain n' where "n = Suc n'" "length as \<le> n'" using Cons.prems(2) by (cases n) auto
  then show ?case using Cons.IH x m by (subst last_item.simps) simp
qed

lemma slist_concat_ok:
  assumes p: "chain h p as" and q: "chain h q bs" and d: "set as \<inter> set bs = {}" and n: "length as \<le> n"
  shows "\<exists>h' r. slist_concat n p q h = Inr (r, h') \<and> chain h' r (as @ bs) \<and> same_data h h' \<and>
    (\<forall>a. a \<notin> set as \<longrightarrow> h' a = h a)"
proof (cases as rule: rev_exhaust)
  case Nil
  then show ?thesis using p q by (simp add: slist_concat_def)
next
  case (snoc cs l)
  obtain r where r: "p = Some r" using p snoc by (cases p) auto
  obtain y where y: "segment h p cs (Some l)" "h l = Some y" "nxt y = None"
    using p snoc by (auto simp: chain_append)
  have l: "l \<notin> set cs" "l \<notin> set bs" using chain_distinct [OF p] d snoc by auto
  have "last_item n r h = Inr l" by (rule last_item_ok [of h r cs]) (use p r snoc n in auto)
  then have "slist_concat n p q h = Inr (p, h(l \<mapsto> y\<lparr>nxt := q\<rparr>))"
    by (simp add: slist_concat_def r set_next_Some [of h l y, OF y(2)])
  moreover have "chain (h(l \<mapsto> y\<lparr>nxt := q\<rparr>)) p (as @ bs)"
    using y q l by (auto simp: snoc chain_append segment_append segment_update chain_update)
  ultimately show ?thesis using y(2) snoc by auto
qed

lemma slist_cons_ok:
  assumes "h r = Some x" and "nxt x = None" and "chain h p as" and "r \<notin> set as"
  shows "\<exists>h'. slist_cons (Some r) p h = Inr (Some r, h') \<and> chain h' (Some r) (r # as) \<and> same_data h h'"
  using assms by (auto simp: slist_cons_def set_next_Some chain_update)

lemma reverse_loop_ok:
  assumes "chain h p as" and "chain h q bs" and "set as \<inter> set bs = {}" and "length as \<le> n"
  shows "\<exists>h' r. reverse_loop n p q h = Inr (r, h') \<and> chain h' r (rev as @ bs) \<and> same_data h h' \<and>
    (\<forall>a. a \<notin> set as \<longrightarrow> h' a = h a)"
  using assms
proof (induction as arbitrary: p q bs n h)
  case (Cons a as)
  obtain x where x: "p = Some a" "h a = Some x" "chain h (nxt x) as" using Cons.prems(1) by auto
  obtain m where m: "n = Suc m" "length as \<le> m" using Cons.prems(4) by (cases n) auto
  let ?h = "h(a \<mapsto> x\<lparr>nxt := q\<rparr>)"
  have a: "a \<notin> set as" "a \<notin> set bs" using chain_distinct [OF Cons.prems(1)] Cons.prems(3) by auto
  have "chain ?h (nxt x) as" "chain ?h (Some a) (a # bs)"
    using x a Cons.prems(2) by (simp_all add: chain_update)
  moreover have "set as \<inter> set (a # bs) = {}" using Cons.prems(3) a by auto
  ultimately obtain h' r where ih: "reverse_loop m (nxt x) (Some a) ?h = Inr (r, h')"
      "chain h' r (rev as @ a # bs)" "same_data ?h h'" "\<forall>b. b \<notin> set as \<longrightarrow> h' b = ?h b"
    using Cons.IH [OF _ _ _ m(2)] by blast
  have "reverse_loop n p q h = Inr (r, h')" using ih(1) x m by (simp add: set_next_Some)
  moreover have "same_data h h'" by (rule same_data_trans [OF same_data_next [of h a x, OF x(2)] ih(3)])
  ultimately show ?case using ih(2,4) by auto
qed simp

section \<open>Removing\<close>

text \<open>The list function: the first item the callback accepts leaves the list.\<close>

fun removed :: "(nat \<Rightarrow> bool) \<Rightarrow> nat list \<Rightarrow> nat list" where
  "removed P [] = []"
| "removed P (a # as) = (if P a then as else a # removed P as)"

definition first_match :: "(nat \<Rightarrow> 'a snode \<Rightarrow> 'r option) \<Rightarrow> 'a sheap \<Rightarrow> nat list \<Rightarrow> 'r option" where
  "first_match fnd h as =
     (case filter (\<lambda>a. fnd a (the (h a)) \<noteq> None) as of [] \<Rightarrow> None | a # _ \<Rightarrow> fnd a (the (h a)))"

lemma first_match_Cons:
  "first_match fnd h (a # as) = (if fnd a (the (h a)) \<noteq> None then fnd a (the (h a)) else first_match fnd h as)"
  by (simp add: first_match_def)

lemma removed_subset: "set (removed P as) \<subseteq> set as"
  by (induction as) auto

lemma remove_after_ok:
  assumes "chain h (Some a) (a # as)" and "length as \<le> n"
  shows "\<exists>h'. remove_after n fnd a h = Inr (first_match fnd h as, h') \<and>
    chain h' (Some a) (a # removed (\<lambda>b. fnd b (the (h b)) \<noteq> None) as) \<and> same_data h h' \<and>
    (\<forall>b. b \<notin> set (a # as) \<longrightarrow> h' b = h b)"
  using assms
proof (induction as arbitrary: a n)
  case Nil
  then show ?case by (subst remove_after.simps) (auto simp: first_match_def)
next
  case (Cons b as)
  obtain x y where x: "h a = Some x" "nxt x = Some b" and y: "h b = Some y" "chain h (nxt y) as"
    using Cons.prems(1) by auto
  obtain m where m: "n = Suc m" "length as \<le> m" using Cons.prems(2) by (cases n) auto
  have a: "a \<noteq> b" "a \<notin> set as" using chain_distinct [OF Cons.prems(1)] by auto
  have tl: "chain h (Some b) (b # as)" using y by simp
  show ?case
  proof (cases "fnd b y")
    case (Some v)
    let ?h = "h(a \<mapsto> x\<lparr>nxt := nxt y\<rparr>)"
    have "remove_after n fnd a h = Inr (Some v, ?h)"
      using x y m Some by (subst remove_after.simps) (simp add: set_next_Some [of h a x])
    moreover have "chain ?h (Some a) (a # as)" using y a by (simp add: chain_update)
    ultimately show ?thesis using Some x y by (auto simp: first_match_Cons)
  next
    case None
    obtain h' where h': "remove_after m fnd b h = Inr (first_match fnd h as, h')"
        "chain h' (Some b) (b # removed (\<lambda>b. fnd b (the (h b)) \<noteq> None) as)" "same_data h h'"
        "\<forall>c. c \<notin> set (b # as) \<longrightarrow> h' c = h c"
      using Cons.IH [OF tl m(2)] by blast
    have "remove_after n fnd a h = Inr (first_match fnd h as, h')"
      using x y m None h'(1) by (subst remove_after.simps) simp
    moreover have "h' a = Some x" using h'(4) a x by simp
    ultimately show ?thesis using h' None x y by (auto simp: first_match_Cons)
  qed
qed

lemma slist_remove_ok:
  assumes c: "chain h p as" and n: "length as \<le> n"
  shows "\<exists>q h'. slist_remove n fnd p h = Inr (first_match fnd h as, q, h') \<and>
    chain h' q (removed (\<lambda>b. fnd b (the (h b)) \<noteq> None) as) \<and> same_data h h'"
proof (cases as)
  case Nil
  then show ?thesis using c by (simp add: slist_remove_def first_match_def)
next
  case (Cons a bs)
  obtain x where x: "p = Some a" "h a = Some x" "chain h (nxt x) bs" using c Cons by auto
  show ?thesis
  proof (cases "fnd a x")
    case (Some v)
    then show ?thesis using x Cons by (simp add: slist_remove_def first_match_Cons)
  next
    case None
    have "chain h (Some a) (a # bs)" using c Cons x by simp
    from remove_after_ok [OF this, of n fnd] n Cons obtain h' where
      "remove_after n fnd a h = Inr (first_match fnd h bs, h')"
      "chain h' (Some a) (a # removed (\<lambda>b. fnd b (the (h b)) \<noteq> None) bs)" "same_data h h'" by auto
    with None x Cons show ?thesis by (simp add: slist_remove_def first_match_Cons)
  qed
qed

section \<open>Sorting\<close>

text \<open>Merging two chains does what merging two lists does.\<close>

fun merge_lists :: "(nat \<Rightarrow> nat \<Rightarrow> bool) \<Rightarrow> nat list \<Rightarrow> nat list \<Rightarrow> nat list" where
  "merge_lists le (a # as) (b # bs) =
     (if le a b then a # merge_lists le as (b # bs) else b # merge_lists le (a # as) bs)"
| "merge_lists le as [] = as"
| "merge_lists le [] bs = bs"

lemma mset_merge_lists: "mset (merge_lists le as bs) = mset as + mset bs"
  by (induction le as bs rule: merge_lists.induct) auto

lemma set_merge_lists: "set (merge_lists le as bs) = set as \<union> set bs"
  by (induction le as bs rule: merge_lists.induct) auto

lemma sorted_merge_lists:
  assumes "\<And>a b. le a b \<or> le b a" and "\<And>a b c. le a b \<Longrightarrow> le b c \<Longrightarrow> le a c"
    and "sorted_wrt le as" and "sorted_wrt le bs"
  shows "sorted_wrt le (merge_lists le as bs)"
  using assms
proof (induction le as bs rule: merge_lists.induct)
  case (1 le a as b bs)
  note total = 1(3) and trans = 1(4)
  have as: "\<forall>x \<in> set as. le a x" "sorted_wrt le as" and bs: "\<forall>x \<in> set bs. le b x" "sorted_wrt le bs"
    using 1(5,6) by simp_all
  show ?case
  proof (cases "le a b")
    case True
    have "\<forall>x \<in> set bs. le a x" using bs(1) True trans by blast
    moreover have "sorted_wrt le (merge_lists le as (b # bs))" by (rule 1(1) [OF True total trans as(2) 1(6)])
    ultimately show ?thesis using True as(1) by (auto simp: set_merge_lists)
  next
    case False
    then have ba: "le b a" using total by blast
    have "\<forall>x \<in> set as. le b x" using as(1) ba trans by blast
    moreover have "sorted_wrt le (merge_lists le (a # as) bs)" by (rule 1(2) [OF False total trans 1(5) bs(2)])
    ultimately show ?thesis using False ba bs(1) by (auto simp: set_merge_lists)
  qed
qed simp_all

text \<open>The items linked so far.\<close>

definition linked :: "'a sheap \<Rightarrow> nat option \<Rightarrow> nat option \<Rightarrow> nat list \<Rightarrow> bool" where
  "linked h ins merged ds \<longleftrightarrow>
     (case ins of None \<Rightarrow> ds = []
      | Some i \<Rightarrow> \<exists>cs. ds = cs @ [i] \<and> segment h merged cs (Some i) \<and> h i \<noteq> None \<and> i \<notin> set cs)"

lemma link_ok:
  assumes "linked h ins merged ds" and "chain h p as" and "set ds \<inter> set as = {}"
  shows "\<exists>m h'. link ins p merged h = Inr (m, h') \<and> chain h' m (ds @ as) \<and> same_data h h' \<and>
    (\<forall>a. a \<notin> set ds \<longrightarrow> h' a = h a)"
proof (cases ins)
  case None
  then show ?thesis using assms by (simp add: linked_def link_def)
next
  case (Some i)
  then obtain cs y where cs: "ds = cs @ [i]" "segment h merged cs (Some i)" "h i = Some y" "i \<notin> set cs"
    using assms(1) by (auto simp: linked_def)
  let ?h = "h(i \<mapsto> y\<lparr>nxt := p\<rparr>)"
  have "link ins p merged h = Inr (merged, ?h)" by (simp add: link_def Some set_next_Some [of h i y] cs)
  moreover have "chain ?h merged (ds @ as)"
    using cs assms(2,3) by (auto simp: chain_append segment_append segment_update chain_update)
  ultimately show ?thesis using cs by auto
qed

lemma linked_next:
  assumes "chain h m (ds @ l # as)" and "l \<notin> set ds"
  shows "linked h (Some l) m (ds @ [l])"
  using assms by (auto simp: linked_def chain_append)

lemma chain_cong: "chain h p as \<Longrightarrow> (\<And>a. a \<in> set as \<Longrightarrow> h' a = h a) \<Longrightarrow> chain h' p as"
  by (induction as arbitrary: p) auto

definition item_le :: "('a \<Rightarrow> 'a \<Rightarrow> int) \<Rightarrow> 'a sheap \<Rightarrow> nat \<Rightarrow> nat \<Rightarrow> bool" where
  "item_le cmp h a b \<longleftrightarrow> cmp (userdata (the (h a))) (userdata (the (h b))) \<le> 0"

lemma merge_lists_cong:
  "(\<And>a b. a \<in> set as \<Longrightarrow> b \<in> set bs \<Longrightarrow> le a b = le' a b) \<Longrightarrow> merge_lists le as bs = merge_lists le' as bs"
  by (induction le as bs rule: merge_lists.induct) auto

lemma item_le_same:
  assumes "same_data h h'" and "h a \<noteq> None" and "h b \<noteq> None"
  shows "item_le cmp h' a b = item_le cmp h a b"
proof -
  have "map_option userdata (h' a) = map_option userdata (h a)" "map_option userdata (h' b) = map_option userdata (h b)"
    using assms(1) by (simp_all add: same_data_def)
  with assms(2,3) show ?thesis by (auto simp: item_le_def map_option_case split: option.splits)
qed

lemma merge_loop_ok:
  assumes "chain h p as" and "chain h q bs" and "linked h ins merged ds"
    and "distinct (ds @ as @ bs)" and "length as + length bs \<le> n"
  shows "\<exists>m h'. merge_loop n cmp p q ins merged h = Inr (m, h') \<and>
    chain h' m (ds @ merge_lists (item_le cmp h) as bs) \<and> same_data h h'"
  using assms
proof (induction "length as + length bs" arbitrary: as bs p q ins merged ds n h)
  case 0
  then have "as = []" "bs = []" by auto
  with 0 link_ok [OF 0(4), of None "[]"] show ?case by auto
next
  case (Suc k)
  show ?case
  proof (cases "as = [] \<or> bs = []")
    case True
    define t ts where "t = (if p \<noteq> None then p else q)" and "ts = (if as \<noteq> [] then as else bs)"
    have "chain h t ts" "set ds \<inter> set ts = {}"
      using True Suc.prems(1,2,4) by (cases as; cases bs; auto simp: t_def ts_def)+
    from link_ok [OF Suc.prems(3) this] obtain m h' where
      "link ins t merged h = Inr (m, h')" "chain h' m (ds @ ts)" "same_data h h'" by auto
    moreover have "merge_loop n cmp p q ins merged h = link ins t merged h"
      using True Suc.prems(1,2) by (cases p; cases q; auto simp: t_def)
    moreover have "merge_lists (item_le cmp h) as bs = ts" using True by (cases as; cases bs; auto simp: ts_def)
    ultimately show ?thesis by simp
  next
    case False
    then obtain l as' r bs' where c: "as = l # as'" "bs = r # bs'" by (cases as; cases bs; auto)
    obtain x y where x: "p = Some l" "h l = Some x" "chain h (nxt x) as'"
        and y: "q = Some r" "h r = Some y" "chain h (nxt y) bs'"
      using Suc.prems(1,2) c by auto
    obtain n' where n: "n = Suc n'" using Suc.prems(5) c by (cases n) auto
    let ?le = "item_le cmp h"
    have alloc: "a \<in> set as \<union> set bs \<Longrightarrow> h a \<noteq> None" for a
      using chain_alloc [OF Suc.prems(1)] chain_alloc [OF Suc.prems(2)] by auto
    have same: "merge_lists (item_le cmp h1) as1 bs1 = merge_lists ?le as1 bs1"
      if "same_data h h1" "set as1 \<subseteq> set as" "set bs1 \<subseteq> set bs" for h1 as1 bs1
      using that alloc by (intro merge_lists_cong item_le_same) auto
    have le: "?le l r \<longleftrightarrow> cmp (userdata x) (userdata y) \<le> 0" by (simp add: item_le_def x y)
    have step: ?thesis
      if t: "t \<in> {l, r}" and one: "chain h (Some t) (t # ts)" and z: "h t = Some z"
        and rest: "chain h p1 as1" "chain h q1 bs1" "set as1 \<union> set bs1 \<subseteq> set as \<union> set bs - {t}"
          "set as1 \<subseteq> set as" "set bs1 \<subseteq> set bs"
        and len: "length as1 + length bs1 = k" and dist: "distinct (as1 @ bs1)"
        and run: "\<And>m h1. link ins (Some t) merged h = Inr (m, h1) \<Longrightarrow> h1 t = Some z \<Longrightarrow>
            merge_loop n cmp p q ins merged h = merge_loop n' cmp p1 q1 (Some t) m h1"
        and res: "merge_lists ?le as bs = t # merge_lists ?le as1 bs1" and ts: "set ts \<subseteq> set as \<union> set bs"
      for t ts z p1 q1 as1 bs1
    proof -
      have d: "t \<notin> set ds" "set ds \<inter> set (t # ts) = {}" "set ds \<inter> (set as1 \<union> set bs1) = {}"
        using Suc.prems(4) t c ts rest(3) by auto
      obtain m h1 where h1: "link ins (Some t) merged h = Inr (m, h1)" "chain h1 m (ds @ t # ts)"
          "same_data h h1" "\<forall>a. a \<notin> set ds \<longrightarrow> h1 a = h a"
        using link_ok [OF Suc.prems(3) one d(2)] by auto
      have fr: "chain h1 p1 as1" "chain h1 q1 bs1"
        using rest(1,2) h1(4) d(3) by (auto intro: chain_cong)
      have "distinct ((ds @ [t]) @ as1 @ bs1)"
        using Suc.prems(4) dist d rest(3) by auto
      from Suc.hyps(1) [OF len [symmetric] fr linked_next [OF h1(2) d(1)] this, of n'] len Suc.hyps(2) Suc.prems(5) n
      obtain m' h' where "merge_loop n' cmp p1 q1 (Some t) m h1 = Inr (m', h')"
          "chain h' m' ((ds @ [t]) @ merge_lists (item_le cmp h1) as1 bs1)" "same_data h1 h'"
        by fastforce
      moreover have "h1 t = Some z" using h1(4) d(1) z by simp
      ultimately show ?thesis
        using run [OF h1(1)] res same [OF h1(3) rest(4,5)] same_data_trans [OF h1(3)] by auto
    qed
    show ?thesis
    proof (cases "?le l r")
      case True
      show ?thesis
        by (rule step [of l as' x "nxt x" as' q bs])
          (use True le x y c n Suc.prems Suc.hyps(2) in \<open>auto simp: \<close>)
    next
      case False
      show ?thesis
        by (rule step [of r bs' y p as "nxt y" bs'])
          (use False le x y c n Suc.prems Suc.hyps(2) in \<open>auto simp: \<close>)
    qed
  qed
qed

text \<open>
  The sorting function: a list of one item is split into itself and the empty list and sorted again.
  So sorting does not end on any list with an item in it.
\<close>

lemma skip_half_in:
  assumes "chain h (Some s) (s # bs)" and "chain h p cs" and "length cs \<le> length bs"
  shows "skip_half n p s h = Inl OutOfFuel \<or> (\<exists>t \<in> set (s # bs). skip_half n p s h = Inr t)"
  using assms
proof (induction n arbitrary: s bs p cs)
  case 0
  then show ?case by (cases p) auto
next
  case (Suc n)
  show ?case
  proof (cases cs)
    case Nil
    then show ?thesis using Suc.prems(2) by simp
  next
    case (Cons r cs1)
    then obtain x where x: "p = Some r" "h r = Some x" "chain h (nxt x) cs1" using Suc.prems(2) by auto
    show ?thesis
    proof (cases cs1)
      case Nil
      then show ?thesis using x by simp
    next
      case (Cons r1 cs2)
      then obtain y where y: "nxt x = Some r1" "h r1 = Some y" "chain h (nxt y) cs2" using x(3) by auto
      show ?thesis
      proof (cases cs2)
        case Nil
        then show ?thesis using x y by simp
      next
        case (Cons r2 cs3)
        have len: "length cs = length cs3 + 3" using \<open>cs = r # cs1\<close> \<open>cs1 = r1 # cs2\<close> Cons by simp
        then obtain s1 bs1 where bs: "bs = s1 # bs1" using Suc.prems(3) by (cases bs) auto
        obtain z where z: "h s = Some z" "nxt z = Some s1" "chain h (Some s1) (s1 # bs1)"
          using Suc.prems(1) bs by auto
        have run: "skip_half (Suc n) p s h = skip_half n (nxt y) s1 h" using x y z Cons by simp
        have "length cs2 \<le> length bs1" using len Suc.prems(3) bs Cons by simp
        from Suc.IH [OF z(3) y(3) this] show ?thesis unfolding run bs by auto
      qed
    qed
  qed
qed

lemma slist_sort_never:
  assumes "chain h (Some a) (a # as)"
  shows "slist_sort n cmp (Some a) h = Inl OutOfFuel"
  using assms
proof (induction n arbitrary: h as)
  case (Suc n)
  obtain x where x: "h a = Some x" "chain h (nxt x) as" using Suc.prems by auto
  from skip_half_in [OF Suc.prems x(2) order_refl, of n] show ?case
  proof
    assume "\<exists>t \<in> set (a # as). skip_half n (nxt x) a h = Inr t"
    then obtain t where t: "t \<in> set (a # as)" "skip_half n (nxt x) a h = Inr t" by blast
    obtain us vs where split: "a # as = us @ t # vs" using split_list [OF t(1)] by blast
    obtain y where y: "segment h (Some a) us (Some t)" "h t = Some y"
      using Suc.prems unfolding split chain_append by auto
    let ?h = "h(t \<mapsto> y\<lparr>nxt := None\<rparr>)"
    have "t \<notin> set us" using chain_distinct [OF Suc.prems] unfolding split by auto
    then have "chain ?h (Some a) (us @ [t])" using y by (auto simp: chain_append segment_update)
    moreover have "\<exists>ws. us @ [t] = a # ws" using split by (cases us) auto
    ultimately obtain ws where "chain ?h (Some a) (a # ws)" by metis
    note ih = Suc.IH [OF this]
    show ?thesis by (simp add: x(1) t(2) y(2) set_next_Some [of h t y] ih)
  next
    assume "skip_half n (nxt x) a h = Inl OutOfFuel"
    then show ?thesis using x(1) by simp
  qed
qed simp

section \<open>Deleting\<close>

text \<open>With a callback that frees its item, nothing of the chain is left.\<close>

definition free_item :: "nat \<Rightarrow> 'a sheap \<Rightarrow> 'a sheap res" where
  "free_item r h = bindE (item_at h r) (\<lambda>_. Inr (h(r := None)))"

lemma slist_delete_ok:
  assumes "chain h p as" and "length as \<le> n"
  shows "slist_delete n free_item p h = Inr (None, \<lambda>a. if a \<in> set as then None else h a)"
  using assms
proof (induction as arbitrary: p n h)
  case (Cons a as)
  obtain x where x: "p = Some a" "h a = Some x" "chain h (nxt x) as" using Cons.prems(1) by auto
  obtain m where m: "n = Suc m" "length as \<le> m" using Cons.prems(2) by (cases n) auto
  have "chain (h(a := None)) (nxt x) as"
    using x chain_distinct [OF Cons.prems(1)] by (simp add: chain_update)
  note ih = Cons.IH [OF this m(2)]
  have "free_item a h = Inr (h(a := None))" by (simp add: free_item_def x)
  then have "slist_delete n free_item p h = Inr (None, \<lambda>b. if b \<in> set as then None else (h(a := None)) b)"
    by (simp only: x(1) m(1) slist_delete.simps item_at_Some [of h a x, OF x(2)] bindE.simps ih)
  also have "(\<lambda>b. if b \<in> set as then None else (h(a := None)) b) = (\<lambda>b. if b \<in> set (a # as) then None else h b)"
    by auto
  finally show ?case .
qed simp

text \<open>A box holds its contents until it is opened, and is gone then.\<close>

lemma slist_box_unbox:
  assumes "h r = None"
  shows "slist_unbox (Some r) (snd (slist_box (Some r) d h)) = Inr (Some d, h)"
    and "slist_unbox (Some r) h = Inl BadPointer"
  using assms by (auto simp: slist_unbox_def slist_box_def item_at_def fun_eq_iff)

end
