(* ===== verification/Ltdl_Modules_Spec.thy ===== *)
theory Ltdl_Modules_Spec
  imports Ltdl_Frame Slist_Spec
begin

text \<open>
  The list of open modules of libltdl keeps its form: \<open>mods al H as\<close> says that the list leads through
  the handles \<open>as\<close> and ends, that each of them has a module, the table of its loader and enough
  users, and that \<open>H\<close> are new handles not on the list yet. Opening a module puts at most one handle
  in front, closing one takes at most that handle out, everything else leaves the list as it is.
\<close>

section \<open>The list of modules\<close>

definition links :: "(nat \<Rightarrow> lt_handle option) \<Rightarrow> lt_handle sheap" where
  "links m = (\<lambda>a. map_option (\<lambda>x. \<lparr>nxt = hnext x, userdata = x\<rparr>) (m a))"

lemma links_upd [simp]:
  "links (m(a \<mapsto> x)) = (links m)(a \<mapsto> \<lparr>nxt = hnext x, userdata = x\<rparr>)" "links (m(a := None)) = (links m)(a := None)"
  by (auto simp: links_def)

lemma links_Some: "links m a = Some y \<longleftrightarrow> (\<exists>x. m a = Some x \<and> y = \<lparr>nxt = hnext x, userdata = x\<rparr>)"
  by (auto simp: links_def)

text \<open>Changing a handle, but not its successor, changes no chain.\<close>

lemma chain_same_next:
  assumes "m a = Some x" and "hnext y = hnext x"
  shows "chain (links (m(a \<mapsto> y))) p as = chain (links m) p as"
  using assms by (induction as arbitrary: p) (auto simp: links_Some)

definition loaded :: "'k ltdl \<Rightarrow> lt_handle \<Rightarrow> bool" where
  "loaded s x \<longleftrightarrow> hmodule x \<noteq> None \<and> (\<exists>v. vtable x = Some v \<and> vmem s v \<noteq> None)"

definition entry_ok :: "'k ltdl \<Rightarrow> lt_handle \<Rightarrow> bool" where
  "entry_ok s x \<longleftrightarrow> 0 \<le> ref_count x \<and> (is_resident x \<or> 1 \<le> ref_count x) \<and> depcount x = 0 \<and> loaded s x"

definition mods :: "('k \<Rightarrow> nat set) \<Rightarrow> nat set \<Rightarrow> nat list \<Rightarrow> 'k ltdl \<Rightarrow> bool" where
  "mods al H as s \<longleftrightarrow> chain (links (hmem s)) (handles s) as \<and> H \<inter> set as = {} \<and>
     (\<forall>a \<in> set as. \<exists>x. hmem s a = Some x \<and> entry_ok s x) \<and>
     (\<forall>h \<in> H. \<exists>x. hmem s h = Some x \<and> ref_count x = 0 \<and> depcount x = 0) \<and>
     dom (hmem s) \<subseteq> al (plat s)"

text \<open>
  Memory: \<open>al\<close> gives the addresses that have been handed out, and no address is handed out again. (The
  model does not tell the system what is freed.)
\<close>

definition alloc_ok :: "'k lt_os \<Rightarrow> ('k \<Rightarrow> nat set) \<Rightarrow> bool" where
  "alloc_ok S al \<longleftrightarrow> (\<forall>k k'. os_step S k k' \<longrightarrow> al k \<subseteq> al k') \<and>
     (\<forall>k a. fst (os_malloc S k) = Some a \<longrightarrow> a \<notin> al k \<and> a \<in> al (snd (os_malloc S k)))"

lemma alloc_steps: "(os_step S)\<^sup>*\<^sup>* k k' \<Longrightarrow> alloc_ok S al \<Longrightarrow> al k \<subseteq> al k'"
  by (induction rule: rtranclp_induct) (auto simp: alloc_ok_def)

section \<open>What quiet actions keep\<close>

definition steady :: "'k lt_os \<Rightarrow> ('k ltdl \<Rightarrow> bool) \<Rightarrow> bool" where
  "steady S P \<longleftrightarrow> (\<forall>s s'. P s \<longrightarrow> quiet_step S s s' \<longrightarrow> P s')"

named_theorems steadies

lemma triple_quiet: "quiet S m \<Longrightarrow> steady S P \<Longrightarrow> triple P m (\<lambda>_. P)"
  unfolding quiet_def steady_def triple_def by blast

lemma loaded_quiet: "loaded s x \<Longrightarrow> quiet_step S s s' \<Longrightarrow> loaded s' x"
  by (fastforce simp: loaded_def quiet_step_def)

lemma mods_quiet:
  assumes "alloc_ok S al" and m: "mods al H as s" and q: "quiet_step S s s'"
  shows "mods al H as s'"
proof -
  have same: "handles s' = handles s" "hmem s' = hmem s" using q by (simp_all add: quiet_step_def)
  have "al (plat s) \<subseteq> al (plat s')" using q alloc_steps [OF _ assms(1)] by (simp add: quiet_step_def)
  then have "dom (hmem s') \<subseteq> al (plat s')" using m by (auto simp: same mods_def)
  moreover have "\<exists>x. hmem s' a = Some x \<and> entry_ok s' x" if "a \<in> set as" for a
    using m that loaded_quiet [OF _ q] by (fastforce simp: same mods_def entry_ok_def)
  ultimately show ?thesis using m by (simp add: mods_def same)
qed

lemma steady_mods [steadies]: "alloc_ok S al \<Longrightarrow> steady S (mods al H as)"
  using mods_quiet by (auto simp: steady_def)

lemma steady_conj [steadies]: "steady S P \<Longrightarrow> steady S Q \<Longrightarrow> steady S (\<lambda>s. P s \<and> Q s)"
  unfolding steady_def by blast

lemma steady_const [steadies]: "steady S (\<lambda>s. b)"
  by (simp add: steady_def)

lemma steady_hmem [steadies]: "steady S (\<lambda>s. Q (hmem s))"
  by (simp add: steady_def quiet_step_def)

lemma steady_vmem [steadies]: "steady S (\<lambda>s. vmem s v \<noteq> None)"
  by (fastforce simp: steady_def quiet_step_def)

section \<open>New handles\<close>

lemma mods_pending:
  assumes "mods al {h} as s"
  shows "h \<notin> set as" "\<exists>x. hmem s h = Some x \<and> ref_count x = 0 \<and> depcount x = 0"
  using assms by (auto simp: mods_def)

lemma mods_entry: "mods al H as s \<Longrightarrow> a \<in> set as \<Longrightarrow> \<exists>x. hmem s a = Some x \<and> entry_ok s x"
  by (simp add: mods_def)

lemma loaded_hmem [simp]: "loaded (s\<lparr>hmem := m\<rparr>) x = loaded s x" "entry_ok (s\<lparr>hmem := m\<rparr>) x = entry_ok s x"
  by (simp_all add: loaded_def entry_ok_def)

lemma mods_new:
  assumes ok: "alloc_ok S al" and m: "mods al {} as s" and a: "fst (os_malloc S (plat s)) = Some h"
  shows "mods al {h} as (s\<lparr>hmem := (hmem s)(h \<mapsto> zero_handle), plat := snd (os_malloc S (plat s))\<rparr>)"
proof -
  let ?s = "s\<lparr>hmem := (hmem s)(h \<mapsto> zero_handle), plat := snd (os_malloc S (plat s))\<rparr>"
  have al: "h \<notin> al (plat s)" "h \<in> al (plat ?s)" "al (plat s) \<subseteq> al (plat ?s)"
    using ok a by (auto simp: alloc_ok_def os_step_def)
  then have h: "h \<notin> set as" using m by (fastforce simp: mods_def)
  then show ?thesis using m al
    by (auto simp: mods_def chain_update zero_handle_def entry_ok_def loaded_def)
qed

lemma triple_new_handle:
  assumes ok: "alloc_ok S al"
  shows "triple (mods al {} as) (new_handle S) (\<lambda>p s. case p of None \<Rightarrow> mods al {} as s | Some h \<Rightarrow> mods al {h} as s)"
  unfolding triple_def
proof (intro allI impI)
  fix s p s' assume m: "mods al {} as s" and run: "new_handle S s = Inr (p, s')"
  have q: "quiet_step S s s1" if "sys (os_malloc S) s = Inr (x, s1)" for x s1
    using that quiet_calls(1) [of S] by (simp add: quiet_def)
  show "case p of None \<Rightarrow> mods al {} as s' | Some h \<Rightarrow> mods al {h} as s'"
  proof (cases "fst (os_malloc S (plat s))")
    case None
    then have p: "p = None" using run
      by (auto simp: new_handle_def lt__zalloc_def lt__malloc_def act_simps sys_run bindE_Inr lt__alloc_die_def
          lt__alloc_die_callback_def alloc_die_default_def split: if_splits)
    have "quiet S (bindS (lt__zalloc S) (\<lambda>p. retS p))" by (intro quiets)
    moreover have "bindS (lt__zalloc S) (\<lambda>p. retS p) s = Inr (None, s')" using run None
      by (auto simp: new_handle_def lt__zalloc_def lt__malloc_def act_simps sys_run bindE_Inr lt__alloc_die_def
          lt__alloc_die_callback_def alloc_die_default_def split: if_splits)
    ultimately have "quiet_step S s s'" by (simp add: quiet_def)
    then show ?thesis using mods_quiet [OF ok m] p by simp
  next
    case (Some h)
    then have "p = Some h \<and> s' = s\<lparr>hmem := (hmem s)(h \<mapsto> zero_handle), plat := snd (os_malloc S (plat s))\<rparr>"
      using run by (auto simp: new_handle_def lt__zalloc_def lt__malloc_def act_simps sys_run)
    then show ?thesis using mods_new [OF ok m Some] by simp
  qed
qed

lemma new_handle_then:
  assumes "alloc_ok S al" and "triple (mods al {} as) (g None) Q" and "\<And>h. triple (mods al {h} as) (g (Some h)) Q"
  shows "triple (mods al {} as) (bindS (new_handle S) g) Q"
  apply (rule triple_bind [OF triple_new_handle [OF assms(1)]])
  subgoal for p using assms(2,3) by (cases p) simp_all
  done

lemma mods_update_pending:
  assumes m: "mods al {h} as s" and x: "hmem s h = Some x" "ref_count (f x) = ref_count x" "depcount (f x) = depcount x \<or> depcount (f x) = 0"
  shows "mods al {h} as (s\<lparr>hmem := (hmem s)(h \<mapsto> f x)\<rparr>)"
  using m x mods_pending [OF m] by (auto simp: mods_def chain_update)

lemma mods_free_pending:
  assumes m: "mods al {h} as s"
  shows "mods al {} as (s\<lparr>hmem := (hmem s)(h := None)\<rparr>)"
  using m mods_pending [OF m] by (auto simp: mods_def chain_update)

text \<open>A handle on the list that changes, but stays a good entry with the same successor.\<close>

lemma mods_update_entry:
  assumes m: "mods al H as s" and x: "hmem s a = Some x" "a \<in> set as" and y: "hnext y = hnext x" "entry_ok s y"
  shows "mods al H as (s\<lparr>hmem := (hmem s)(a \<mapsto> y)\<rparr>)"
  using assms by (auto simp: mods_def chain_same_next [of _ a x y] simp del: links_upd)

lemma triple_update:
  assumes "\<And>s x. P s \<Longrightarrow> hmem s h = Some x \<Longrightarrow> Q (s\<lparr>hmem := (hmem s)(h \<mapsto> f x)\<rparr>)"
  shows "triple P (update_handle h f) (\<lambda>_. Q)"
  using assms by (auto simp: triple_def act_simps split: option.splits)

lemma triple_pending:
  assumes "\<And>x. ref_count (f x) = ref_count x" and "\<And>x. depcount (f x) = depcount x \<or> depcount (f x) = 0"
  shows "triple (mods al {h} as) (update_handle h f) (\<lambda>_. mods al {h} as)"
  using assms by (intro triple_update mods_update_pending) auto

lemma triple_free:
  assumes "\<And>s. P s \<Longrightarrow> Q (s\<lparr>hmem := (hmem s)(h := None)\<rparr>)"
  shows "triple P (free_handle h) (\<lambda>_. Q)"
  using assms by (auto simp: triple_def act_simps split: option.splits)

section \<open>Asking the loaders\<close>

text \<open>
  The handle an attempt to open gives: the new one, loaded, or one of the list, with one more user.
\<close>

definition won :: "nat \<Rightarrow> nat list \<Rightarrow> nat option \<Rightarrow> 'k ltdl \<Rightarrow> bool" where
  "won h as p s \<longleftrightarrow> (\<exists>r x. p = Some r \<and> hmem s r = Some x \<and>
     (r = h \<and> loaded s x \<or> r \<in> set as \<and> 1 \<le> ref_count x))"

definition tried :: "('k \<Rightarrow> nat set) \<Rightarrow> nat \<Rightarrow> nat list \<Rightarrow> int \<times> nat option \<Rightarrow> 'k ltdl \<Rightarrow> bool" where
  "tried al h as ep s \<longleftrightarrow> mods al {h} as s \<and> (if fst ep = 0 then won h as (snd ep) s else snd ep = Some h)"

lemma steady_won [steadies]: "steady S (won h as p)"
  unfolding steady_def won_def using loaded_quiet by (fastforce simp: quiet_step_def)

lemma opened_in:
  "opened n p fname s = Inr (r, s') \<Longrightarrow> chain (links (hmem s)) p as \<Longrightarrow> s' = s \<and> (\<forall>a. r = Some a \<longrightarrow> a \<in> set as)"
proof (induction n arbitrary: p as)
  case 0
  then show ?case by (cases p; cases as; auto simp: opened.simps act_simps links_Some split: if_splits option.splits)
next
  case (Suc n)
  show ?case
  proof (cases p)
    case None
    then show ?thesis using Suc.prems by (auto simp: opened.simps act_simps)
  next
    case (Some b)
    then obtain x bs where x: "as = b # bs" "hmem s b = Some x" "chain (links (hmem s)) (hnext x) bs"
      using Suc.prems(2) by (auto simp: chain_Some links_Some)
    show ?thesis
    proof (cases "filename x = fname")
      case True
      then show ?thesis using Suc.prems(1) Some x by (auto simp: opened.simps act_simps)
    next
      case False
      then have "opened n (hnext x) fname s = Inr (r, s')"
        using Suc.prems(1) Some x(2) by (simp add: opened.simps act_simps)
      from Suc.IH [OF this x(3)] show ?thesis using x(1) by auto
    qed
  qed
qed

definition module_of :: "nat \<Rightarrow> 'k ltdl \<Rightarrow> bool" where
  "module_of h s \<longleftrightarrow> (\<exists>x. hmem s h = Some x \<and> hmodule x \<noteq> None)"

lemma steady_module_of [steadies]: "steady S (module_of h)"
  unfolding module_of_def by (rule steady_hmem)

text \<open>A quiet step in front, which also tells the value of what it read.\<close>

lemma triple_skip:
  assumes "quiet S m" and "steady S P" and "\<And>x. triple P (f x) Q"
  shows "triple P (bindS m f) Q"
  using triple_quiet [OF assms(1,2)] assms(3) by (rule triple_bind)

lemma triple_skip_and:
  assumes "quiet S m" and "steady S P" and "triple P m' Q"
  shows "triple P (andS m m') Q"
  unfolding andS_def using assms by (rule triple_skip)

lemma triple_vtable_at:
  "triple (mods al H as) (vtable_at v) (\<lambda>_ s. mods al H as s \<and> vmem s v \<noteq> None)"
  by (auto simp: triple_def act_simps split: option.splits)

lemma mods_advice:
  "triple (\<lambda>s. mods al {h} as s \<and> vmem s v \<noteq> None \<and> module_of h s) (take_advice h advise)
     (\<lambda>_ s. mods al {h} as s \<and> vmem s v \<noteq> None \<and> module_of h s)"
  unfolding take_advice_def
  by (intro triples triple_ret triple_update) (auto simp: module_of_def intro: mods_update_pending)

lemma triple_handles: "triple (mods al H as) (asks handles) (\<lambda>hs s. mods al H as s \<and> hs = handles s)"
  by (rule triple_asks) simp

lemma triple_opened:
  "triple (\<lambda>s. mods al H as s \<and> hs = handles s) (opened n hs fname)
     (\<lambda>found s. mods al H as s \<and> (\<forall>a. found = Some a \<longrightarrow> a \<in> set as))"
  using opened_in by (fastforce simp: triple_def mods_def)

lemma steady_tried [steadies]: "alloc_ok S al \<Longrightarrow> steady S (tried al h as ep)"
  unfolding tried_def by (cases "fst ep = 0") (auto intro!: steadies)

context module_code
begin

lemma try_loaders_ok:
  assumes ok: "alloc_ok S al"
  shows "triple (mods al {h} as) (try_loaders n S V h fname advise vt loader)
    (\<lambda>lv s. mods al {h} as s \<and> (\<forall>v. lv = Some v \<longrightarrow> vmem s v \<noteq> None \<and> module_of h s))"
proof (induction n arbitrary: loader rule: less_induct)
  case (less n)
  have rest: "triple (mods al {h} as)
      (case n of 0 \<Rightarrow> fault OutOfFuel | Suc n' \<Rightarrow> try_loaders n' S V h fname advise vt l)
      (\<lambda>lv s. mods al {h} as s \<and> (\<forall>v. lv = Some v \<longrightarrow> vmem s v \<noteq> None \<and> module_of h s))" for l
    using less by (cases n) (simp_all add: triple_fault)
  note skip = triple_skip [where S = S]
  show ?case
    apply (subst try_loaders.simps)
    apply (rule skip, intro quiets, intro steadies ok)
    apply (rule skip, intro quiets, intro steadies ok)
    apply (rule triple_bind [OF triple_vtable_at])
    apply (rule skip, intro quiets, intro steadies ok)
    apply (rule skip, rule code_quiet, intro steadies ok)
    subgoal for lv v x f modul
      apply (rule triple_and [where R = "\<lambda>s. mods al {h} as s \<and> vmem s v \<noteq> None \<and> (modul \<noteq> None \<longrightarrow> module_of h s)"])
       apply (rule triple_update, auto simp: module_of_def intro: mods_update_pending)[1]
      apply (rule triples)
       apply (rule triple_and [where R = "\<lambda>s. mods al {h} as s \<and> vmem s v \<noteq> None \<and> module_of h s"])
        apply (rule triple_conseq [OF mods_advice [of al h as v]]; simp)
       apply (rule triple_ret, simp)
      apply (rule triples)
       apply (rule triple_ret, simp)
      apply (rule triple_weaken [where P = "mods al {h} as", rotated], simp)
      apply (rule skip, intro quiets, intro steadies ok)
      apply (rule triples)
       apply (rule triple_ret, simp)
      apply (rule rest)
      done
    done
qed

lemma tryall_ok:
  assumes ok: "alloc_ok S al"
  shows "triple (mods al {h} as) (tryall_dlopen S V (Some h) fname advise vt) (tried al h as)"
  unfolding tryall_dlopen_def deref.simps bindS_ret
  apply (rule triple_skip [where S = S], intro quiets, intro steadies ok)
  apply (rule triple_bind [OF triple_handles])
  apply (rule triple_bind [OF triple_opened])
  subgoal for saved hs found
    apply (rule triples)
     apply (rule triple_weaken [where P = "mods al {h} as", rotated], simp)
     apply (rule triple_skip [where S = S], intro quiets, intro steadies ok)
    subgoal for name
      apply (rule triple_and [where R = "mods al {h} as"])
       apply (rule triple_pending; simp)
      apply (rule triples)
       apply (rule triple_ret, simp add: tried_def)
      apply (rule triple_skip [where S = S], intro quiets, intro steadies ok)
      apply (rule triple_bind [OF try_loaders_ok [OF ok]])
      apply (rule triples)
       apply (rule triple_and [where R = "mods al {h} as"])
        apply (rule triple_update, auto intro: mods_update_pending)[1]
       apply (rule triple_ret, simp add: tried_def)
      subgoal for loader lv
        apply (rule triple_and [where R = "tried al h as (0, Some h)"])
         apply (rule triple_update)
        subgoal for s x
          using mods_update_pending [of al h as s x "vtable_update (\<lambda>_. lv)"]
          by (auto simp: tried_def won_def module_of_def loaded_def)
        apply (rule triple_skip_and [where S = S], intro quiets, intro steadies ok)
        apply (rule triple_ret, simp)
        done
      done
    apply (rule triple_and [where R = "tried al h as (0, found)"])
     apply (rule triple_update)
    subgoal for r s x
      using mods_entry [of al "{h}" as s r]
      by (auto simp: tried_def won_def entry_ok_def loaded_def intro!: mods_update_entry)
    apply (rule triple_ret, simp)
    done
  done

text \<open>A failed attempt returns the handle as it was, so that the next one can take it.\<close>

lemma dlopen_in_ok:
  assumes ok: "alloc_ok S al"
  shows "triple (mods al {h} as) (dlopen_in S V (Some h) dir dlname advise) (tried al h as)"
  unfolding dlopen_in_def
  apply (rule triple_skip [where S = S], intro quiets, intro steadies ok)
  apply (rule triples)
   apply (rule triple_ret, simp add: tried_def)
  apply (rule triple_bind [OF tryall_ok [OF ok]])
  apply (rule triples)
  apply (rule triple_ret, auto simp: tried_def split: if_splits)
  done

lemma tryall_module_ok:
  assumes ok: "alloc_ok S al"
  shows "triple (mods al {h} as) (tryall_dlopen_module S V (Some h) prefix dir dlname advise) (tried al h as)"
  unfolding tryall_dlopen_module_def
  apply (rule triples, rule dlopen_in_ok [OF ok])
  apply (rule triple_skip [where S = S], intro quiets, intro steadies ok)
  apply (rule triples)
   apply (rule triple_ret, simp add: tried_def)
  apply (rule dlopen_in_ok [OF ok])
  done

lemma attempts_ok:
  assumes "\<And>m. m \<in> set ms \<Longrightarrow> triple (mods al {h} as) (m (Some h)) (tried al h as)"
  shows "triple (mods al {h} as) (attempts ms (Some h)) (tried al h as)"
  using assms
proof (induction ms)
  case Nil
  show ?case by (simp, rule triple_ret, simp add: tried_def)
next
  case (Cons m ms)
  have rest: "triple (mods al {h} as) (attempts ms (Some h)) (tried al h as)" using Cons by simp
  have "triple (tried al h as (e, p)) (if e = 0 then retS (0, p) else attempts ms p) (tried al h as)" for e p
  proof (cases "e = 0")
    case True
    then show ?thesis by (simp, intro triple_ret) simp
  next
    case False
    show ?thesis
    proof (cases "p = Some h")
      case True
      then show ?thesis using False triple_weaken [OF rest, of "tried al h as (e, p)"] by (simp add: tried_def)
    next
      case neq: False
      then show ?thesis using False by (auto simp: triple_def tried_def)
    qed
  qed
  note next_attempt = this
  have "triple (mods al {h} as) (m (Some h)) (tried al h as)" using Cons.prems [of m] by simp
  then show ?case unfolding attempts.simps
    by (rule triple_bind) (rule triple_cases(3), simp only: prod.case, rule next_attempt)
qed

lemma find_module_ok:
  assumes ok: "alloc_ok S al"
  shows "triple (mods al {h} as) (find_module S V (Some h) dir la advise) (tried al h as)"
  unfolding find_module_def
  by (rule attempts_ok) (auto intro: tryall_ok tryall_module_ok ok split: option.splits if_splits)

end

text \<open>Walking through a path with a callback that acts on the modules.\<close>

lemma triple_dir_loop:
  assumes step: "\<And>f d. triple (P d) (func f d) (\<lambda>(r, d') s. if r \<noteq> 0 then Q d' s else P d' s)"
    and st: "\<And>d. steady S (P d)"
  shows "triple (P d) (dir_loop n S argz prev base fsize func d) (\<lambda>(r, d') s. if r \<noteq> 0 then Q d' s else P d' s)"
proof (induction n arbitrary: prev fsize d rule: less_induct)
  case (less n)
  show ?case
    apply (subst dir_loop.simps)
    apply (rule triple_skip [where S = S], intro quiets, rule st)
    apply (rule triples, rule triple_ret, simp)
    apply (rule triples, rule triple_fault)
    apply (simp only: Let_def)
    apply (rule triple_skip [where S = S], intro quiets, rule st)
    apply (rule triples, rule triple_ret, simp)
    apply (rule triple_skip_and [where S = S], intro quiets, rule st)
    apply (rule triple_skip [where S = S], intro quiets, rule st)
    apply (rule triple_bind [OF step])
    apply (rule triples)+
     apply (rule triple_ret, simp)
    subgoal for x y k xa fsize' fname rd r d' using less [of k d' "Some y" fsize'] by simp
    done
qed

lemma triple_foreach:
  assumes step: "\<And>f d. triple (P d) (func f d) (\<lambda>(r, d') s. if r \<noteq> 0 then Q d' s else P d' s)"
    and st: "\<And>d. steady S (P d)"
  shows "triple (P d) (foreach_dirinpath S path base func d) (\<lambda>(r, d') s. if r \<noteq> 0 then Q d' s else P d' s)"
proof -
  have none: "triple (P d) (andS (set_error LT_ERROR_FILE_NOT_FOUND) (retS (0, d)))
      (\<lambda>(r, d') s. if r \<noteq> 0 then Q d' s else P d' s)"
    by (rule triple_skip_and [where S = S], intro quiets, rule st) (rule triple_ret, simp)
  show ?thesis
    unfolding foreach_dirinpath_def
    apply (rule triples, rule none)
    apply (rule triples, rule none)
    apply (rule triple_skip [where S = S], intro quiets, rule st)
    apply (rule triples, rule triple_ret, simp)
    apply (rule triple_skip [where S = S], intro quiets, rule st)
    apply (rule triples, rule triple_ret, simp)
    apply (rule triple_dir_loop [OF step st])
    done
qed

text \<open>The handle of a search: nothing found yet, or found and opened, or found and lost.\<close>

definition searched :: "('k \<Rightarrow> nat set) \<Rightarrow> nat \<Rightarrow> nat list \<Rightarrow> bool \<times> nat option \<Rightarrow> 'k ltdl \<Rightarrow> bool" where
  "searched al h as fp s \<longleftrightarrow> mods al {h} as s \<and>
     (if fst fp then snd fp = None \<or> won h as (snd fp) s else snd fp = Some h)"

lemma steady_searched [steadies]: "alloc_ok S al \<Longrightarrow> steady S (searched al h as fp)"
proof -
  assume ok: "alloc_ok S al"
  have "steady S (\<lambda>s. snd fp = None \<or> won h as (snd fp) s)"
    using steady_won [of S h as "snd fp"] by (auto simp: steady_def)
  then show ?thesis unfolding searched_def by (cases "fst fp") (auto intro!: steadies ok)
qed

context module_code
begin

lemma find_handle_ok:
  assumes ok: "alloc_ok S al"
  shows "triple (mods al {h} as) (find_handle S V path base (Some h) advise) (searched al h as)"
proof -
  have cb: "triple (\<lambda>s. mods al {h} as s \<and> d = Some h) (find_handle_callback S V advise f d)
      (\<lambda>(r, d') s. if r \<noteq> 0 then mods al {h} as s \<and> (d' = None \<or> won h as d' s) else mods al {h} as s \<and> d' = Some h)" for f d
  proof (cases "d = Some h")
    case True
    show ?thesis unfolding find_handle_callback_def True
      apply (rule triple_skip [where S = S], intro quiets, intro steadies ok)
      apply (rule triples, rule triple_ret, simp)
      apply (rule triple_bind, rule triple_weaken [OF tryall_ok [OF ok]], simp)
      apply (rule triples, rule triple_ret, auto simp: tried_def split: if_splits)
      done
  qed (simp add: triple_def)
  show ?thesis unfolding find_handle_def
    apply (rule triples, rule triple_ret, simp add: searched_def)
    apply (rule triple_bind)
     apply (rule triple_weaken [where P = "\<lambda>s. mods al {h} as s \<and> Some h = Some h", rotated], simp)
     apply (rule triple_foreach [where P = "\<lambda>d s. mods al {h} as s \<and> d = Some h" and d = "Some h", OF cb])
     apply (intro steadies ok)
    apply (rule triples, rule triple_ret, auto simp: searched_def)
    done
qed

end

section \<open>Hooking the handle in\<close>

definition registered :: "('k \<Rightarrow> nat set) \<Rightarrow> nat list \<Rightarrow> int \<times> nat option \<Rightarrow> 'k ltdl \<Rightarrow> bool" where
  "registered al as ep s \<longleftrightarrow> (\<exists>as'. mods al {} as' s \<and> (as' = as \<or> (\<exists>h. as' = h # as)) \<and>
     (fst ep = 0 \<longrightarrow> snd ep = None \<or> (\<exists>r \<in> set as'. snd ep = Some r)))"

lemma registered_none: "mods al {} as s \<Longrightarrow> fst ep \<noteq> 0 \<or> snd ep = None \<Longrightarrow> registered al as ep s"
  by (auto simp: registered_def)

lemma mods_leak: "mods al {h} as s \<Longrightarrow> mods al {} as s"
  by (simp add: mods_def)

lemma mods_register:
  assumes m: "mods al {h} as s" and x: "hmem s h = Some x" "loaded s x"
    and y: "y = x\<lparr>ref_count := 1, mname := name, hnext := handles s\<rparr>"
  shows "mods al {} (h # as) (s\<lparr>hmem := (hmem s)(h \<mapsto> y), handles := Some h\<rparr>)"
proof -
  have "entry_ok t y" if "vmem t = vmem s" for t :: "'a ltdl"
    using x mods_pending [OF m] that by (auto simp: y entry_ok_def loaded_def)
  then show ?thesis using m mods_pending [OF m] x(1)
    by (auto simp: mods_def chain_update entry_ok_def loaded_def y)
qed

lemma mods_last_error [simp]: "mods al H as (s\<lparr>last_error := e\<rparr>) = mods al H as s"
  by (simp add: mods_def entry_ok_def loaded_def)

lemma register_ok:
  "triple (\<lambda>s. mods al {h} as s \<and> won h as p s) (register_handle (Some h) p name err) (registered al as)"
  unfolding triple_def
proof (intro allI impI, elim conjE)
  fix s ep s' assume m: "mods al {h} as s" and w: "won h as p s"
    and run: "register_handle (Some h) p name err s = Inr (ep, s')"
  obtain r x where r: "p = Some r" "hmem s r = Some x" "r = h \<and> loaded s x \<or> r \<in> set as \<and> 1 \<le> ref_count x"
    using w by (auto simp: won_def)
  note pend = mods_pending [OF m]
  show "registered al as ep s'"
  proof (cases "r = h")
    case True
    let ?y = "x\<lparr>ref_count := 1, mname := name, hnext := handles s\<rparr>"
    have l: "loaded s x" "ref_count x = 0" using r True pend by auto
    then have "ep = (0, Some h)" "s' = (s\<lparr>hmem := (hmem s)(h \<mapsto> ?y), handles := Some h\<rparr>)\<lparr>last_error := err\<rparr>"
      using run r(1,2) True by (auto simp: register_handle_def act_simps)
    then show ?thesis using mods_register [OF m _ l(1) refl, of name] r(2) True
      unfolding registered_def by auto
  next
    case False
    then have "r \<in> set as" "ref_count x \<noteq> 0" using r by auto
    moreover obtain y where "hmem s h = Some y" using pend by auto
    ultimately have "ep = (0, Some r)" "s' = (s\<lparr>hmem := (hmem s)(h := None)\<rparr>)\<lparr>last_error := err\<rparr>"
      using run r(1,2) False by (auto simp: register_handle_def act_simps)
    then show ?thesis using mods_free_pending [OF m] \<open>r \<in> set as\<close> unfolding registered_def by auto
  qed
qed

lemma unload_none:
  "triple (mods al {h} as) (unload_deplibs n S V h) (\<lambda>_. mods al {h} as)"
  unfolding triple_def unload_deplibs_def
  by (auto simp: act_simps split: option.splits if_splits dest!: mods_pending(2))

lemma load_deplibs_ok: "triple (mods al {h} as) (load_deplibs h) (\<lambda>_. mods al {h} as)"
  unfolding load_deplibs_def
  by (rule triple_and [where R = "mods al {h} as"], rule triple_update, erule mods_update_pending)
    (auto intro: triple_ret)

lemma free_ok: "triple (mods al {h} as) (free_handle h) (\<lambda>_. mods al {} as)"
  by (rule triple_free) (rule mods_free_pending)

lemma unload_and_register:
  "triple (tried al h as (0, p)) (andS (if Some h \<noteq> p then andS (unload_deplibs n S V h) (retS ()) else retS ())
     (register_handle (Some h) p name err)) (registered al as)"
proof (rule triple_and)
  show "triple (tried al h as (0, p)) (if Some h \<noteq> p then andS (unload_deplibs n S V h) (retS ()) else retS ())
      (\<lambda>_ s. mods al {h} as s \<and> won h as p s)"
    by (auto simp: triple_def tried_def act_simps unload_deplibs_def split: option.splits if_splits
        dest!: mods_pending(2))
qed (rule register_ok)

text \<open>Giving the new handle back and failing.\<close>

lemma free_and_fail:
  assumes "\<And>s. P s \<Longrightarrow> mods al {h} as s"
  shows "triple P (andS (free_handle h) (retS (1, q))) (registered al as)"
  by (rule triple_and, rule triple_weaken [OF free_ok], erule assms) (rule triple_ret, simp add: registered_none)

context module_code
begin

lemma try_self_ok:
  assumes ok: "alloc_ok S al"
  shows "triple (mods al {} as) (try_self S V advise err) (registered al as)"
  unfolding try_self_def
  apply (rule new_handle_then [OF ok]; simp only: option.case)
   apply (rule triple_ret, simp add: registered_none)
  subgoal for h
    apply (rule triple_and [where R = "mods al {h} as"])
     apply (rule triple_pending; simp)
    apply (rule triple_bind [OF tryall_ok [OF ok]])
    apply (rule triples)+
     apply (rule free_and_fail, simp add: tried_def)
    apply (rule triple_weaken [OF register_ok], simp add: tried_def)
    done
  done

lemma try_archive_ok:
  assumes ok: "alloc_ok S al"
  shows "triple (mods al {} as) (try_archive S V dir base attempt name advise err) (registered al as)"
  unfolding try_archive_def
  apply (rule triple_skip [where S = S], intro quiets, intro steadies ok)
  apply (rule triples)+
   apply (rule triple_skip_and [where S = S], intro quiets, intro steadies ok)
   apply (rule triple_ret, simp add: registered_none)
  apply (rule triple_skip [where S = S], intro quiets, intro steadies ok)
  apply (rule triples)
  apply (rule new_handle_then [OF ok]; simp only: option.case)
   apply (rule triple_ret, simp add: registered_none)
  apply (rule triples)
   apply (rule free_and_fail, simp)
  apply (rule triple_bind [OF load_deplibs_ok])
  apply (rule triples)
   apply (rule free_and_fail, simp)
  apply (rule triple_bind [OF find_module_ok [OF ok]])
  apply (rule triples)+
   apply (rule triple_and, rule triple_weaken [OF unload_none], simp add: tried_def)
   apply (rule free_and_fail, simp)
  apply (rule triple_weaken [OF unload_and_register], simp add: tried_def)
  done

lemma try_preopen_ok:
  assumes ok: "alloc_ok S al"
  shows "triple (mods al {} as) (try_preopen S V name advise err)
    (\<lambda>r s. case r of None \<Rightarrow> mods al {} as s | Some ep \<Rightarrow> registered al as ep s)"
  unfolding try_preopen_def
  apply (rule triple_skip [where S = S], intro quiets, intro steadies ok)
  apply (rule triples, rule triple_ret, simp)
  apply (rule triple_skip [where S = S], intro quiets, intro steadies ok)
  apply (rule new_handle_then [OF ok]; simp only: prod.case option.case)
   apply (rule triple_ret, simp add: registered_none)
  apply (rule triples, rule triple_ret, simp add: registered_none mods_leak)
  apply (rule triple_bind [OF tryall_ok [OF ok]])
  apply (rule triples)+
   apply (rule triple_bind, rule triple_weaken [OF register_ok], simp add: tried_def)
   apply (rule triple_ret, simp)
  apply (rule triple_and, rule triple_weaken [OF free_ok], simp add: tried_def)
  apply (rule triple_ret, simp)
  done

lemma look_ok:
  assumes ok: "alloc_ok S al"
  shows "triple (searched al h as r) (case r of (found, p) \<Rightarrow>
      if found then retS (found, p) else find_handle S V path base p advise) (searched al h as)"
proof (cases r)
  case (Pair found p)
  show ?thesis
  proof (cases found)
    case True
    then show ?thesis using Pair by (simp, intro triple_ret) simp
  next
    case False
    show ?thesis
    proof (cases "p = Some h")
      case True
      then show ?thesis
        using False Pair triple_weaken [OF find_handle_ok [OF ok], of "searched al h as r"] by (simp add: searched_def)
    next
      case neq: False
      then show ?thesis using False Pair by (simp add: triple_def searched_def)
    qed
  qed
qed

lemma try_plain_ok:
  assumes ok: "alloc_ok S al"
  shows "triple (mods al {} as) (try_plain S V dir base attempt name advise err) (registered al as)"
proof -
  have fin: "triple (\<lambda>s. mods al {h} as s \<and> (p \<noteq> None \<longrightarrow> won h as p s))
      (if p = None then andS (free_handle h) (retS (1, None)) else register_handle (Some h) p (Some name) err)
      (registered al as)" for h p
    by (rule triples, rule free_and_fail, simp) (rule triple_weaken [OF register_ok], simp)
  show ?thesis
    unfolding try_plain_def Let_def
    apply (rule new_handle_then [OF ok]; simp only: option.case)
     apply (rule triple_ret, simp add: registered_none)
    subgoal for h
      apply (rule triple_bind [where R = "searched al h as"])
       apply (rule triples, rule triple_ret, simp add: searched_def)
       apply (rule triple_weaken [where P = "searched al h as (False, Some h)", rotated], simp add: searched_def)
       apply (rule triple_skip [where S = S], intro quiets, intro steadies ok)
       apply (rule triple_bind [OF look_ok [OF ok]])
       apply (rule triple_skip [where S = S], intro quiets, intro steadies ok)
       apply (rule triple_bind [OF look_ok [OF ok]])
       apply (rule triple_skip [where S = S], intro quiets, intro steadies ok)
       apply (rule triple_bind [OF look_ok [OF ok]])
       apply (rule look_ok [OF ok])
      apply (rule triples)
      apply (rule triple_bind [OF _ fin])
      apply (rule triples)
       apply (rule triple_ret, auto simp: searched_def)[1]
      subgoal for x found p
        apply (cases "p = Some h")
         apply (simp only:)
         apply (rule triple_bind, rule triple_weaken [OF tryall_ok [OF ok]], simp add: searched_def)
         apply (rule triples, rule triple_ret, auto simp: tried_def split: if_splits)[1]
        apply (auto simp: triple_def searched_def)
        done
      done
    done
qed

lemma try_dlopen_ok:
  assumes ok: "alloc_ok S al"
  shows "triple (mods al {} as) (try_dlopen S V fname ext advise) (registered al as)"
proof -
  have fail: "triple (mods al {} as) (retS (1, None)) (registered al as)"
    by (rule triple_ret) (simp add: registered_none)
  show ?thesis
    unfolding try_dlopen_def Let_def
    apply (rule triple_skip [where S = S], intro quiets, intro steadies ok)
    apply (rule triples, rule try_self_ok [OF ok])
    apply (rule triple_skip_and [where S = S], intro quiets, intro steadies ok)
    apply (rule triple_skip [where S = S], intro quiets, intro steadies ok)
    apply (rule triples, rule fail)
    apply (rule triple_skip [where S = S], intro quiets, intro steadies ok)
    apply (rule triples, rule fail)
    apply (rule triples)
    apply (rule triple_skip [where S = S], intro quiets, intro steadies ok)
    apply (rule triples, rule fail)
    apply (rule triple_skip_and [where S = S], intro quiets, intro steadies ok)
    apply (rule triple_skip [where S = S], intro quiets, intro steadies ok)
    apply (rule triples, rule fail)
    apply (rule triple_bind [where R = "\<lambda>r s. case r of None \<Rightarrow> mods al {} as s | Some ep \<Rightarrow> registered al as ep s"])
     apply (rule triples, rule try_preopen_ok [OF ok])
     apply (rule triple_ret, simp)
    apply (rule triples, simp only: option.case)
     apply (rule triples, rule triple_ret, simp add: registered_none)
     apply (rule triples, rule try_archive_ok [OF ok], rule try_plain_ok [OF ok])
    apply (rule triple_ret, simp)
    done
qed

end

text \<open>A module list with a new module in front or none.\<close>

definition grown :: "('k \<Rightarrow> nat set) \<Rightarrow> nat list \<Rightarrow> 'k ltdl \<Rightarrow> bool" where
  "grown al as s \<longleftrightarrow> (\<exists>bs. mods al {} (bs @ as) s)"

lemma grown_refl: "mods al {} as s \<Longrightarrow> grown al as s"
  unfolding grown_def by (metis append_Nil)

lemma grown_registered: "registered al as ep s \<Longrightarrow> grown al as s"
  unfolding registered_def grown_def by (metis append_Cons append_Nil)

lemma steady_grown [steadies]: "alloc_ok S al \<Longrightarrow> steady S (grown al as)"
  using mods_quiet unfolding steady_def grown_def by blast

lemma triple_grown:
  assumes "\<And>as. triple (mods al {} as) m (\<lambda>_. grown al as)"
  shows "triple (grown al as) m (\<lambda>_. grown al as)"
  using assms unfolding triple_def grown_def by (metis append.assoc)

context module_code
begin

lemma try_dlopen_grown:
  assumes ok: "alloc_ok S al"
  shows "triple (grown al as) (try_dlopen S V fname ext advise) (\<lambda>_. grown al as)"
  by (rule triple_grown, rule triple_conseq [OF try_dlopen_ok [OF ok]]) (auto intro: grown_registered)

lemma dlopen_ok:
  assumes ok: "alloc_ok S al"
  shows "triple (grown al as) (lt_dlopenadvise S V fname advise) (\<lambda>_. grown al as)"
proof -
  have give_up: "triple (grown al as) (andS (set_error e) (retS None)) (\<lambda>_. grown al as)" for e
    by (rule triple_skip_and [where S = S], intro quiets, intro steadies ok) (rule triple_ret)
  note open_it = triple_bind [OF try_dlopen_grown [OF ok]]
  have ext: "triple (grown al as) (open_with_ext S V f advise) (\<lambda>_. grown al as)" for f
    unfolding open_with_ext_def Let_def file_not_found_def
    apply (rule open_it, rule triples)
    apply (rule triple_skip [where S = S], intro quiets, intro steadies ok)
    apply (rule triples, rule triple_ret)
     apply assumption
    apply (rule open_it, rule triples)
    apply (rule triple_skip [where S = S], intro quiets, intro steadies ok)
    apply (rule triples, rule triple_ret, assumption)
    apply (rule give_up)
    done
  show ?thesis
    unfolding lt_dlopenadvise_def
    apply (rule triples, rule give_up)
    apply (rule triples, rule open_it, rule triples, rule triple_ret, assumption)
    apply (rule triples, rule open_it, rule triples, rule triple_ret, assumption)
    apply (rule triples, rule ext, rule give_up)
    done
qed

end

end
