(* ===== verification/Ltdl_Close_Spec.thy ===== *)
theory Ltdl_Close_Spec
  imports Ltdl_Modules_Spec
begin

text \<open>
  Closing a module of libltdl. The last user of a module takes its handle out of the list, whatever its
  place, has the loader close the module and frees the handle; other users only lower the count, and
  a resident module stays.
\<close>

section \<open>Finding the handle in front\<close>

fun front :: "nat option \<Rightarrow> nat option \<Rightarrow> nat list \<Rightarrow> nat option" where
  "front prv h [] = None"
| "front prv h (a # as) = (if h = Some a then prv else front (Some a) h as)"

lemma find_link_ok:
  "chain (links (hmem s)) p as \<Longrightarrow>
     find_link n prv p h s = Inr (front prv h as, s) \<or>
     n < length as \<and> find_link n prv p h s = Inl OutOfFuel"
proof (induction as arbitrary: n prv p)
  case Nil
  then show ?case by (simp add: find_link.simps act_simps)
next
  case (Cons a as)
  then obtain x where x: "p = Some a" "hmem s a = Some x" "chain (links (hmem s)) (hnext x) as"
    by (auto simp: links_Some)
  show ?case
  proof (cases "h = Some a")
    case True
    then show ?thesis using x by (simp add: find_link.simps act_simps)
  next
    case False
    show ?thesis
    proof (cases n)
      case 0
      then show ?thesis using x False by (simp add: find_link.simps act_simps)
    next
      case (Suc m)
      then show ?thesis using x False Cons.IH [OF x(3), of m "Some a"] by (simp add: find_link.simps act_simps)
    qed
  qed
qed

lemma front_None: "h \<notin> Some ` set as \<Longrightarrow> front prv h as = None"
  by (induction as arbitrary: prv) auto

lemma front_split: "r \<notin> set xs \<Longrightarrow> front prv (Some r) (xs @ r # ys) = (if xs = [] then prv else Some (last xs))"
  by (induction xs arbitrary: prv) auto

section \<open>Taking a handle out\<close>

text \<open>The state in which the loader is asked to close the module of \<open>r\<close>.\<close>

definition unlinked :: "nat list \<Rightarrow> nat \<Rightarrow> 'k ltdl \<Rightarrow> 'k ltdl" where
  "unlinked xs r s =
     (let x = the (hmem s r); m = (hmem s)(r \<mapsto> x\<lparr>ref_count := ref_count x - 1\<rparr>) in
      if xs = [] then s\<lparr>hmem := m, handles := hnext x\<rparr>
      else s\<lparr>hmem := m(last xs \<mapsto> (the (m (last xs)))\<lparr>hnext := hnext x\<rparr>)\<rparr>)"

lemma mods_distinct: "mods al H as s \<Longrightarrow> distinct as"
  by (auto simp: mods_def dest: chain_distinct)

lemma mods_unlink:
  assumes m: "mods al {} (xs @ r # ys) s" and x: "hmem s r = Some x" "ref_count x = 1"
  shows "mods al {r} (xs @ ys) (unlinked xs r s)"
proof -
  have d: "distinct (xs @ r # ys)" by (rule mods_distinct [OF m])
  let ?m = "(hmem s)(r \<mapsto> x\<lparr>ref_count := ref_count x - 1\<rparr>)"
  have c: "chain (links (hmem s)) (handles s) (xs @ r # ys)" using m by (simp add: mods_def)
  then have tail: "chain (links (hmem s)) (hnext x) ys" using x(1) by (auto simp: chain_append links_Some)
  then have tail': "chain (links ?m) (hnext x) ys" using d by (simp add: chain_update)
  have ent: "\<exists>y. hmem s a = Some y \<and> entry_ok s y" if "a \<in> set (xs @ ys)" for a
    using m that by (auto simp: mods_def)
  have dep: "depcount x = 0" using m x by (auto simp: mods_def entry_ok_def)
  have dom: "dom (hmem s) \<subseteq> al (plat s)" using m by (simp add: mods_def)
  show ?thesis
  proof (cases "xs = []")
    case True
    show ?thesis using True d tail' ent x dep dom
      by (auto simp: mods_def unlinked_def Let_def loaded_def entry_ok_def simp del: links_upd)
  next
    case False
    obtain us l where l: "xs = us @ [l]" using False by (cases xs rule: rev_cases) auto
    obtain y where y: "hmem s l = Some y" "entry_ok s y" using ent [of l] l by auto
    let ?m1 = "?m(l \<mapsto> y\<lparr>hnext := hnext x\<rparr>)"
    have "r \<noteq> l" "l \<notin> set us" "r \<notin> set us" "l \<notin> set ys" "r \<notin> set ys" using d l by auto
    then have "chain (links ?m1) (handles s) (xs @ ys)"
      using c tail by (auto simp: l chain_append segment_append segment_update chain_update)
    moreover have "unlinked xs r s = s\<lparr>hmem := ?m1\<rparr>"
      using False x(1) y(1) l \<open>r \<noteq> l\<close> by (simp add: unlinked_def)
    moreover have "\<exists>z. ?m1 a = Some z \<and> entry_ok s z" if a: "a \<in> set (xs @ ys)" for a
    proof (cases "a = l")
      case True
      then show ?thesis using y by (simp add: entry_ok_def loaded_def)
    next
      case False
      then show ?thesis using ent [OF a] a d by auto
    qed
    moreover have "dom ?m1 \<subseteq> al (plat s)" using dom x(1) y(1) by auto
    ultimately show ?thesis using d x(2) dep \<open>r \<noteq> l\<close> by (simp add: mods_def)
  qed
qed

section \<open>What \<^verbatim>\<open>lt_dlclose\<close> does\<close>

text \<open>The search ends when the list is not longer than the rounds it is given.\<close>

definition link_found :: "'k lt_os \<Rightarrow> nat option \<Rightarrow> nat list \<Rightarrow> 'k ltdl \<Rightarrow> bool" where
  "link_found S h as s \<longleftrightarrow> find_link (rounds S) (handles s) (handles s) h s = Inr (front (handles s) h as, s)"

lemma link_found_rounds: "mods al H as s \<Longrightarrow> length as \<le> rounds S \<Longrightarrow> link_found S h as s"
  using find_link_ok [of s "handles s" as "rounds S" "handles s" h] by (auto simp: link_found_def mods_def)

lemma link_found_returns:
  assumes "mods al H as s" and "lt_dlclose n S V h s = Inr (e, s')"
  shows "link_found S h as s"
  using assms find_link_ok [of s "handles s" as "rounds S" "handles s" h]
  by (auto simp: link_found_def mods_def lt_dlclose.simps act_simps)

lemma close_unknown:
  assumes "link_found S h as s" and "h \<notin> Some ` set as"
  shows "lt_dlclose n S V h s = Inr (1, s\<lparr>last_error := Some (Table LT_ERROR_INVALID_HANDLE)\<rparr>)"
  using assms by (simp add: link_found_def lt_dlclose.simps act_simps front_None)

lemma front_head: "mods al H (xs @ r # ys) s \<Longrightarrow> front (handles s) (Some r) (xs @ r # ys) =
    Some (if xs = [] then r else last xs) \<and> (handles s = Some r \<longleftrightarrow> xs = [])"
  using mods_distinct [of al H "xs @ r # ys" s] by (cases xs) (auto simp: front_split mods_def)

lemma close_shared:
  assumes m: "mods al H as s" and f: "link_found S (Some r) as s" and r: "r \<in> set as" "hmem s r = Some x"
    and x: "1 < ref_count x \<or> is_resident x"
  shows "lt_dlclose n S V (Some r) s =
    (let s1 = s\<lparr>hmem := (hmem s)(r \<mapsto> x\<lparr>ref_count := ref_count x - 1\<rparr>)\<rparr> in
     if is_resident x then Inr (1, s1\<lparr>last_error := Some (Table LT_ERROR_CLOSE_RESIDENT_MODULE)\<rparr>) else Inr (0, s1))"
proof -
  obtain xs ys where as: "as = xs @ r # ys" using split_list [OF r(1)] by blast
  show ?thesis using f front_head [OF m [unfolded as]] r(2) x
    by (auto simp: as link_found_def lt_dlclose.simps act_simps Let_def)
qed

context module_code
begin

lemma close_last:
  assumes m: "mods al {} (xs @ r # ys) s" and f: "link_found S (Some r) (xs @ r # ys) s" and r: "hmem s r = Some x"
    and x: "ref_count x = 1" "\<not> is_resident x"
    and v: "vtable x = Some v" "vmem s v = Some vt" "module_close vt = Some fc"
  shows "lt_dlclose n S V (Some r) s =
    bindE (call_close V fc (dlloader_data vt) (hmodule x) (unlinked xs r s)) (\<lambda>(e, s1).
      Inr (e, s1\<lparr>hmem := (hmem s1)(r := None)\<rparr>))"
proof -
  have d: "distinct (xs @ r # ys)" by (rule mods_distinct [OF m])
  have dep: "depcount x = 0" using m r by (auto simp: mods_def entry_ok_def)
  define u where "u = unlinked xs r s"
  have keep: "hmem s1 = hmem u" if "call_close V fc (dlloader_data vt) (hmodule x) u = Inr (e, s1)" for e s1
    using that close_quiet by (fastforce simp: quiet_def quiet_step_def)
  have rest: "bindE (call_close V fc (dlloader_data vt) (hmodule x) u) (\<lambda>(e1, s1).
        bindE (handle_at r s1) (\<lambda>(x1, s1). bindE (unload_loop n S V (take (depcount x1) (deplibs x1)) s1) (\<lambda>(e2, s1).
        bindE (free_handle r s1) (\<lambda>(_, s1). Inr (e1 + e2, s1))))) =
      bindE (call_close V fc (dlloader_data vt) (hmodule x) u) (\<lambda>(e, s1). Inr (e, s1\<lparr>hmem := (hmem s1)(r := None)\<rparr>))"
    if "hmem u r = Some (x\<lparr>ref_count := 0\<rparr>)"
    using that keep dep
    by (cases "call_close V fc (dlloader_data vt) (hmodule x) u") (auto simp: act_simps unload_loop.simps)
  show ?thesis
  proof (cases "xs = []")
    case True
    have u: "u = s\<lparr>hmem := (hmem s)(r \<mapsto> x\<lparr>ref_count := 0\<rparr>), handles := hnext x\<rparr>"
      using True r x by (simp add: u_def unlinked_def)
    show ?thesis unfolding u_def [symmetric] using f front_head [OF m] True r x v rest
      by (simp add: link_found_def lt_dlclose.simps act_simps u split_def)
  next
    case False
    then obtain y where y: "hmem s (last xs) = Some y" using mods_entry [OF m, of "last xs"] by auto
    have "last xs \<noteq> r" using d False by auto
    then have u: "u = s\<lparr>hmem := ((hmem s)(r \<mapsto> x\<lparr>ref_count := 0\<rparr>))(last xs \<mapsto> y\<lparr>hnext := hnext x\<rparr>)\<rparr>"
      using False r x y by (simp add: u_def unlinked_def)
    show ?thesis unfolding u_def [symmetric] using f front_head [OF m] False r x v y \<open>last xs \<noteq> r\<close> rest
      by (simp add: link_found_def lt_dlclose.simps act_simps u split_def)
  qed
qed

end

text \<open>A resident module may be closed as often as it was opened.\<close>

definition closable :: "nat option \<Rightarrow> 'k ltdl \<Rightarrow> bool" where
  "closable h s \<longleftrightarrow> (\<forall>r x. h = Some r \<and> hmem s r = Some x \<and> is_resident x \<longrightarrow> 1 \<le> ref_count x)"

definition closed :: "('k \<Rightarrow> nat set) \<Rightarrow> nat list \<Rightarrow> nat option \<Rightarrow> 'k ltdl \<Rightarrow> bool" where
  "closed al as h s \<longleftrightarrow> mods al {} as s \<or> (\<exists>r. h = Some r \<and> mods al {} (remove1 r as) s)"

context module_code
begin

lemma close_ok:
  assumes ok: "alloc_ok S al"
  shows "triple (\<lambda>s. mods al {} as s \<and> closable h s) (lt_dlclose n S V h) (\<lambda>_. closed al as h)"
  unfolding triple_def
proof (intro allI impI, elim conjE)
  fix s e s' assume m: "mods al {} as s" and c: "closable h s" and run: "lt_dlclose n S V h s = Inr (e, s')"
  note f = link_found_returns [OF m run]
  show "closed al as h s'"
  proof (cases "h \<in> Some ` set as")
    case False
    then show ?thesis using close_unknown [OF f False, of n V] run m by (auto simp: closed_def)
  next
    case True
    then obtain r where r: "h = Some r" "r \<in> set as" by blast
    obtain x where x: "hmem s r = Some x" "entry_ok s x" using mods_entry [OF m r(2)] by blast
    show ?thesis
    proof (cases "1 < ref_count x \<or> is_resident x")
      case True
      let ?s = "s\<lparr>hmem := (hmem s)(r \<mapsto> x\<lparr>ref_count := ref_count x - 1\<rparr>)\<rparr>"
      have "mods al {} as ?s"
        by (rule mods_update_entry [OF m x(1) r(2)])
          (use True x(2) c r(1) x(1) in \<open>auto simp: entry_ok_def loaded_def closable_def\<close>)
      moreover have "s' = ?s \<or> s' = ?s\<lparr>last_error := Some (Table LT_ERROR_CLOSE_RESIDENT_MODULE)\<rparr>"
        using close_shared [OF m f [unfolded r(1)] r(2) x(1) True, of n V] run r(1)
        by (auto simp: Let_def split: if_splits)
      ultimately show ?thesis unfolding closed_def by (metis mods_last_error)
    next
      case False
      then have one: "ref_count x = 1" "\<not> is_resident x" using x(2) by (auto simp: entry_ok_def)
      obtain xs ys where as: "as = xs @ r # ys" "r \<notin> set xs" using split_list_first [OF r(2)] by blast
      obtain v where v: "vtable x = Some v" "vmem s v \<noteq> None" using x(2) by (auto simp: entry_ok_def loaded_def)
      then obtain vt where vt: "vmem s v = Some vt" by blast
      note m' = m [unfolded as(1)]
      have "\<exists>fc. module_close vt = Some fc"
        using run f [unfolded r(1) as(1)] front_head [OF m'] r(1) x(1) one v(1) vt
        by (auto simp: as(1) link_found_def lt_dlclose.simps act_simps bindE_Inr split: if_splits option.splits)
          (cases "module_close vt"; simp add: act_simps)+
      then obtain fc where fc: "module_close vt = Some fc" by blast
      obtain s1 where s1: "call_close V fc (dlloader_data vt) (hmodule x) (unlinked xs r s) = Inr (e, s1)"
          "s' = s1\<lparr>hmem := (hmem s1)(r := None)\<rparr>"
        using close_last [OF m' f [unfolded r(1) as(1)] x(1) one v(1) vt fc, of n] run r(1)
        by (auto simp: bindE_Inr)
      have "mods al {r} (xs @ ys) s1"
        using mods_quiet [OF ok mods_unlink [OF m' x(1) one(1)]] s1(1) close_quiet by (simp add: quiet_def)
      from mods_free_pending [OF this] have "mods al {} (remove1 r as) s'" using as by (simp add: s1(2) remove1_append)
      then show ?thesis using r(1) by (auto simp: closed_def)
    qed
  qed
qed

end

end
