(* ===== verification/Argz_Spec.thy ===== *)
theory Argz_Spec
  imports Argz
begin

text \<open>
  argz vectors against lists of strings: \<open>argz_of\<close> lays a list of strings out as a vector, \<open>fields\<close>
  cuts a string at a separator. The bounded copying functions against the strings their buffers hold.
\<close>

section \<open>Cutting and joining\<close>

fun fields :: "char \<Rightarrow> string \<Rightarrow> string list" where
  "fields d [] = [[]]"
| "fields d (c # s) =
     (if c = d then [] # fields d s else (c # hd (fields d s)) # tl (fields d s))"

fun join :: "char \<Rightarrow> string list \<Rightarrow> string" where
  "join d [] = []"
| "join d [w] = w"
| "join d (w # v # ws) = w @ d # join d (v # ws)"

lemma fields_ne [simp]: "fields d s \<noteq> []"
  by (cases s) auto

lemma join_Cons_ne: "ws \<noteq> [] \<Longrightarrow> join d (w # ws) = w @ d # join d ws"
  by (cases ws) auto

lemma join_prefix: "join d ((c # w) # ws) = c # join d (w # ws)"
  by (cases ws) auto

lemma join_fields: "join d (fields d s) = s"
proof (induction s)
  case (Cons c s)
  then show ?case by (cases "fields d s") (auto simp: join_Cons_ne join_prefix)
qed simp

lemma fields_chars: "w \<in> set (fields d s) \<Longrightarrow> set w \<subseteq> set s"
proof (induction s arbitrary: w)
  case (Cons c s)
  then show ?case by (cases "fields d s") (fastforce split: if_splits)+
qed simp

definition argz_of :: "string list \<Rightarrow> string" where
  "argz_of ws = concat (map (\<lambda>w. w @ [EOS]) ws)"

lemma argz_of_simps [simp]:
  "argz_of [] = []" "argz_of (w # ws) = w @ EOS # argz_of ws" "argz_of (ws @ vs) = argz_of ws @ argz_of vs"
  by (simp_all add: argz_of_def)

section \<open>Making a vector from a string\<close>

text \<open>Empty fields are dropped, but an empty one at the end stays as an empty last entry.\<close>

definition kept :: "string list \<Rightarrow> string list" where
  "kept fs = filter (\<lambda>f. f \<noteq> []) fs @ (if last fs = [] then [[]] else [])"

lemma kept_Cons: "fs \<noteq> [] \<Longrightarrow> kept (f # fs) = (if f = [] then kept fs else f # kept fs)"
  by (simp add: kept_def)

lemma argz_of_last: "ws \<noteq> [] \<Longrightarrow> argz_of ws \<noteq> [] \<and> last (argz_of ws) = EOS"
  by (induction ws rule: rev_induct) auto

lemma sep_loop_fields:
  assumes "EOS \<notin> set str" and "EOS \<notin> set cur"
  shows "sep_loop d str (argz_of ws @ cur) @ [EOS] =
    argz_of (ws @ kept ((cur @ hd (fields d str)) # tl (fields d str)))"
  using assms
proof (induction str arbitrary: ws cur)
  case Nil
  then show ?case by (simp add: kept_def)
next
  case (Cons p str)
  show ?case
  proof (cases "p = d")
    case False
    then show ?thesis using Cons.IH [of "cur @ [p]" ws] Cons.prems by simp
  next
    case True
    have eq: "hd (fields d str) # tl (fields d str) = fields d str" by simp
    show ?thesis
    proof (cases "cur = []")
      case True
      have "\<not> (argz_of ws \<noteq> [] \<and> last (argz_of ws) \<noteq> EOS)" using argz_of_last [of ws] by (cases ws) auto
      then show ?thesis
        using Cons.IH [of "[]" ws] Cons.prems True \<open>p = d\<close> by (auto simp: kept_Cons)
    next
      case False
      then have "last cur \<noteq> EOS" using Cons.prems(2) by (metis last_in_set)
      then show ?thesis
        using Cons.IH [of "[]" "ws @ [cur]"] Cons.prems False \<open>p = d\<close> by (simp add: kept_Cons)
    qed
  qed
qed

lemma argz_create_sep_ok:
  assumes "EOS \<notin> set str"
  shows "argz_create_sep True str d argz = (0, argz_of (kept (fields d str)))"
  using sep_loop_fields [OF assms, of "[]" d "[]"] by (simp add: argz_create_sep_def)

section \<open>Walking through a vector\<close>

lemma find_eos_append: "EOS \<notin> set w \<Longrightarrow> find_eos (w @ EOS # s) n = Some (n + length w)"
  by (induction w arbitrary: n) auto

lemma argz_next_ok:
  assumes "EOS \<notin> set w"
  shows "argz_next (argz_of us @ w @ EOS # argz_of vs) (Some (length (argz_of us))) =
    Inr (if vs = [] then None else Some (length (argz_of (us @ [w]))))"
proof -
  have "vs \<noteq> [] \<Longrightarrow> argz_of vs \<noteq> []" using argz_of_last by blast
  then show ?thesis using find_eos_append [OF assms] by (auto simp: argz_next_def)
qed

section \<open>Back to a string\<close>

lemma stringify_loop_eq:
  "n < length s \<Longrightarrow> stringify_loop n sep s =
     take 1 s @ map (\<lambda>c. if c = EOS then sep else c) (take n (drop 1 s)) @ drop (n + 1) s"
proof (induction n arbitrary: s)
  case 0
  then show ?case by (cases s) auto
next
  case (Suc n)
  let ?f = "\<lambda>c. if c = EOS then sep else c"
  let ?s = "if s ! Suc n = EOS then s[Suc n := sep] else s"
  have l: "length ?s = length s" by simp
  have nth: "?s = take (Suc n) s @ ?f (s ! Suc n) # drop (Suc (Suc n)) s"
    using Suc.prems by (auto simp: upd_conv_take_nth_drop id_take_nth_drop [of "Suc n" s, symmetric])
  have "stringify_loop (Suc n) sep s = take 1 ?s @ map ?f (take n (drop 1 ?s)) @ drop (n + 1) ?s"
    using Suc.IH [of ?s] Suc.prems by simp
  also have "\<dots> = take 1 s @ map ?f (take n (drop 1 s)) @ ?f (s ! Suc n) # drop (Suc (Suc n)) s"
    unfolding nth using Suc.prems by (cases s) auto
  also have "\<dots> = take 1 s @ map ?f (take (Suc n) (drop 1 s)) @ drop (Suc n + 1) s"
    using Suc.prems by (simp add: take_Suc_conv_app_nth)
  finally show ?case .
qed

lemma stringify_argz:
  assumes "argz_of ws = c # s @ [EOS]" and "c \<noteq> EOS" and "sep \<noteq> EOS"
    and "\<And>w. w \<in> set ws \<Longrightarrow> EOS \<notin> set w"
  shows "argz_stringify (argz_of ws) sep = Inr (join sep ws @ [EOS])"
proof -
  let ?f = "\<lambda>c. if c = EOS then sep else c"
  have id: "EOS \<notin> set w \<Longrightarrow> map ?f w = w" for w by (induction w) auto
  have "ws \<noteq> [] \<Longrightarrow> map ?f (butlast (argz_of ws)) = join sep ws"
    using assms(4)
  proof (induction ws)
    case (Cons w ws)
    show ?case
    proof (cases ws)
      case Nil
      then show ?thesis using Cons.prems(2) id by (simp add: butlast_append)
    next
      case (Cons v vs)
      then have "argz_of ws \<noteq> []" using argz_of_last [of ws] by simp
      then show ?thesis
        using Cons.IH Cons.prems id by (simp add: butlast_append Cons)
    qed
  qed simp
  moreover have "ws \<noteq> []" using assms(1) by auto
  ultimately have "map ?f (c # s) = join sep ws" by (simp add: assms(1))
  then show ?thesis
    using assms(2,3) by (auto simp: argz_stringify_def assms(1) stringify_loop_eq)
qed

section \<open>Bounded copying\<close>

lemma copy_loop_eq:
  assumes "dstsize \<le> length dst" and "n \<le> length dst"
  shows "copy_loop src dstsize dst n =
    (let k = min (length src) (dstsize - 1 - n) in
     Inr (take n dst @ take k src @ drop (n + k) dst, n + k, drop k src))"
  using assms
proof (induction src arbitrary: dst n)
  case (Cons q src)
  show ?case
  proof (cases "n < dstsize - 1")
    case False
    then show ?thesis by (simp add: Let_def)
  next
    case True
    then have n: "n < length dst" using Cons.prems(1) by simp
    define k where "k = min (length src) (dstsize - 1 - Suc n)"
    have k: "min (length (q # src)) (dstsize - 1 - n) = Suc k" using True by (simp add: k_def)
    have "copy_loop (q # src) dstsize dst n = copy_loop src dstsize (dst[n := q]) (Suc n)"
      using True n by (simp add: poke_def)
    also have "\<dots> = Inr (take (Suc n) (dst[n := q]) @ take k src @ drop (Suc n + k) (dst[n := q]), Suc n + k, drop k src)"
      using Cons.IH [of "dst[n := q]" "Suc n"] Cons.prems n by (simp add: Let_def k_def)
    also have "take (Suc n) (dst[n := q]) = take n dst @ [q]"
      using n by (simp add: upd_conv_take_nth_drop)
    finally show ?thesis unfolding k by (simp add: Let_def)
  qed
qed (simp add: Let_def)

text \<open>The buffer afterwards: the copied part of the source behind what was kept, a terminator, the old rest.\<close>

lemma lt_strlcpy_ok:
  assumes "0 < dstsize" and "dstsize \<le> length dst"
  shows "lt_strlcpy dst src dstsize =
    (let s = take (dstsize - 1) (c_str src) in
     Inr (length (c_str src), s @ EOS # drop (length s + 1) dst))"
proof -
  define k where "k = min (length (c_str src)) (dstsize - 1)"
  have k: "k < length dst" "take (dstsize - 1) (c_str src) = take k (c_str src)" "k \<le> length (c_str src)"
    using assms by (auto simp: k_def min_def)
  have "copy_loop (c_str src) dstsize dst 0 = Inr (take k (c_str src) @ drop k dst, k, drop k (c_str src))"
    using copy_loop_eq [OF assms(2), of 0 "c_str src"] by (simp add: Let_def k_def)
  moreover have "(take k (c_str src) @ drop k dst)[k := EOS] = take k (c_str src) @ EOS # drop (k + 1) dst"
    using k(1,3) by (simp add: list_update_append upd_conv_take_nth_drop)
  ultimately show ?thesis using assms(1) k by (simp add: lt_strlcpy_def poke_def Let_def)
qed

lemma lt_strlcat_ok:
  assumes "0 < dstsize" and "dstsize \<le> length dst" and "EOS \<in> set dst"
  shows "lt_strlcat dst src dstsize =
    (let s = c_str dst @ take (dstsize - 1 - length (c_str dst)) (c_str src) in
     Inr (length (c_str dst) + length (c_str src), s @ EOS # drop (length s + 1) dst))"
proof -
  define m where "m = length (c_str dst)"
  obtain t where t: "dst = c_str dst @ EOS # t" using c_str_split [OF assms(3)] by blast
  have m: "m < length dst" "take m dst = c_str dst"
    by (subst t, simp add: m_def) (subst t, simp add: m_def)
  define k where "k = min (length (c_str src)) (dstsize - 1 - m)"
  have k: "m + k < length dst" "take (dstsize - 1 - m) (c_str src) = take k (c_str src)" "k \<le> length (c_str src)"
    using assms m(1) by (auto simp: k_def min_def)
  have "copy_loop (c_str src) dstsize dst m =
      Inr (c_str dst @ take k (c_str src) @ drop (m + k) dst, m + k, drop k (c_str src))"
    using copy_loop_eq [OF assms(2), of m "c_str src"] m by (simp add: Let_def k_def)
  moreover have "(c_str dst @ take k (c_str src) @ drop (m + k) dst)[m + k := EOS] =
      c_str dst @ take k (c_str src) @ EOS # drop (m + k + 1) dst"
    using k(1,3) by (simp add: list_update_append m_def [symmetric] upd_conv_take_nth_drop)
  moreover have "strlen dst = Inr m" using assms(3) by (simp add: strlen_def m_def)
  ultimately show ?thesis
    using assms(1) k by (simp add: lt_strlcat_def poke_def Let_def m_def [symmetric])
qed

end
