(* ===== verification/Ltdl_Path_Spec.thy ===== *)
theory Ltdl_Path_Spec
  imports Ltdl_Path Argz_Spec
begin

text \<open>
  What the search path functions of libltdl do, when memory does not run out: a path is cut at its
  colons, empty fields go, and in each field runs of slashes become one and those at the end go
  (\<open>dirs\<close>); the walk passes the directories to the callback in their order.
\<close>

section \<open>Memory that does not run out\<close>

definition mem_ok :: "'k lt_os \<Rightarrow> bool" where
  "mem_ok S \<longleftrightarrow> (\<forall>k. fst (os_malloc S k) \<noteq> None)"

definition mem_step :: "'k lt_os \<Rightarrow> 'k ltdl \<Rightarrow> 'k ltdl" where
  "mem_step S s = s\<lparr>plat := snd (os_malloc S (plat s))\<rparr>"

definition mem_addr :: "'k lt_os \<Rightarrow> 'k ltdl \<Rightarrow> nat" where
  "mem_addr S s = the (fst (os_malloc S (plat s)))"

lemma mem_step_fields [simp]:
  "user_search_path (mem_step S s) = user_search_path s" "hmem (mem_step S s) = hmem s"
  "handles (mem_step S s) = handles s" "last_error (mem_step S s) = last_error s"
  "vmem (mem_step S s) = vmem s" "loaders (mem_step S s) = loaders s" "lmem (mem_step S s) = lmem s"
  "interfaces (mem_step S s) = interfaces s"
  by (simp_all add: mem_step_def)

lemma malloc_run:
  assumes "mem_ok S"
  shows "sys (os_malloc S) s = Inr (Some (mem_addr S s), mem_step S s)"
    and "lt__malloc S s = Inr (Some (mem_addr S s), mem_step S s)"
    and "lt__zalloc S s = Inr (Some (mem_addr S s), mem_step S s)"
    and "lt__realloc S s = Inr (True, mem_step S s)"
    and "EOS \<notin> set str \<Longrightarrow> lt__strdup S str s = Inr (Some str, mem_step S s)"
proof -
  obtain p where "fst (os_malloc S (plat s)) = Some p" using assms by (auto simp: mem_ok_def)
  then show sy: "sys (os_malloc S) s = Inr (Some (mem_addr S s), mem_step S s)"
    by (simp add: sys_run mem_addr_def mem_step_def)
  show m: "lt__malloc S s = Inr (Some (mem_addr S s), mem_step S s)"
    using sy by (simp add: lt__malloc_def act_simps)
  show "lt__zalloc S s = Inr (Some (mem_addr S s), mem_step S s)" using m by (simp add: lt__zalloc_def act_simps)
  show "lt__realloc S s = Inr (True, mem_step S s)" using sy by (simp add: lt__realloc_def act_simps)
  show "lt__strdup S str s = Inr (Some str, mem_step S s)" if "EOS \<notin> set str"
    using m that by (simp add: lt__strdup_def lt__memdup_def act_simps c_str_append)
qed

section \<open>Canonical paths\<close>

fun squeeze :: "string \<Rightarrow> string" where
  "squeeze [] = []"
| "squeeze (c # s) = (if c = SLASH \<and> (s = [] \<or> hd s = SLASH) then squeeze s else c # squeeze s)"

fun canon_fields :: "string \<Rightarrow> string list \<Rightarrow> string" where
  "canon_fields out [] = out"
| "canon_fields out (f # fs) =
     canon_fields (if f = [] then out else if out = [] then squeeze f else out @ PATHSEP # squeeze f) fs"

definition dirs :: "string \<Rightarrow> string list" where
  "dirs path = map squeeze (filter (\<lambda>f. f \<noteq> []) (fields PATHSEP path))"

lemma fields_hd:
  "hd (fields d s) = [] \<longleftrightarrow> s = [] \<or> hd s = d"
  "s \<noteq> [] \<Longrightarrow> hd s \<noteq> d \<Longrightarrow> hd (hd (fields d s)) = hd s"
  by (cases s; simp)+

lemma canon_loop_fields:
  assumes "EOS \<notin> set path"
  shows "canon_loop path out = canon_fields (out @ squeeze (hd (fields PATHSEP path))) (tl (fields PATHSEP path))"
  using assms
proof (induction path arbitrary: out)
  case (Cons c path)
  obtain f fs where f: "fields PATHSEP path = f # fs" by (cases "fields PATHSEP path") auto
  define d where "d = (case path of [] \<Rightarrow> EOS | e # _ \<Rightarrow> e)"
  have ih: "canon_loop path out' = canon_fields (out' @ squeeze f) fs" for out'
    using Cons.IH Cons.prems by (simp add: f)
  have h: "f = [] \<longleftrightarrow> path = [] \<or> hd path = PATHSEP"
      "path \<noteq> [] \<Longrightarrow> hd path \<noteq> PATHSEP \<Longrightarrow> hd f = hd path"
    using fields_hd(1) [of PATHSEP path] fields_hd(2) [of path PATHSEP] unfolding f by simp_all
  have "d = (if path = [] then EOS else hd path)" by (cases path) (simp_all add: d_def)
  moreover have "path \<noteq> [] \<Longrightarrow> hd path \<noteq> EOS" using Cons.prems by (cases path) auto
  ultimately have nxt: "f = [] \<longleftrightarrow> d = PATHSEP \<or> d = EOS" "f \<noteq> [] \<Longrightarrow> hd f = d"
    using h by auto
  have run: "canon_loop (c # path) out =
      (if c = PATHSEP \<and> (out = [] \<or> d = PATHSEP \<or> d = EOS) then canon_loop path out
       else if c \<noteq> SLASH then canon_loop path (out @ [c])
       else if d \<noteq> PATHSEP \<and> d \<noteq> EOS \<and> d \<noteq> SLASH then canon_loop path (out @ [SLASH])
       else canon_loop path out)"
    by (simp only: canon_loop.simps Let_def d_def)
  show ?case
  proof (cases "c = PATHSEP")
    case True
    then show ?thesis unfolding run using nxt by (auto simp: ih f)
  next
    case False
    then show ?thesis unfolding run using nxt by (auto simp: ih f)
  qed
qed simp

lemma canon_fields_join:
  assumes "\<forall>f \<in> set fs. f \<noteq> [] \<longrightarrow> squeeze f \<noteq> []" and "out = join PATHSEP ds" and "[] \<notin> set ds"
  shows "canon_fields out fs = join PATHSEP (ds @ map squeeze (filter (\<lambda>f. f \<noteq> []) fs))"
  using assms
proof (induction fs arbitrary: out ds)
  case (Cons f fs)
  have e: "join PATHSEP ds = [] \<longleftrightarrow> ds = []"
    using Cons.prems(3) by (cases "(PATHSEP, ds)" rule: join.cases) auto
  have app: "ds \<noteq> [] \<Longrightarrow> join PATHSEP (ds @ [w]) = join PATHSEP ds @ PATHSEP # w" for w
    by (induction "PATHSEP" ds rule: join.induct) auto
  show ?case
  proof (cases "f = []")
    case True
    then show ?thesis using Cons by simp
  next
    case False
    then have "squeeze f \<noteq> []" using Cons.prems(1) by simp
    then have "canon_fields (if out = [] then squeeze f else out @ PATHSEP # squeeze f) fs =
        join PATHSEP ((ds @ [squeeze f]) @ map squeeze (filter (\<lambda>f. f \<noteq> []) fs))"
      using Cons.prems e app by (intro Cons.IH) auto
    then show ?thesis using False by simp
  qed
qed simp

lemma canon_join:
  assumes "EOS \<notin> set path" and "[] \<notin> set (dirs path)"
  shows "canon_loop path [] = join PATHSEP (dirs path)"
proof -
  obtain f fs where f: "fields PATHSEP path = f # fs" by (cases "fields PATHSEP path") auto
  have ok: "\<forall>g \<in> set (f # fs). g \<noteq> [] \<longrightarrow> squeeze g \<noteq> []"
  proof (intro ballI impI notI)
    fix g assume g: "g \<in> set (f # fs)" "g \<noteq> []" "squeeze g = []"
    then have "[] \<in> squeeze ` set (filter (\<lambda>x. x \<noteq> []) (f # fs))" by (intro rev_image_eqI [of g]) auto
    then show False using assms(2) unfolding dirs_def f set_map by simp
  qed
  have "canon_loop path [] = canon_fields [] (f # fs)" by (simp add: canon_loop_fields [OF assms(1)] f)
  also have "\<dots> = join PATHSEP ([] @ map squeeze (filter (\<lambda>f. f \<noteq> []) (f # fs)))"
    by (rule canon_fields_join [OF ok]) simp_all
  finally show ?thesis by (simp add: dirs_def f)
qed

lemma squeeze_chars: "set (squeeze f) \<subseteq> set f"
  by (induction f) auto

lemma squeeze_last: "squeeze f \<noteq> [] \<Longrightarrow> last (squeeze f) \<noteq> SLASH"
proof (induction f)
  case (Cons c s)
  have "squeeze s = [] \<Longrightarrow> s = [] \<or> hd s = SLASH" by (cases s) (auto split: if_splits)
  then show ?case using Cons by auto
qed simp

lemma fields_no_sep: "w \<in> set (fields d s) \<Longrightarrow> d \<notin> set w"
proof (induction s arbitrary: w)
  case (Cons c s)
  then show ?case by (cases "fields d s") (auto split: if_splits)
qed simp

lemma dirs_chars:
  assumes "w \<in> set (dirs path)"
  shows "PATHSEP \<notin> set w" "EOS \<notin> set path \<Longrightarrow> EOS \<notin> set w" "w \<noteq> [] \<Longrightarrow> last w \<noteq> SLASH"
proof -
  obtain f where f: "f \<in> set (fields PATHSEP path)" "w = squeeze f" using assms by (auto simp: dirs_def)
  show "PATHSEP \<notin> set w" using fields_no_sep [OF f(1)] squeeze_chars f(2) by blast
  show "EOS \<notin> set path \<Longrightarrow> EOS \<notin> set w" using fields_chars [OF f(1)] squeeze_chars f(2) by blast
  show "w \<noteq> [] \<Longrightarrow> last w \<noteq> SLASH" using squeeze_last f(2) by blast
qed

lemma fields_join:
  assumes "ws \<noteq> []" and "\<forall>w \<in> set ws. d \<notin> set w"
  shows "fields d (join d ws) = ws"
  using assms
proof (induction ws rule: join.induct)
  case (2 d w)
  then show ?case by (induction w) auto
next
  case (3 d w v ws)
  have pre: "d \<notin> set w \<Longrightarrow> fields d (w @ d # t) = w # fields d t" for t
    by (induction w) auto
  show ?case using 3 pre by simp
qed simp

lemma argz_of_dirs:
  assumes "ws \<noteq> []" and "[] \<notin> set ws" and "\<forall>w \<in> set ws. d \<notin> set w" and "EOS \<notin> set (join d ws)"
  shows "argz_create_sep True (join d ws) d argz = (0, argz_of ws)"
proof -
  have "kept ws = ws" using assms(1,2) by (simp add: kept_def filter_id_conv) (metis last_in_set)
  then show ?thesis by (simp add: argz_create_sep_ok [OF assms(4)] fields_join [OF assms(1,3)])
qed

lemma join_chars: "EOS \<noteq> d \<Longrightarrow> \<forall>w \<in> set ws. EOS \<notin> set w \<Longrightarrow> EOS \<notin> set (join d ws)"
  by (induction d ws rule: join.induct) auto

section \<open>Walking through the directories\<close>

definition in_dir :: "string \<Rightarrow> string \<Rightarrow> string" where
  "in_dir base dir = (if base = [] then dir else if last dir = SLASH then dir @ base else dir @ SLASH # base)"

text \<open>A callback that only looks at the name: it is called on the names in turn until it is not 0.\<close>

fun walk :: "(string \<Rightarrow> 's \<Rightarrow> int \<times> 's) \<Rightarrow> string list \<Rightarrow> 's \<Rightarrow> int \<times> 's" where
  "walk g [] d = (0, d)"
| "walk g (f # fs) d = (case g f d of (r, d') \<Rightarrow> if r \<noteq> 0 then (r, d') else walk g fs d')"

text \<open>The buffer is always large enough.\<close>

lemma file_in_dir_ok:
  assumes "dir \<noteq> []" and "1 + length dir + length base < n"
  shows "file_in_dir n dir base = Inr (in_dir base dir)"
  using assms by (auto simp: file_in_dir_def in_dir_def)

definition entry_before :: "string list \<Rightarrow> nat option" where
  "entry_before us = (if us = [] then None else Some (length (argz_of (butlast us))))"

lemma argz_next_entry:
  assumes "\<forall>w \<in> set us. EOS \<notin> set w"
  shows "argz_next (argz_of (us @ ws)) (entry_before us) =
    Inr (if ws = [] then None else Some (length (argz_of us)))"
proof (cases us rule: rev_cases)
  case Nil
  then show ?thesis using argz_of_last [of ws] by (auto simp: argz_next_def entry_before_def)
next
  case (snoc vs w)
  then show ?thesis using argz_next_ok [of w vs ws] assms by (auto simp: entry_before_def)
qed

lemma entry_text:
  assumes "EOS \<notin> set w"
  shows "c_str (drop (length (argz_of us)) (argz_of (us @ w # ws))) = w"
  using assms by (simp add: c_str_append)

lemma entry_before_snoc: "entry_before (us @ [w]) = Some (length (argz_of us))"
  by (simp add: entry_before_def)

lemma dir_loop_walk:
  assumes mem: "mem_ok S" and ok: "\<forall>w \<in> set (us @ ws). EOS \<notin> set w" and ne: "[] \<notin> set ws"
    and n: "length ws \<le> n"
  shows "\<exists>s'. dir_loop n S (argz_of (us @ ws)) (entry_before us) base m (\<lambda>f d. retS (g f d)) d s =
      Inr (walk g (map (in_dir base) ws) d, s')"
  using ok ne n
proof (induction ws arbitrary: us n m d s)
  case Nil
  have "argz_next (argz_of us) (entry_before us) = Inr None"
    using argz_next_entry [of us "[]"] Nil.prems by simp
  then show ?case by (simp add: dir_loop.simps act_simps)
next
  case (Cons w ws)
  obtain n' where n: "n = Suc n'" "length ws \<le> n'" using Cons.prems(3) by (cases n) auto
  have w: "w \<noteq> []" "EOS \<notin> set w" using Cons.prems by auto
  have nxt: "argz_next (argz_of (us @ w # ws)) (entry_before us) = Inr (Some (length (argz_of us)))"
    using argz_next_entry [of us "w # ws"] Cons.prems by simp
  define m' s1 where "m' = (if 1 + length w + length base \<ge> m then 1 + length w + 1 + length base else m)"
    and "s1 = (if 1 + length w + length base \<ge> m then mem_step S s else s)"
  have name: "file_in_dir (Suc (Suc (length w + length base))) w base = Inr (in_dir base w)"
      "\<not> m \<le> Suc (length w + length base) \<Longrightarrow> file_in_dir m w base = Inr (in_dir base w)"
    using w by (auto intro: file_in_dir_ok)
  obtain r d' where r: "g (in_dir base w) d = (r, d')" by (cases "g (in_dir base w) d")
  have run: "dir_loop n S (argz_of (us @ w # ws)) (entry_before us) base m (\<lambda>f d. retS (g f d)) d s =
      (if r \<noteq> 0 then Inr ((r, d'), s1)
       else dir_loop n' S (argz_of (us @ w # ws)) (Some (length (argz_of us))) base m' (\<lambda>f d. retS (g f d)) d' s1)"
    by (subst dir_loop.simps)
      (simp add: act_simps nxt n(1) entry_text [OF w(2)] malloc_run [OF mem] m'_def s1_def
        name r Let_def del: argz_of_simps)
  show ?case
  proof (cases "r = 0")
    case False
    then show ?thesis using run r by simp
  next
    case True
    have "\<forall>v \<in> set ((us @ [w]) @ ws). EOS \<notin> set v" "[] \<notin> set ws" using Cons.prems by auto
    from Cons.IH [OF this n(2), of m' d' s1] obtain s' where
      "dir_loop n' S (argz_of ((us @ [w]) @ ws)) (entry_before (us @ [w])) base m' (\<lambda>f d. retS (g f d)) d' s1 =
       Inr (walk g (map (in_dir base) ws) d', s')" by blast
    then show ?thesis using run r True by (simp add: entry_before_snoc)
  qed
qed

lemma canonicalize_run:
  "mem_ok S \<Longrightarrow> path \<noteq> [] \<Longrightarrow> canonicalize_path S path s = Inr (Some (canon_loop path []), mem_step S s)"
  by (simp add: canonicalize_path_def act_simps malloc_run)

lemma argzize_run:
  "mem_ok S \<Longrightarrow> argzize_path S path s = Inr (Some (snd (argz_create_sep True path PATHSEP [])), mem_step S s)"
  by (simp add: argzize_path_def act_simps malloc_run argz_create_sep_def)

lemma dirs_argz:
  assumes "EOS \<notin> set path" and "dirs path \<noteq> []" and "[] \<notin> set (dirs path)"
  shows "argz_create_sep True (join PATHSEP (dirs path)) PATHSEP a = (0, argz_of (dirs path))"
  using assms dirs_chars by (intro argz_of_dirs join_chars) auto

lemma length_argz_of: "length ws \<le> length (argz_of ws)"
  by (induction ws) auto

lemma foreach_dirinpath_walk:
  assumes mem: "mem_ok S" and p: "EOS \<notin> set path" "dirs path \<noteq> []" "[] \<notin> set (dirs path)"
  shows "\<exists>s'. foreach_dirinpath S (Some path) base (\<lambda>f d. retS (g f d)) d s =
    Inr (walk g (map (in_dir (case base of None \<Rightarrow> [] | Some b \<Rightarrow> b)) (dirs path)) d, s')"
proof -
  have ne: "path \<noteq> []" using p(2) by (auto simp: dirs_def)
  have "\<forall>w \<in> set ([] @ dirs path). EOS \<notin> set w" using dirs_chars(2) p(1) by auto
  note loop = dir_loop_walk [OF mem this p(3), of "length (argz_of (dirs path))", OF length_argz_of, of _ 0]
  obtain s' where "dir_loop (length (argz_of (dirs path))) S (argz_of (dirs path)) None
      (case base of None \<Rightarrow> [] | Some b \<Rightarrow> b) 0 (\<lambda>f d. retS (g f d)) d (mem_step S (mem_step S s)) =
      Inr (walk g (map (in_dir (case base of None \<Rightarrow> [] | Some b \<Rightarrow> b)) (dirs path)) d, s')"
    using loop by (fastforce simp: entry_before_def)
  then show ?thesis
    by (simp add: foreach_dirinpath_def act_simps ne canonicalize_run [OF mem] argzize_run [OF mem]
        canon_join [OF p(1,3)] dirs_argz [OF p])
qed

section \<open>Paths of separators only\<close>

text \<open>The root directory is one of them: nothing of it is left.\<close>

definition only_separators :: "string \<Rightarrow> bool" where
  "only_separators path \<longleftrightarrow> path \<noteq> [] \<and> set path \<subseteq> {SLASH, PATHSEP}"

lemma canon_separators:
  assumes "set path \<subseteq> {SLASH, PATHSEP}"
  shows "canon_loop path [] = []"
  using assms
proof (induction path)
  case (Cons c path)
  then have "(case path of [] \<Rightarrow> EOS | e # _ \<Rightarrow> e) \<in> {EOS, SLASH, PATHSEP}" by (cases path) auto
  with Cons show ?case by (auto simp: Let_def)
qed simp

lemma foreach_separators:
  assumes "mem_ok S" and "only_separators path" and "b \<noteq> []"
  shows "foreach_dirinpath S (Some path) (Some b) m d s = Inl OutOfBounds"
proof -
  have "canon_loop path [] = []" "path \<noteq> []" using assms(2) canon_separators by (auto simp: only_separators_def)
  moreover have "argz_create_sep True [] PATHSEP [] = (0, [EOS])" by (simp add: argz_create_sep_def)
  moreover have "argz_next [EOS] None = Inr (Some 0)" by (simp add: argz_next_def)
  ultimately show ?thesis using assms(1,3)
    by (simp add: foreach_dirinpath_def act_simps canonicalize_run argzize_run dir_loop.simps malloc_run
        c_str_def file_in_dir_def)
qed

section \<open>Adding a directory to the search path\<close>

lemma insertdir_run:
  assumes mem: "mem_ok S" and dir: "dir \<noteq> []" "canon_loop dir [] \<noteq> []"
    and cut: "argz_create_sep True path PATHSEP [] = (0, argz)"
    and fin: "argz_stringify (argz @ dir @ [EOS]) PATHSEP = Inr t"
  shows "\<exists>s'. lt_dlpath_insertdir S (Some path) None dir s = Inr ((0, Some (c_str t)), s')"
  using dir cut fin
  by (simp add: lt_dlpath_insertdir_def act_simps canonicalize_run [OF mem] argzize_run [OF mem]
      lt_argz_insert_def malloc_run [OF mem] argz_append_def)

lemma stringify_entries:
  assumes "ws \<noteq> []" and "hd ws \<noteq> []" and "\<forall>w \<in> set ws. EOS \<notin> set w" and "sep \<noteq> EOS"
  shows "argz_stringify (argz_of ws) sep = Inr (join sep ws @ [EOS])"
proof -
  obtain c w vs where w: "ws = (c # w) # vs" using assms(1,2) by (cases ws; cases "hd ws") auto
  then have "c \<noteq> EOS" using assms(3) by auto
  moreover have "argz_of ws = c # butlast (w @ EOS # argz_of vs) @ [EOS]"
    using w argz_of_last [of vs] append_butlast_last_id [of "argz_of vs"]
    by (cases "vs = []") (auto simp: butlast_append)
  ultimately show ?thesis using stringify_argz [of ws c _ sep] assms(3,4) by blast
qed

lemma add_directory:
  assumes mem: "mem_ok S" and p: "EOS \<notin> set path" "dirs path \<noteq> []" "[] \<notin> set (dirs path)"
    and d: "dir \<noteq> []" "canon_loop dir [] \<noteq> []" "EOS \<notin> set dir"
  shows "\<exists>s'. lt_dlpath_insertdir S (Some (join PATHSEP (dirs path))) None dir s =
    Inr ((0, Some (join PATHSEP (dirs path @ [dir]))), s')"
proof -
  have chars: "\<forall>w \<in> set (dirs path @ [dir]). EOS \<notin> set w" using dirs_chars(2) p(1) d(3) by auto
  have "hd (dirs path @ [dir]) \<noteq> []" using p(2,3) by (cases "dirs path") auto
  then have "argz_stringify (argz_of (dirs path) @ dir @ [EOS]) PATHSEP = Inr (join PATHSEP (dirs path @ [dir]) @ [EOS])"
    using stringify_entries [of "dirs path @ [dir]" PATHSEP] chars by simp
  from insertdir_run [OF mem d(1,2) dirs_argz [OF p] this] show ?thesis
    using join_chars [of PATHSEP "dirs path @ [dir]"] chars by (simp add: c_str_append)
qed

lemma add_to_empty:
  assumes mem: "mem_ok S" and d: "dir \<noteq> []" "canon_loop dir [] \<noteq> []"
  shows "\<exists>s'. lt_dlpath_insertdir S (Some []) None dir s = Inr ((0, Some []), s')"
proof -
  have cut: "argz_create_sep True [] PATHSEP [] = (0, [EOS])" by (simp add: argz_create_sep_def)
  have n: "length dir < length (EOS # dir @ [EOS])" by simp
  have "argz_stringify ([EOS] @ dir @ [EOS]) PATHSEP = Inr (stringify_loop (length dir) PATHSEP (EOS # dir @ [EOS]))"
    using d(1) by (cases dir) (simp_all add: argz_stringify_def)
  from insertdir_run [OF mem d cut this] show ?thesis
    by (simp add: stringify_loop_eq [OF n] c_str_def)
qed

end
