(* ===== verification/Ltdl_Calls_Spec.thy ===== *)
theory Ltdl_Calls_Spec
  imports Ltdl_Close_Spec Ltdl_Path_Spec
begin

text \<open>
  A program that uses libltdl, as a sequence of calls (\<open>lt_call\<close>): every state it can reach has a
  well-formed module list. Left out are \<^verbatim>\<open>lt_dlexit\<close>, which takes the tables of the loaders away, and the
  functions that run code of the program between their steps.
\<close>

inductive lt_call :: "'k lt_os \<Rightarrow> 'k lt_code \<Rightarrow> 'k ltdl \<Rightarrow> 'k ltdl \<Rightarrow> bool" for S :: "'k lt_os" and V :: "'k lt_code" where
  call_init: "lt_dlinit S V s = Inr (e, s') \<Longrightarrow> lt_call S V s s'"
| call_open: "lt_dlopenadvise S V f a s = Inr (h, s') \<Longrightarrow> lt_call S V s s'"
| call_openext: "lt_dlopenext S V f s = Inr (h, s') \<Longrightarrow> lt_call S V s s'"
| call_close: "lt_dlclose n S V h s = Inr (e, s') \<Longrightarrow> closable h s \<Longrightarrow> lt_call S V s s'"
| call_sym: "lt_dlsym S V h n s = Inr (p, s') \<Longrightarrow> lt_call S V s s'"
| call_makeresident: "lt_dlmakeresident h s = Inr (e, s') \<Longrightarrow> lt_call S V s s'"
| call_isresident: "lt_dlisresident h s = Inr (e, s') \<Longrightarrow> lt_call S V s s'"
| call_set_data: "lt_dlcaller_set_data S key r d s = Inr (p, s') \<Longrightarrow> lt_call S V s s'"
| call_iterate: "lt_dlhandle_iterate S V i h s = Inr (p, s') \<Longrightarrow> lt_call S V s s'"
| call_preload: "lt_dlpreload S l s = Inr (e, s') \<Longrightarrow> lt_call S V s s'"
| call_add_path: "lt_dladdsearchdir S dir s = Inr (e, s') \<Longrightarrow> lt_call S V s s'"
| call_insert_path: "lt_dlinsertsearchdir S pos dir s = Inr (e, s') \<Longrightarrow> lt_call S V s s'"
| call_set_path: "lt_dlsetsearchpath S path s = Inr (e, s') \<Longrightarrow> lt_call S V s s'"
| call_error: "lt_dlerror s = Inr (m, s') \<Longrightarrow> lt_call S V s s'"
| call_seterror: "lt_dlseterror n s = Inr (e, s') \<Longrightarrow> lt_call S V s s'"
| call_adderror: "lt_dladderror S str s = Inr (e, s') \<Longrightarrow> lt_call S V s s'"
| call_loader_add: "lt_dlloader_add S vt s = Inr (e, s') \<Longrightarrow> lt_call S V s s'"

section \<open>Every call keeps the list\<close>

abbreviation list_ok :: "('k \<Rightarrow> nat set) \<Rightarrow> 'k ltdl \<Rightarrow> bool" where
  "list_ok al \<equiv> grown al []"

lemma list_ok_mods: "list_ok al s \<longleftrightarrow> (\<exists>as. mods al {} as s)"
  by (simp add: grown_def)

lemma quiet_call: "quiet S m \<Longrightarrow> m s = Inr (r, s') \<Longrightarrow> alloc_ok S al \<Longrightarrow> list_ok al s \<Longrightarrow> list_ok al s'"
  using mods_quiet unfolding list_ok_mods quiet_def by blast

text \<open>A change of a handle that keeps a good entry good.\<close>

lemma mods_change:
  assumes m: "mods al {} as s" and x: "hmem s a = Some x"
    and f: "hnext (f x) = hnext x" "entry_ok s x \<Longrightarrow> entry_ok s (f x)"
  shows "mods al {} as (s\<lparr>hmem := (hmem s)(a \<mapsto> f x)\<rparr>)"
proof (cases "a \<in> set as")
  case True
  then show ?thesis using mods_update_entry [OF m x True f(1)] mods_entry [OF m True] x f(2) by auto
next
  case False
  then show ?thesis using m x by (auto simp: mods_def chain_update)
qed

lemma triple_change:
  fixes al :: "'k \<Rightarrow> nat set"
  assumes "\<And>x. hnext (f x) = hnext x" and "\<And>x (s :: 'k ltdl). entry_ok s x \<Longrightarrow> entry_ok s (f x)"
  shows "triple (list_ok al) (update_handle a f) (\<lambda>_. list_ok al)"
proof (rule triple_update)
  fix s :: "'k ltdl" and x assume "list_ok al s" "hmem s a = Some x"
  then show "list_ok al (s\<lparr>hmem := (hmem s)(a \<mapsto> f x)\<rparr>)"
    unfolding list_ok_mods using mods_change [where f = f and x = x, OF _ _ assms(1) assms(2)] by blast
qed

lemma makeresident_ok:
  assumes ok: "alloc_ok S al"
  shows "triple (list_ok al) (lt_dlmakeresident h) (\<lambda>_. list_ok al)"
  unfolding lt_dlmakeresident_def
  apply (rule triples)
   apply (rule triple_skip_and [where S = S], intro quiets, intro steadies ok)
   apply (rule triple_ret, assumption)
  apply (rule triple_and, rule triple_change)
    apply (auto simp: entry_ok_def loaded_def intro: triple_ret)
  done

lemma set_data_ok:
  assumes ok: "alloc_ok S al"
  shows "triple (list_ok al) (lt_dlcaller_set_data S key a d) (\<lambda>_. list_ok al)"
  unfolding lt_dlcaller_set_data_def Let_def
  apply (rule triple_skip [where S = S], intro quiets, intro steadies ok)
  apply (rule triples)
   apply (rule triple_and, rule triple_change)
     apply (auto simp: entry_ok_def loaded_def intro: triple_ret)
  apply (rule triple_skip [where S = S], intro quiets, intro steadies ok)
  apply (rule triples, rule triple_ret, assumption)
  apply (rule triple_and, rule triple_change)
    apply (auto simp: entry_ok_def loaded_def intro: triple_ret)
  done

lemma quiet_isresident [quiets]: "quiet S (lt_dlisresident h)"
  unfolding lt_dlisresident_def by (intro quiets)

context module_code
begin

lemma open_entries_ok:
  assumes ok: "alloc_ok S al" and func: "\<And>h. quiet S (func h)"
  shows "triple (grown al as) (open_entries S V func es) (\<lambda>_. grown al as)"
proof (induction es)
  case Nil
  show ?case by (simp, rule triple_ret)
next
  case (Cons e es)
  obtain name address where e: "e = (name, address)" by (cases e)
  show ?case
    unfolding e open_entries.simps
    apply (rule triple_bind [where R = "\<lambda>_. grown al as"])
     apply (rule triples)
      apply (rule triple_bind, unfold lt_dlopen_def, rule dlopen_ok [OF ok])
      apply (rule triples, rule triple_ret, assumption)
      apply (rule triple_quiet [OF func], intro steadies ok)
     apply (rule triple_ret, assumption)
    apply (rule triple_bind [OF Cons])
    apply (rule triple_ret, assumption)
    done
qed

lemma open_lists_ok:
  assumes ok: "alloc_ok S al" and func: "\<And>h. quiet S (func h)"
  shows "triple (grown al as) (open_lists S V originator func ls) (\<lambda>_. grown al as)"
proof (induction ls)
  case Nil
  show ?case by (simp, rule triple_ret)
next
  case (Cons l ls)
  have "triple (grown al as)
      (bindS (if name = originator then bindS (open_entries S V func symbols) (\<lambda>e. retS (e, 1)) else retS (0, 0)) (\<lambda>(e, f).
          bindS (open_lists S V originator func ls) (\<lambda>(e', f'). retS (e + e', f + f')))) (\<lambda>_. grown al as)"
    for name symbols
    apply (rule triple_bind [where R = "\<lambda>_. grown al as"])
     apply (rule triples, rule triple_bind [OF open_entries_ok [OF ok func]])
      apply (rule triple_ret, assumption)
     apply (rule triple_ret, assumption)
    apply (rule triples, rule triple_bind [OF Cons])
    apply (rule triples, rule triple_ret, assumption)
    done
  then show ?case by (auto intro!: triple_fault split: list.splits)
qed

lemma dlinit_ok:
  assumes ok: "alloc_ok S al"
  shows "triple (list_ok al) (lt_dlinit S V) (\<lambda>_. list_ok al)"
proof -
  have st: "steady S (list_ok al)" by (intro steadies ok)
  have init: "triple (list_ok al) (modify (initialized_update f)) (\<lambda>_. list_ok al)" for f
    by (auto simp: triple_def act_simps list_ok_mods mods_def entry_ok_def loaded_def)
  have reset: "triple (list_ok al) (modify (\<lambda>s. s\<lparr>alloc_die_set := True, handles := None, user_search_path := None\<rparr>))
      (\<lambda>_. list_ok al)"
    by (auto simp: triple_def act_simps list_ok_mods mods_def intro!: exI [of _ "[]"])
  show ?thesis
    unfolding lt_dlinit_def lt_dlpreload_open_def
    apply (rule triple_and [OF init])
    apply (rule triple_skip [where S = S], intro quiets, rule st)
    apply (rule triples, rule triple_ret, assumption)
    apply (rule triple_and [OF reset])
    apply (rule triple_skip [where S = S], rule loader_init_quiet, rule st)
    apply (rule triple_skip [where S = S], intro quiets, rule st)
    apply (rule triples, rule triple_ret, assumption)
    apply (rule triple_skip [where S = S], intro quiets, rule st)
    apply (rule triple_bind [OF open_lists_ok [OF ok loader_init_quiet(2)]])
    apply (rule triples)+
     apply (rule triple_skip_and [where S = S], intro quiets, rule st)
     apply (rule triple_ret, assumption)
    apply (rule triple_ret, assumption)
    done
qed

lemma dlopenext_ok:
  assumes ok: "alloc_ok S al"
  shows "triple (list_ok al) (lt_dlopenext S V f) (\<lambda>_. list_ok al)"
  unfolding lt_dlopenext_def lt_dladvise_init_def lt_dladvise_ext_def set_advice_def
  apply (rule triple_skip [where S = S], intro quiets, intro steadies ok)
  apply (rule triples)+
   apply (rule triple_ret, assumption)
  apply (rule triple_skip [where S = S], intro quiets, intro steadies ok)
  apply (rule triples)+
   apply (rule triple_ret, assumption)
  apply (rule dlopen_ok [OF ok])
  done

lemma call_keeps_list:
  assumes c: "lt_call S V s s'" and ok: "alloc_ok S al" and l: "list_ok al s"
  shows "list_ok al s'"
  using c
proof cases
  case (call_close n h e)
  obtain as where "mods al {} as s" using l by (auto simp: list_ok_mods)
  then have "closed al as h s'" using tripleD [OF close_ok [OF ok, of as h] _ call_close(1)] call_close(2) by simp
  then show ?thesis unfolding closed_def list_ok_mods by blast
next
  case (call_open f a h)
  then show ?thesis by (rule tripleD [OF dlopen_ok [OF ok] l])
next
  case (call_openext f h)
  then show ?thesis by (rule tripleD [OF dlopenext_ok [OF ok] l])
next
  case (call_init e)
  then show ?thesis by (rule tripleD [OF dlinit_ok [OF ok] l])
next
  case (call_makeresident h e)
  then show ?thesis by (rule tripleD [OF makeresident_ok [OF ok] l])
next
  case (call_set_data key r d p)
  then show ?thesis by (rule tripleD [OF set_data_ok [OF ok] l])
next
  case (call_isresident h e)
  then show ?thesis by (rule quiet_call [OF quiet_isresident _ ok l])
next
  case (call_sym h n p)
  then show ?thesis by (rule quiet_call [OF dlsym_quiet _ ok l])
next
  case (call_iterate i h p)
  then show ?thesis by (rule quiet_call [OF iterate_quiet _ ok l])
next
  case (call_preload ls e)
  then show ?thesis by (rule quiet_call [OF quiet_symlists(3) _ ok l])
next
  case (call_add_path dir e)
  then show ?thesis by (rule quiet_call [OF quiet_search_path(1) _ ok l])
next
  case (call_insert_path pos dir e)
  then show ?thesis by (rule quiet_call [OF quiet_search_path(2) _ ok l])
next
  case (call_set_path path e)
  then show ?thesis by (rule quiet_call [OF quiet_search_path(3) _ ok l])
next
  case (call_error m)
  then show ?thesis by (rule quiet_call [OF quiet_user_errors(3) _ ok l])
next
  case (call_seterror n e)
  then show ?thesis by (rule quiet_call [OF quiet_user_errors(1) _ ok l])
next
  case (call_adderror str e)
  then show ?thesis by (rule quiet_call [OF quiet_user_errors(2) _ ok l])
next
  case (call_loader_add vt e)
  then show ?thesis by (rule quiet_call [OF quiet_loaders(4) _ ok l])
qed

lemma calls_keep_list:
  assumes "(lt_call S V)\<^sup>*\<^sup>* s s'" and "alloc_ok S al" and "list_ok al s"
  shows "list_ok al s'"
  using assms by (induction rule: rtranclp_induct) (auto intro: call_keeps_list)

end

section \<open>A list that does not end\<close>

text \<open>A search among handles that lead to each other only.\<close>

lemma find_link_closed:
  assumes "\<And>a. a \<in> C \<Longrightarrow> \<exists>x. hmem s a = Some x \<and> hnext x \<in> Some ` C" and "h \<notin> Some ` C"
  shows "p \<in> Some ` C \<Longrightarrow> find_link n prv p h s = Inl OutOfFuel"
proof (induction n arbitrary: prv p)
  case 0
  then obtain a where "p = Some a" "h \<noteq> Some a" using assms(2) by auto
  then show ?case by (simp add: find_link.simps act_simps)
next
  case (Suc n)
  then obtain a where a: "p = Some a" "h \<noteq> Some a" "a \<in> C" using assms(2) by auto
  obtain x where x: "hmem s a = Some x" "hnext x \<in> Some ` C" using assms(1) [OF a(3)] by blast
  show ?case using Suc.IH [OF x(2), of "Some a"] a x(1) by (simp add: find_link.simps act_simps)
qed

lemma chain_next_in:
  "chain (links m) p (xs @ r # ys) \<Longrightarrow> p \<in> Some ` insert r (set xs) \<and>
     (\<forall>a \<in> set xs. \<exists>x. m a = Some x \<and> hnext x \<in> Some ` insert r (set xs))"
proof (induction xs arbitrary: p)
  case (Cons b xs)
  then obtain x where x: "p = Some b" "m b = Some x" "chain (links m) (hnext x) (xs @ r # ys)"
    by (auto simp: links_Some)
  from Cons.IH [OF x(3)] show ?case using x(1,2) by auto
qed simp

lemma opened_first:
  assumes "chain (links (hmem s)) p (xs @ r # ys)" and "hmem s r = Some x" and "filename x = f"
    and "\<forall>a \<in> set xs. filename (the (hmem s a)) \<noteq> f" and "length xs \<le> n"
  shows "opened n p f s = Inr (Some r, s)"
  using assms
proof (induction xs arbitrary: n p)
  case Nil
  then show ?case by (auto simp: opened.simps act_simps links_Some)
next
  case (Cons b xs)
  then obtain y where y: "p = Some b" "hmem s b = Some y" "chain (links (hmem s)) (hnext y) (xs @ r # ys)"
    by (auto simp: links_Some)
  obtain m where m: "n = Suc m" "length xs \<le> m" using Cons.prems(5) by (cases n) auto
  show ?case using Cons.IH [OF y(3) Cons.prems(2,3) _ m(2)] Cons.prems(4) y m(1)
    by (auto simp: opened.simps act_simps)
qed

lemma new_handle_run:
  assumes "mem_ok S"
  shows "new_handle S s = Inr (Some (mem_addr S s), (mem_step S s)\<lparr>hmem := (hmem s)(mem_addr S s \<mapsto> zero_handle)\<rparr>)"
  using assms by (simp add: new_handle_def act_simps malloc_run)

lemma reopen_overclosed:
  assumes mem: "mem_ok S" and fresh: "hmem s (mem_addr S s) = None"
    and c: "chain (links (hmem s)) (handles s) (xs @ r # ys)" and x: "hmem s r = Some x" "filename x = None"
    and first: "\<forall>a \<in> set xs. filename (the (hmem s a)) \<noteq> None" and n: "length xs \<le> rounds S"
    and ref: "ref_count x = -1"
  shows "lt_dlopen S V None s = Inr (Some r, (mem_step S s)\<lparr>
    hmem := (hmem s)(r \<mapsto> x\<lparr>ref_count := 1, mname := None, hnext := handles s\<rparr>), handles := Some r\<rparr>)"
proof -
  define p where "p = mem_addr S s"
  define z where "z = zero_handle\<lparr>is_resident := True\<rparr>"
  define t where "t = (mem_step S s)\<lparr>hmem := (hmem s)(p \<mapsto> z)\<rparr>"
  have p: "p \<notin> set (xs @ r # ys)" "p \<noteq> r"
    using chain_alloc [OF c, of p] x(1) fresh by (auto simp: p_def links_def)
  have "chain (links (hmem t)) (handles t) (xs @ r # ys)" using c p by (simp add: t_def chain_update)
  moreover have "\<forall>a \<in> set xs. filename (the (hmem t a)) \<noteq> None" using first p by (auto simp: t_def)
  ultimately have o: "opened (rounds S) (handles s) None t = Inr (Some r, t)"
    using opened_first [of t "handles s" xs r ys x None "rounds S"] x p n by (simp add: t_def)
  have free: "(hmem s)(p := None) = hmem s" using fresh by (auto simp: p_def)
  have last: "(mem_step S s)\<lparr>hmem := m, handles := q, last_error := last_error s\<rparr> =
      (mem_step S s)\<lparr>hmem := m, handles := q\<rparr>" for m q
    by (cases s) (simp add: mem_step_def)
  show ?thesis using x p ref o
    by (simp add: lt_dlopen_def lt_dlopenadvise_def try_dlopen_def try_self_def act_simps new_handle_run [OF mem]
        tryall_dlopen_def register_handle_def t_def z_def p_def [symmetric] last fun_upd_twist free)
qed

end
