(* ===== verification/Ltdl_Files_Spec.thy ===== *)
theory Ltdl_Files_Spec
  imports Ltdl_Path_Spec
begin

text \<open>
  The listing of a directory by libltdl: the entries of the vector are kept in the order of \<^verbatim>\<open>strcmp\<close>
  and without duplicates, whatever the order the system reads the directory in.
\<close>

section \<open>The order of strings\<close>

lemma strcmp_zero [simp]: "strcmp a b = 0 \<longleftrightarrow> a = b"
  by (induction a b rule: strcmp.induct) auto

lemma strcmp_refl [simp]: "strcmp a a = 0"
  by simp

lemma strcmp_flip: "strcmp b a = - strcmp a b"
  by (induction a b rule: strcmp.induct) (auto simp: not_less less_le)

lemma strcmp_trans: "strcmp a b < 0 \<Longrightarrow> strcmp b c < 0 \<Longrightarrow> strcmp a c < 0"
proof (induction a b arbitrary: c rule: strcmp.induct)
  case (2 d t)
  then show ?case by (cases c) auto
next
  case (4 c s d t u)
  then show ?case by (cases u) (auto split: if_splits)
qed auto

section \<open>Insertion\<close>

fun put_sorted :: "string \<Rightarrow> string list \<Rightarrow> string list" where
  "put_sorted e [] = [e]"
| "put_sorted e (w # ws) =
     (if strcmp e w < 0 then e # w # ws else if e = w then w # ws else w # put_sorted e ws)"

definition ascending :: "string list \<Rightarrow> bool" where
  "ascending ws \<longleftrightarrow> sorted_wrt (\<lambda>a b. strcmp a b < 0) ws"

lemma set_put_sorted [simp]: "set (put_sorted e ws) = insert e (set ws)"
  by (induction ws) auto

lemma ascending_put:
  assumes "ascending ws"
  shows "ascending (put_sorted e ws)"
  using assms
proof (induction ws)
  case (Cons w ws)
  show ?case
  proof (cases "strcmp e w < 0 \<or> e = w")
    case True
    then show ?thesis using Cons.prems strcmp_trans [of e w] by (auto simp: ascending_def)
  next
    case False
    moreover have "strcmp w e = - strcmp e w" by (rule strcmp_flip)
    moreover have "strcmp e w \<noteq> 0" using False by simp
    ultimately have "strcmp w e < 0" by linarith
    then show ?thesis using False Cons by (auto simp: ascending_def)
  qed
qed (simp add: ascending_def)

lemma ascending_distinct: "ascending ws \<Longrightarrow> distinct ws"
proof (induction ws)
  case (Cons w ws)
  have "strcmp w w = 0" by (rule strcmp_refl)
  with Cons show ?case unfolding ascending_def by (metis distinct.simps(2) less_irrefl sorted_wrt.simps(2))
qed simp

text \<open>Whether the entry is found, and the offset of the first greater one, behind the entries \<open>us\<close>.\<close>

fun order_result :: "string \<Rightarrow> string list \<Rightarrow> string list \<Rightarrow> bool \<times> nat option" where
  "order_result e us [] = (False, None)"
| "order_result e us (w # ws) =
     (if strcmp e w < 0 then (False, Some (length (argz_of us)))
      else if e = w then (True, None) else order_result e (us @ [w]) ws)"

lemma order_loop_run:
  assumes "\<forall>w \<in> set (us @ ws). EOS \<notin> set w" and "length ws \<le> n"
  shows "order_loop n (argz_of (us @ ws)) (entry_before us) e = Inr (order_result e us ws)"
  using assms
proof (induction ws arbitrary: us n)
  case Nil
  then show ?case using argz_next_entry [of us "[]"] by (simp add: order_loop.simps)
next
  case (Cons w ws)
  have nxt: "argz_next (argz_of (us @ w # ws)) (entry_before us) = Inr (Some (length (argz_of us)))"
    using argz_next_entry [of us "w # ws"] Cons.prems by simp
  have t: "c_str (drop (length (argz_of us)) (argz_of (us @ w # ws))) = w"
    using entry_text Cons.prems(1) by simp
  obtain n' where n: "n = Suc n'" "length ws \<le> n'" using Cons.prems(2) by (cases n) auto
  have "order_loop n' (argz_of ((us @ [w]) @ ws)) (entry_before (us @ [w])) e = Inr (order_result e (us @ [w]) ws)"
    using Cons.prems by (intro Cons.IH n(2)) auto
  then show ?case
    by (simp add: order_loop.simps [of "Suc n'"] nxt t n(1) Let_def entry_before_snoc del: argz_of_simps)
qed

lemma order_result_put:
  "case order_result e us ws of
     (True, _) \<Rightarrow> put_sorted e ws = ws
   | (False, None) \<Rightarrow> put_sorted e ws = ws @ [e]
   | (False, Some p) \<Rightarrow> \<exists>vs xs. ws = vs @ xs \<and> p = length (argz_of (us @ vs)) \<and> put_sorted e ws = vs @ e # xs"
proof (induction e us ws rule: order_result.induct)
  case (2 e us w ws)
  consider "strcmp e w < 0" | "\<not> strcmp e w < 0" "e = w" | "\<not> strcmp e w < 0" "e \<noteq> w" by blast
  then show ?case
  proof cases
    case 1
    have "w # ws = [] @ w # ws" "length (argz_of us) = length (argz_of (us @ []))" by simp_all
    then show ?thesis using 1 by (simp del: argz_of_simps) (metis append_Nil append_Nil2)
  next
    case 3
    have cons: "w # vs @ xs = (w # vs) @ xs" "(us @ [w]) @ vs = us @ (w # vs)" for vs xs :: "string list" by simp_all
    show ?thesis using 2 [OF 3] 3
      by (auto simp del: argz_of_simps split: prod.splits bool.splits option.splits) (metis cons)
  qed simp
qed simp

lemma scan_back_entry: "us \<noteq> [] \<Longrightarrow> scan_back (argz_of us @ s) (length (argz_of us)) = length (argz_of us)"
  using argz_of_last [of us] by (cases "argz_of us" rule: rev_cases) auto

lemma argz_insert_entry:
  assumes "e \<noteq> []"
  shows "argz_insert True (argz_of (vs @ xs)) (Some (length (argz_of vs))) e = Inr (0, argz_of (vs @ e # xs))"
  using assms scan_back_entry [of vs "argz_of xs"] by (cases "vs = []") (auto simp: argz_insert_def Let_def)

lemma insertinorder_run:
  assumes mem: "mem_ok S" and ok: "\<forall>w \<in> set ws. EOS \<notin> set w" and e: "e \<noteq> []"
  shows "\<exists>s'. lt_argz_insertinorder S (argz_of ws) e s = Inr ((0, argz_of (put_sorted e ws)), s')"
proof -
  have ord: "order_loop (length (argz_of ws)) (argz_of ws) None e = Inr (order_result e [] ws)"
    using order_loop_run [of "[]" ws, OF _ length_argz_of] ok by (simp add: entry_before_def)
  have empty: "argz_of ws = [] \<longleftrightarrow> ws = []" using argz_of_last by (cases ws) auto
  have run: "lt_argz_insertinorder S (argz_of ws) e s = (case order_result e [] ws of (dup, q) \<Rightarrow>
      if dup then Inr ((0, argz_of ws), s) else lt_argz_insert S (argz_of ws) q e s)"
    using e by (cases "ws = []") (auto simp: lt_argz_insertinorder_def act_simps ord empty split: prod.splits)
  show ?thesis
  proof (cases "order_result e [] ws")
    case (Pair dup q)
    have res: "dup \<Longrightarrow> put_sorted e ws = ws" "\<not> dup \<Longrightarrow> q = None \<Longrightarrow> put_sorted e ws = ws @ [e]"
        "\<not> dup \<Longrightarrow> q = Some p \<Longrightarrow>
          \<exists>vs xs. ws = vs @ xs \<and> p = length (argz_of vs) \<and> put_sorted e ws = vs @ e # xs" for p
      using order_result_put [where e = e and us = "[]" and ws = ws] Pair by (simp_all del: argz_of_simps)
    show ?thesis
    proof (cases dup)
      case True
      then show ?thesis using res(1) by (simp add: run Pair)
    next
      case False
      show ?thesis
      proof (cases q)
        case None
        then show ?thesis using res(2) False
          by (simp add: run Pair lt_argz_insert_def act_simps malloc_run [OF mem] argz_append_def)
      next
        case (Some p)
        then obtain vs xs where w: "ws = vs @ xs" "p = length (argz_of vs)" "put_sorted e ws = vs @ e # xs"
          using res(3) False by blast
        show ?thesis unfolding run Pair w(3)
          by (simp add: False Some w(1,2) lt_argz_insert_def act_simps malloc_run [OF mem]
              argz_insert_entry [OF e] del: argz_of_simps)
      qed
    qed
  qed
qed

section \<open>Listing\<close>

definition stem :: "string \<Rightarrow> string \<Rightarrow> string" where
  "stem dirnam name = dirnam @ SLASH # take (plain_end name) name"

fun listing :: "string \<Rightarrow> string list \<Rightarrow> string list \<Rightarrow> string list" where
  "listing dirnam [] ws = ws"
| "listing dirnam (n # ns) ws =
     listing dirnam ns (if take 1 n \<noteq> ''.'' then put_sorted (stem dirnam n) ws else ws)"

lemma listing_set:
  "set (listing dirnam ns ws) = set ws \<union> stem dirnam ` {n \<in> set ns. take 1 n \<noteq> ''.''}"
  by (induction ns arbitrary: ws) auto

lemma listing_ascending: "ascending ws \<Longrightarrow> ascending (listing dirnam ns ws)"
  by (induction ns arbitrary: ws) (auto simp: ascending_put)

lemma stem_chars: "EOS \<notin> set dirnam \<Longrightarrow> EOS \<notin> set n \<Longrightarrow> EOS \<notin> set (stem dirnam n)"
  by (auto simp: stem_def dest: in_set_takeD)

lemma readdir_loop_run:
  assumes mem: "mem_ok S" and ok: "EOS \<notin> set dirnam" "\<forall>n \<in> set ns. EOS \<notin> set n" "\<forall>w \<in> set ws. EOS \<notin> set w"
  shows "\<exists>s'. readdir_loop S dirnam ns (argz_of ws) s = Inr ((0, argz_of (listing dirnam ns ws)), s')"
  using ok
proof (induction ns arbitrary: ws s)
  case (Cons n ns)
  show ?case
  proof (cases "take 1 n = ''.''")
    case True
    then show ?thesis using Cons by simp
  next
    case False
    have "stem dirnam n \<noteq> []" by (simp add: stem_def)
    from insertinorder_run [OF mem Cons.prems(3) this, of "mem_step S s"] obtain s1 where
      ins: "lt_argz_insertinorder S (argz_of ws) (stem dirnam n) (mem_step S s) =
        Inr ((0, argz_of (put_sorted (stem dirnam n) ws)), s1)" by blast
    have "\<forall>w \<in> set (put_sorted (stem dirnam n) ws). EOS \<notin> set w"
      using Cons.prems stem_chars by auto
    with Cons.IH [of "put_sorted (stem dirnam n) ws" s1] Cons.prems obtain s' where
      "readdir_loop S dirnam ns (argz_of (put_sorted (stem dirnam n) ws)) s1 =
        Inr ((0, argz_of (listing dirnam ns (put_sorted (stem dirnam n) ws))), s')" by auto
    then show ?thesis using False ins
      by (simp add: act_simps lt_argz_insertdir_def malloc_run [OF mem] stem_def)
  qed
qed (simp add: act_simps)

lemma file_loop_run:
  assumes "\<forall>w \<in> set (us @ ws). EOS \<notin> set w" and "length ws \<le> n"
  shows "file_loop n (argz_of (us @ ws)) (entry_before us) (\<lambda>f d. retS (g f d)) d s = Inr (walk g ws d, s)"
  using assms
proof (induction ws arbitrary: us n d)
  case Nil
  then show ?case using argz_next_entry [of us "[]"] by (simp add: file_loop.simps act_simps)
next
  case (Cons w ws)
  have nxt: "argz_next (argz_of (us @ w # ws)) (entry_before us) = Inr (Some (length (argz_of us)))"
    using argz_next_entry [of us "w # ws"] Cons.prems by simp
  have t: "c_str (drop (length (argz_of us)) (argz_of (us @ w # ws))) = w"
    using entry_text Cons.prems(1) by simp
  obtain n' where n: "n = Suc n'" "length ws \<le> n'" using Cons.prems(2) by (cases n) auto
  obtain r d' where r: "g w d = (r, d')" by (cases "g w d")
  have "file_loop n' (argz_of ((us @ [w]) @ ws)) (entry_before (us @ [w])) (\<lambda>f d. retS (g f d)) d' s =
      Inr (walk g ws d', s)"
    using Cons.prems by (intro Cons.IH n(2)) auto
  then show ?case
    by (subst file_loop.simps)
      (auto simp: act_simps nxt t n(1) Let_def entry_before_snoc r simp del: argz_of_simps)
qed

lemma foreachfile_run:
  assumes mem: "mem_ok S" and dir: "dirname \<noteq> []" "last dirname \<noteq> SLASH" "EOS \<notin> set dirname"
    and rd: "os_readdir S dirname (plat s) = (Some names, k)" and ok: "\<forall>n \<in> set names. EOS \<notin> set n"
  shows "\<exists>s'. foreachfile_callback S (\<lambda>f d. retS (g f d)) dirname d s =
    Inr (walk g (listing dirname names []) d, s')"
proof -
  obtain s1 where "readdir_loop S dirname names [] (s\<lparr>plat := k\<rparr>) = Inr ((0, argz_of (listing dirname names [])), s1)"
    using readdir_loop_run [OF mem dir(3) ok, of "[]" "s\<lparr>plat := k\<rparr>"] by auto
  then have "list_files_by_dir S dirname [] s = Inr ((0, argz_of (listing dirname names [])), s1)"
    using dir by (simp add: list_files_by_dir_def act_simps sys_run rd)
  moreover have "\<forall>w \<in> set (listing dirname names []). EOS \<notin> set w"
    using listing_set [of dirname names "[]"] stem_chars [OF dir(3)] ok by auto
  then have "file_loop (length (argz_of (listing dirname names []))) (argz_of (listing dirname names [])) None
      (\<lambda>f d. retS (g f d)) d s1 = Inr (walk g (listing dirname names []) d, s1)"
    using file_loop_run [of "[]" "listing dirname names []", OF _ length_argz_of]
    by (simp add: entry_before_def)
  moreover have "argz_of ws = [] \<Longrightarrow> ws = []" for ws using argz_of_last by (cases ws) auto
  ultimately show ?thesis
    by (cases "listing dirname names [] = []") (auto simp: foreachfile_callback_def act_simps)
qed

end
