(* ===== verification/Ltdl_Demo.thy ===== *)
theory Ltdl_Demo
  imports Ltdl_Init
begin

text \<open>
  A small system for concrete runs of libltdl: memory that never runs out, one archive and one module
  on disk, one preloaded module.
\<close>

definition demo_archive :: string where
  "demo_archive = ''# a libtool archive'' @ newline @ ''dlname='' @ [QUOTE] @ ''a.so'' @ [QUOTE] @ newline @
     ''installed=yes'' @ newline @ ''libdir='' @ [QUOTE] @ ''/m'' @ [QUOTE] @ newline"

definition demo_symbols :: "(string \<times> nat option) list" where
  "demo_symbols = [(''@PROGRAM@'', None), (''p.a'', None), (''p_LTX_go'', Some 71), (''stop'', Some 72)]"

definition demo_own_symbols :: "(string \<times> nat option) list" where
  "demo_own_symbols = [(''libltdlc'', None), (''dlopen.a'', None),
     (''dlopen_LTX_get_vtable'', Some dlopen_get_vtable_at)]"

definition demo_os :: "nat lt_os" where
  "demo_os = \<lparr>
     os_malloc = (\<lambda>k. (Some k, k + 1)), os_junk = (\<lambda>n k. replicate n (CHR ''?'')),
     os_fopen = (\<lambda>f k. (if f = ''/l/a.la'' then Some demo_archive else None, k)),
     os_access = (\<lambda>f k. (f = ''/m/a.so'' \<or> f = ''/l/a.la'', k)),
     os_getenv = (\<lambda>v k. None),
     os_readdir = (\<lambda>d k. (if d = ''/m'' then Some [''b.so.1.2'', ''.'', ''a.so'', ''a.la''] else None, k)),
     os_dlopen = (\<lambda>f g l k. (if f = Some ''/m/a.so'' then Some 900 else if f = None then Some 901 else None, k)),
     os_dlclose = (\<lambda>m k. (0, k)),
     os_dlsym = (\<lambda>m s k. (if m = Some 900 \<and> s = ''a_LTX_go'' then Some 73 else None, k)),
     os_dlerror = (\<lambda>k. (Some ''no'', k)),
     symlist_at = (\<lambda>a. if a = 500 then demo_own_symbols else if a = 600 then demo_symbols else []),
     LT_OBJDIR = ''.libs/'', LT_LIBEXT = ''a'', LT_MODULE_EXT = ''.so'', LT_MODULE_PATH_VAR = ''LD_LIBRARY_PATH'',
     LT_DLSEARCH_PATH = ''/lib'', LTDLOPEN_symbols = 500, LTDLOPEN_name = ''libltdlc'', rounds = 20\<rparr>"

definition demo_code :: "nat lt_code" where
  "demo_code = with_backends demo_os no_code"

definition demo_boot :: "nat ltdl" where
  "demo_boot = \<lparr>last_error = None, user_error_strings = [], errorcount = LT_ERROR_MAX, alloc_die_set = False,
     user_search_path = None, handles = None, hmem = Map.empty, initialized = 0, loaders = None,
     lmem = Map.empty, vmem = Map.empty, preopen_vtable = None, dlopen_vtable = None,
     preloaded_symlists = [], default_preloaded_symbols = Some 600, interfaces = Map.empty,
     statics = zero_statics, plat = 1\<rparr>"

text \<open>The state after an action, and whether it gave a value.\<close>

definition after :: "('k, 'a) lt \<Rightarrow> 'k ltdl \<Rightarrow> 'k ltdl" where
  "after m s = (case m s of Inr (_, s1) \<Rightarrow> s1 | Inl _ \<Rightarrow> s)"

fun gives :: "'a \<Rightarrow> ('a \<times> 's) res \<Rightarrow> bool" where
  "gives v (Inr (x, _)) = (x = v)"
| "gives v (Inl _) = False"

lemma gives_after: "gives v (m s) \<Longrightarrow> m s = Inr (v, after m s)"
  by (cases "m s") (auto simp: after_def)

definition demo_ready :: "nat ltdl" where
  "demo_ready = after (lt_dlinit demo_os demo_code) demo_boot"

text \<open>
  The library with the loader for \<^verbatim>\<open>dlopen\<close> only and no module open, then with one module, and with the
  program itself as a second one.
\<close>

definition demo_up :: "nat ltdl" where
  "demo_up = demo_boot\<lparr>errorcount := LT_ERROR_MAX, alloc_die_set := True, initialized := 1, loaders := Some 4,
     lmem := [4 \<mapsto> \<lparr>nxt = None, userdata = 3\<rparr>], vmem := [3 \<mapsto> dlopen_fill None zero_vtable],
     dlopen_vtable := Some 3, plat := 5\<rparr>"

definition demo_module :: "nat ltdl" where
  "demo_module = after (lt_dlopen demo_os demo_code (Some ''/m/a.so'')) demo_up"

definition demo_both :: "nat ltdl" where
  "demo_both = after (lt_dlopen demo_os demo_code None) demo_module"

text \<open>The program is open, and has been closed twice although it was opened once.\<close>

definition demo_overclosed :: "nat ltdl" where
  "demo_overclosed =
     after (lt_dlclose 1 demo_os demo_code (Some 5)) (after (lt_dlclose 1 demo_os demo_code (Some 5))
       (after (lt_dlopen demo_os demo_code None) demo_up))"

end
