(* ===== verification/Ltdl_Properties.thy ===== *)
theory Ltdl_Properties
  imports Ltdl_Calls_Spec Ltdl_Files_Spec Ltdl_Demo
begin

text \<open>
  The properties of libltdl, the loader library in the repository: the list of open modules, closing,
  symbol look up, search paths, directory listings and the list of loaders.
\<close>

section \<open>Facts about the concrete runs\<close>

lemma demo_mem_ok: "mem_ok demo_os"
  by (simp add: mem_ok_def demo_os_def)

definition demo_al :: "nat \<Rightarrow> nat set" where
  "demo_al k = {..<k}"

lemma demo_alloc_ok: "alloc_ok demo_os demo_al"
  by (auto simp: alloc_ok_def os_step_def demo_os_def demo_al_def split: if_splits)

lemma demo_opens:
  "gives (Some 9) (lt_dlopen demo_os demo_code (Some ''/m/a.so'') demo_up)"
  by code_simp

lemma demo_module_call: "lt_call demo_os demo_code demo_up demo_module"
  using gives_after [of "Some 9" "lt_dlopen demo_os demo_code (Some ''/m/a.so'')" demo_up, OF demo_opens]
  unfolding demo_module_def lt_dlopen_def by (rule call_open)

section \<open>The module list\<close>



text \<open>
  C34. A program handle that was closed twice although it was opened once, and is opened again, is
  hooked into the list a second time: the list becomes a cycle, and closing a handle that is not on
  it does not end, whatever the number of rounds.
\<close>

theorem reopened_list_cyclic:
  assumes mem: "mem_ok S" "hmem s (mem_addr S s) = None"
    and c: "chain (links (hmem s)) (handles s) (xs @ r # ys)" and x: "hmem s r = Some x" "filename x = None"
    and first: "\<forall>a \<in> set xs. filename (the (hmem s a)) \<noteq> None" and n: "length xs \<le> rounds S"
    and ref: "ref_count x = -1" and h: "h \<notin> set (xs @ [r])"
  shows "\<exists>s'. lt_dlopen S V None s = Inr (Some r, s') \<and> lt_dlclose k S' V' (Some h) s' = Inl OutOfFuel"
proof -
  note open_it = reopen_overclosed [OF mem c x first n ref, of V]
  define s' where "s' = (mem_step S s)\<lparr>
    hmem := (hmem s)(r \<mapsto> x\<lparr>ref_count := 1, mname := None, hnext := handles s\<rparr>), handles := Some r\<rparr>"
  have "r \<notin> set xs" using chain_distinct [OF c] by simp
  then have "\<exists>y. hmem s' a = Some y \<and> hnext y \<in> Some ` insert r (set xs)" if "a \<in> insert r (set xs)" for a
    using chain_next_in [OF c] that by (auto simp: s'_def)
  from find_link_closed [OF this, of "Some h" "Some r" "rounds S'" "Some r"] h
  have "find_link (rounds S') (Some r) (Some r) (Some h) s' = Inl OutOfFuel" by auto
  moreover have "handles s' = Some r" by (simp add: s'_def)
  ultimately have "lt_dlclose k S' V' (Some h) s' = Inl OutOfFuel" by (simp add: lt_dlclose.simps act_simps)
  then show ?thesis using open_it s'_def by blast
qed

theorem reopened_list_cyclic_witness:
  "\<exists>s'. lt_dlopen demo_os demo_code None demo_overclosed = Inr (Some 5, s') \<and>
     lt_dlclose 1 demo_os demo_code (Some 3) s' = Inl OutOfFuel"
proof -
  have h: "handles demo_overclosed = Some 5" by code_simp
  have p: "hmem demo_overclosed (mem_addr demo_os demo_overclosed) = None" by code_simp
  have "(case hmem demo_overclosed 5 of None \<Rightarrow> False
      | Some x \<Rightarrow> hnext x = None \<and> filename x = None \<and> ref_count x = -1)" by code_simp
  then obtain x where x: "hmem demo_overclosed 5 = Some x" "hnext x = None" "filename x = None" "ref_count x = -1"
    by (auto split: option.splits)
  have "chain (links (hmem demo_overclosed)) (handles demo_overclosed) ([] @ 5 # [])"
    by (simp add: h x links_Some)
  from reopened_list_cyclic [OF demo_mem_ok p this x(1,3) _ _ x(4), of 3] show ?thesis by simp
qed

section \<open>Closing\<close>

lemma unlinked_others:
  assumes "a \<noteq> r" and "xs \<noteq> [] \<longrightarrow> last xs \<noteq> r \<and> hmem s (last xs) \<noteq> None"
  shows "map_option (hnext_update (\<lambda>_. None)) (hmem (unlinked xs r s) a) =
    map_option (hnext_update (\<lambda>_. None)) (hmem s a)"
  using assms by (auto simp: unlinked_def Let_def)

lemma dlopen_close_run:
  "call_close (with_backends S no_code) dlopen_close_at d m s =
     (case os_dlclose S m (plat s) of (r, k) \<Rightarrow>
        if r = 0 then Inr (0, s\<lparr>plat := k\<rparr>)
        else case os_dlerror S k of (msg, k') \<Rightarrow>
          Inr (1, s\<lparr>plat := k', last_error := map_option Diagnostic msg\<rparr>))"
  by (simp add: with_backends_def code_at dlopen_vm_close_def dl_set_error_def act_simps sys_run split: prod.splits)

text \<open>
  C32. Closing a module that the loader for \<^verbatim>\<open>dlopen\<close> has opened always returns. With other users, or
  resident, the module only loses a user, and closing a resident one is an error; with the last user
  the handle leaves the list and the memory, and every other handle keeps everything but its link.
\<close>

theorem module_closed:
  assumes ok: "alloc_ok S al" and m: "mods al {} as s" and n: "length as \<le> rounds S" and r: "r \<in> set as"
    and x: "hmem s r = Some x" and v: "vtable x = Some v" "vmem s v = Some vt" "module_close vt = Some dlopen_close_at"
    and c: "closable (Some r) s"
  shows "\<exists>e s'. lt_dlclose k S (with_backends S no_code) (Some r) s = Inr (e, s') \<and>
    (if is_resident x \<or> 1 < ref_count x
     then mods al {} as s' \<and> e = (if is_resident x then 1 else 0) \<and>
       hmem s' = (hmem s)(r \<mapsto> x\<lparr>ref_count := ref_count x - 1\<rparr>)
     else mods al {} (remove1 r as) s' \<and> e = (if fst (os_dlclose S (hmodule x) (plat s)) = 0 then 0 else 1) \<and>
       hmem s' r = None \<and> (\<forall>a. a = r \<or> map_option (hnext_update (\<lambda>_. None)) (hmem s' a) =
         map_option (hnext_update (\<lambda>_. None)) (hmem s a)))"
proof -
  let ?V = "with_backends S no_code"
  note f = link_found_rounds [OF m n, of "Some r"]
  have ent: "entry_ok s x" using mods_entry [OF m r] x by auto
  show ?thesis
  proof (cases "1 < ref_count x \<or> is_resident x")
    case True
    have "mods al {} as (s\<lparr>hmem := (hmem s)(r \<mapsto> x\<lparr>ref_count := ref_count x - 1\<rparr>)\<rparr>)"
      by (rule mods_update_entry [OF m x r])
        (use True ent c x in \<open>auto simp: entry_ok_def loaded_def closable_def\<close>)
    then show ?thesis using close_shared [OF m f r x True, of k ?V] True by (auto simp: Let_def)
  next
    case False
    then have one: "ref_count x = 1" "\<not> is_resident x" using ent by (auto simp: entry_ok_def)
    obtain xs ys where as: "as = xs @ r # ys" "r \<notin> set xs" using split_list_first [OF r] by blast
    define u where "u = unlinked xs r s"
    have pl: "plat u = plat s" by (simp add: u_def unlinked_def Let_def)
    obtain e s1 where run: "call_close ?V dlopen_close_at (dlloader_data vt) (hmodule x) u = Inr (e, s1)"
        "e = (if fst (os_dlclose S (hmodule x) (plat s)) = 0 then 0 else 1)" "hmem s1 = hmem u"
    proof -
      obtain q k' where q: "os_dlclose S (hmodule x) (plat s) = (q, k')" by fastforce
      obtain msg k2 where "os_dlerror S k' = (msg, k2)" by fastforce
      then show ?thesis using that by (cases "q = 0") (simp_all add: dlopen_close_run pl q)
    qed
    have close: "lt_dlclose k S ?V (Some r) s = Inr (e, s1\<lparr>hmem := (hmem s1)(r := None)\<rparr>)"
      using backends.close_last [OF m [unfolded as(1)] f [unfolded as(1)] x one v, of k] run(1) by (simp add: u_def)
    have "quiet_step S u s1" using backends.close_quiet run(1) by (fastforce simp: quiet_def)
    then have "mods al {r} (xs @ ys) s1"
      using mods_quiet [OF ok mods_unlink [OF m [unfolded as(1)] x one(1)]] by (simp add: u_def)
    from mods_free_pending [OF this] have "mods al {} (remove1 r as) (s1\<lparr>hmem := (hmem s1)(r := None)\<rparr>)"
      using as by (simp add: remove1_append)
    moreover have "xs \<noteq> [] \<longrightarrow> last xs \<noteq> r \<and> hmem s (last xs) \<noteq> None"
      using as mods_entry [OF m, of "last xs"] by (metis UnCI last_in_set option.distinct(1) set_append)
    ultimately show ?thesis using close run(2,3) unlinked_others [of _ r xs s] False by (auto simp: u_def)
  qed
qed

theorem module_closed_witness:
  "\<exists>s'. lt_dlclose 1 demo_os demo_code (Some 9) demo_module = Inr (0, s') \<and> hmem s' 9 = None"
proof -
  have h: "handles demo_module = Some 9" by code_simp
  have "(case hmem demo_module 9 of None \<Rightarrow> False | Some x \<Rightarrow> hnext x = None \<and> vtable x = Some 3 \<and>
      ref_count x = 1 \<and> \<not> is_resident x \<and> hmodule x = Some 900)" by code_simp
  then obtain x where x: "hmem demo_module 9 = Some x" "hnext x = None" "vtable x = Some 3" "ref_count x = 1"
      "\<not> is_resident x" "hmodule x = Some 900"
    by (auto split: option.splits)
  have ok: "fst (os_dlclose demo_os q k) = 0" "Suc 0 \<le> rounds demo_os" for q k by (simp_all add: demo_os_def)
  have vt: "vmem demo_module 3 = Some (dlopen_fill None zero_vtable)" by code_simp
  have "list_ok demo_al demo_up" unfolding list_ok_mods
    by (intro exI [of _ "[]"]) (simp add: mods_def demo_up_def demo_boot_def)
  then obtain as where m: "mods demo_al {} as demo_module"
    using backends.call_keeps_list [OF demo_module_call [unfolded demo_code_def] demo_alloc_ok]
    by (auto simp: list_ok_mods)
  then have "as = [9]" using x(1,2) h by (auto simp: mods_def chain_Some links_Some)
  with module_closed [OF demo_alloc_ok m _ _ x(1,3) vt, of 1] x show ?thesis
    by (auto simp: demo_code_def dlopen_fill_def closable_def ok)
qed

section \<open>Symbols\<close>

text \<open>
  C35. Looking up a symbol never writes past its name buffer. The name with the module's prefix is asked
  for first; only when the loader has no such symbol the plain name is, with the error message of
  before, and the answer to that is the result.
\<close>

theorem symbol_lookup:
  assumes mem: "mem_ok S" and h: "hmem s h = Some x" and v: "vtable x = Some v" "vmem s v = Some vt"
    and f: "find_sym vt = Some f" and nm: "mname x = Some name"
  shows "lt_dlsym S V (Some h) (Some sy) s =
    (let pre = text_of (sym_prefix vt);
         s0 = (if length sy + length pre + length name + 5 < 128 then s else mem_step S s);
         ask = (\<lambda>n. call_sym V f (dlloader_data vt) (hmodule x) (pre @ n)) in
     bindE (ask (name @ ''_LTX_'' @ sy) s0) (\<lambda>(address, s1).
       if address \<noteq> None then Inr (address, s1) else ask sy (s1\<lparr>last_error := last_error s\<rparr>)))"
proof -
  define pre where "pre = text_of (sym_prefix vt)"
  define len where "len = length sy + length pre + length name"
  define call where "call = call_sym V f (dlloader_data vt) (hmodule x)"
  have fits: "len + 5 < n \<Longrightarrow> in_buffer n (pre @ name @ ''_LTX_'' @ sy) = Inr (pre @ name @ ''_LTX_'' @ sy)"
      "len + 5 < n \<Longrightarrow> in_buffer n (pre @ sy) = Inr (pre @ sy)" for n
    by (simp_all add: in_buffer_def len_def)
  note run = lt_dlsym_def act_simps Let_def LT_SYMBOL_OVERHEAD_def LT_SYMBOL_LENGTH_def malloc_run [OF mem]
  note names = pre_def [symmetric] call_def [symmetric]
  show ?thesis
  proof (cases "len + 5 < 128")
    case True
    then show ?thesis unfolding names using h v f nm fits [of 128]
      by (cases "call (pre @ name @ ''_LTX_'' @ sy) s") (auto simp: run names len_def)
  next
    case False
    then show ?thesis unfolding names using h v f nm fits [of "len + 6"]
      by (cases "call (pre @ name @ ''_LTX_'' @ sy) (mem_step S s)") (auto simp: run names len_def add.commute)
  qed
qed

theorem symbol_lookup_witness:
  "lt_dlsym demo_os demo_code (Some 9) (Some ''go'') demo_module =
     Inr (Some 73, demo_module)"
proof -
  have "(case hmem demo_module 9 of None \<Rightarrow> False | Some x \<Rightarrow> vtable x = Some 3 \<and> mname x = Some ''a'' \<and>
      hmodule x = Some 900)" by code_simp
  then obtain x where x: "hmem demo_module 9 = Some x" "vtable x = Some 3" "mname x = Some ''a''" "hmodule x = Some 900"
    by (auto split: option.splits)
  have vt: "vmem demo_module 3 = Some (dlopen_fill None zero_vtable)" by code_simp
  have f: "find_sym (dlopen_fill None zero_vtable) = Some dlopen_sym_at" "sym_prefix (dlopen_fill None zero_vtable) = None"
      "dlloader_data (dlopen_fill None zero_vtable) = None"
    by (simp_all add: dlopen_fill_def zero_vtable_def)
  have ask: "call_sym demo_code dlopen_sym_at None (Some 900) ''a_LTX_go'' demo_module = Inr (Some 73, demo_module)"
    by (simp add: demo_code_def with_backends_def code_at dlopen_vm_sym_def act_simps sys_run) (simp add: demo_os_def)
  show ?thesis
    using symbol_lookup [OF demo_mem_ok x(1,2) vt f(1) x(3), of demo_code "''go''"] ask x(4) f
    by simp
qed

section \<open>Search paths\<close>

text \<open>
  C33. Walking through a search path is the same as calling the callback, in order and until it does
  not return 0, on the names made of the path's nonempty fields, each with its runs of slashes made
  one and its last slashes cut, and the name looked for; this holds for every path in which some
  directory is left and none is made of slashes only.
\<close>

theorem search_path_walk:
  assumes "mem_ok S" and "EOS \<notin> set path" and "dirs path \<noteq> []" and "[] \<notin> set (dirs path)"
  shows "bindE (foreach_dirinpath S (Some path) (Some base) (\<lambda>f d. retS (g f d)) d s) (\<lambda>(r, s'). Inr r) =
    Inr (walk g (map (in_dir base) (dirs path)) d)"
  using foreach_dirinpath_walk [OF assms, of "Some base" g d s] by auto

theorem search_path_walk_witness:
  "bindE (foreach_dirinpath demo_os (Some '':/usr//lib/::/m:'') (Some ''x'') (\<lambda>f d. retS (if f = ''/m/x'' then 1 else 0, f # d)) [] demo_up)
     (\<lambda>(r, s'). Inr r) = Inr (1, [''/m/x'', ''/usr/lib/x''])"
proof -
  have "dirs '':/usr//lib/::/m:'' = [''/usr/lib'', ''/m'']" by code_simp
  then show ?thesis
    using search_path_walk [OF demo_mem_ok, of "'':/usr//lib/::/m:''" "''x''" "\<lambda>f d. (if f = ''/m/x'' then 1 else 0, f # d)" "[]" demo_up]
    by (simp add: in_dir_def)
qed

text \<open>
  C36. Listing a directory for a callback: it gets each name once, in ascending order, the names that
  do not start with a dot, with the directory in front and without version numbers and extension.
\<close>

theorem directory_listing:
  assumes mem: "mem_ok S" and dir: "dirname \<noteq> []" "last dirname \<noteq> SLASH" "EOS \<notin> set dirname"
    and rd: "os_readdir S dirname (plat s) = (Some names, k)" and ok: "\<forall>n \<in> set names. EOS \<notin> set n"
  shows "\<exists>ws s'. foreachfile_callback S (\<lambda>f d. retS (g f d)) dirname d s = Inr (walk g ws d, s') \<and>
    ascending ws \<and> distinct ws \<and> set ws = stem dirname ` {n \<in> set names. take 1 n \<noteq> ''.''}"
proof -
  have asc: "ascending (listing dirname names [])" by (rule listing_ascending) (simp add: ascending_def)
  moreover have "set (listing dirname names []) = stem dirname ` {n \<in> set names. take 1 n \<noteq> ''.''}"
    by (simp add: listing_set)
  ultimately show ?thesis using foreachfile_run [OF mem dir rd ok, of g d] ascending_distinct [OF asc] by blast
qed

theorem directory_listing_witness:
  "\<exists>ws s'. foreachfile_callback demo_os (\<lambda>f d. retS (0, d @ [f])) ''/m'' [] demo_up = Inr (walk (\<lambda>f d. (0, d @ [f])) ws [], s') \<and>
     ascending ws \<and> set ws = {''/m/a'', ''/m/b''}"
proof -
  let ?ns = "[''b.so.1.2'', ''.'', ''a.so'', ''a.la'']"
  have rd: "os_readdir demo_os ''/m'' (plat demo_up) = (Some ?ns, plat demo_up)" by (simp add: demo_os_def)
  have st: "stem ''/m'' ''b.so.1.2'' = ''/m/b''" "stem ''/m'' ''a.so'' = ''/m/a''" "stem ''/m'' ''a.la'' = ''/m/a''"
    by code_simp+
  have "{n \<in> set ?ns. take 1 n \<noteq> ''.''} = {''b.so.1.2'', ''a.so'', ''a.la''}" by auto
  then have "stem ''/m'' ` {n \<in> set ?ns. take 1 n \<noteq> ''.''} = {''/m/a'', ''/m/b''}" using st by (simp add: insert_commute)
  then obtain ws s' where
    "foreachfile_callback demo_os (\<lambda>f d. retS (0, d @ [f])) ''/m'' [] demo_up = Inr (walk (\<lambda>f d. (0, d @ [f])) ws [], s')"
    "ascending ws" "set ws = {''/m/a'', ''/m/b''}"
    using directory_listing [OF demo_mem_ok _ _ _ rd, of "\<lambda>f d. (0, d @ [f])" "[]"] by auto
  then show ?thesis by blast
qed

text \<open>
  C37. The root directory, or any path of slashes and colons only, is lost when it is made canonical: as
  the search path it leaves an empty path, to which no directory can be added any more; adding it
  to the search path aborts; and searching it for a file reads in front of the name buffer.
\<close>

theorem root_directory_lost:
  assumes mem: "mem_ok S" and p: "only_separators path" and d: "dir \<noteq> []" "canon_loop dir [] \<noteq> []" and b: "b \<noteq> []"
  shows "(\<exists>s1. lt_dlsetsearchpath S (Some path) s = Inr (0, s1) \<and> user_search_path s1 = Some [] \<and>
      (\<exists>s2. lt_dladdsearchdir S (Some dir) s1 = Inr (0, s2) \<and> user_search_path s2 = Some [])) \<and>
    lt_dladdsearchdir S (Some path) s = Inl AssertFailed \<and>
    foreach_dirinpath S (Some path) (Some b) m d0 s = Inl OutOfBounds"
proof -
  have c: "canon_loop path [] = []" "path \<noteq> []" using p canon_separators by (auto simp: only_separators_def)
  obtain s1 where s1: "lt_dlsetsearchpath S (Some path) s = Inr (0, s1)" "user_search_path s1 = Some []"
    by (simp add: lt_dlsetsearchpath_def act_simps c canonicalize_run [OF mem] set_user_path_def)
  obtain s2 where "lt_dlpath_insertdir S (Some []) None dir s1 = Inr ((0, Some []), s2)"
    using add_to_empty [OF mem d] by blast
  then have "lt_dladdsearchdir S (Some dir) s1 = Inr (0, s2\<lparr>user_search_path := Some []\<rparr>)"
    using d(1) s1(2) by (simp add: lt_dladdsearchdir_def act_simps set_user_path_def)
  moreover have "lt_dladdsearchdir S (Some path) s = Inl AssertFailed"
    using c by (simp add: lt_dladdsearchdir_def lt_dlpath_insertdir_def act_simps canonicalize_run [OF mem])
  ultimately show ?thesis using s1 foreach_separators [OF mem p b, of m d0 s] by fastforce
qed

theorem root_directory_lost_witness:
  "lt_dladdsearchdir demo_os (Some ''/'') demo_up = Inl AssertFailed"
proof -
  have "only_separators ''/''" "canon_loop ''/m'' [] \<noteq> []" by (simp_all add: only_separators_def Let_def)
  from root_directory_lost [OF demo_mem_ok this(1) _ this(2), of "''x''" demo_up "\<lambda>f d. retS (0, d)" "0 :: nat"]
  show ?thesis by blast
qed

section \<open>The generalised list\<close>

text \<open>
  C38. Merging two disjoint chains relinks their items into one chain in the order of the merge of the
  two lists, with exactly the items of both, and changes what no item carries; for an order that is total
  and transitive and two sorted chains the result is sorted. But sorting any list, whatever its order and
  the comparison, does not end when the list has an item: a list of one item is split into itself and the
  empty list, and sorted again.
\<close>

theorem merge_and_sort:
  assumes "chain h p as" and "chain h q bs" and "distinct (as @ bs)" and "length as + length bs \<le> n"
  shows "(\<exists>r h' cs. slist_sort_merge n cmp p q h = Inr (r, h') \<and> chain h' r cs \<and> same_data h h' \<and>
      cs = merge_lists (item_le cmp h) as bs \<and> mset cs = mset as + mset bs \<and>
      ((\<forall>a b. cmp a b \<le> 0 \<or> cmp b a \<le> 0) \<and> (\<forall>a b c. cmp a b \<le> 0 \<and> cmp b c \<le> 0 \<longrightarrow> cmp a c \<le> 0) \<and>
        sorted_wrt (item_le cmp h) as \<and> sorted_wrt (item_le cmp h) bs \<longrightarrow> sorted_wrt (item_le cmp h) cs)) \<and>
    (as = [] \<or> (\<forall>k. slist_sort k cmp p h = Inl OutOfFuel))"
proof
  let ?cs = "merge_lists (item_le cmp h) as bs"
  obtain r h' where run: "slist_sort_merge n cmp p q h = Inr (r, h')" "chain h' r ?cs" "same_data h h'"
    using merge_loop_ok [OF assms(1,2), of None None "[]" n cmp] assms(3,4)
    by (auto simp: slist_sort_merge_def linked_def)
  have "sorted_wrt (item_le cmp h) ?cs"
    if "(\<forall>a b. cmp a b \<le> 0 \<or> cmp b a \<le> 0) \<and> (\<forall>a b c. cmp a b \<le> 0 \<and> cmp b c \<le> 0 \<longrightarrow> cmp a c \<le> 0) \<and>
      sorted_wrt (item_le cmp h) as \<and> sorted_wrt (item_le cmp h) bs"
  proof (rule sorted_merge_lists)
    show "item_le cmp h a b \<or> item_le cmp h b a" for a b using conjunct1 [OF that] unfolding item_le_def by blast
    show "item_le cmp h a b \<Longrightarrow> item_le cmp h b c \<Longrightarrow> item_le cmp h a c" for a b c
      using that unfolding item_le_def by blast
  qed (use that in blast)+
  with run show "\<exists>r h' cs. slist_sort_merge n cmp p q h = Inr (r, h') \<and> chain h' r cs \<and> same_data h h' \<and>
      cs = merge_lists (item_le cmp h) as bs \<and> mset cs = mset as + mset bs \<and>
      ((\<forall>a b. cmp a b \<le> 0 \<or> cmp b a \<le> 0) \<and> (\<forall>a b c. cmp a b \<le> 0 \<and> cmp b c \<le> 0 \<longrightarrow> cmp a c \<le> 0) \<and>
        sorted_wrt (item_le cmp h) as \<and> sorted_wrt (item_le cmp h) bs \<longrightarrow> sorted_wrt (item_le cmp h) cs)"
    by (intro exI [of _ r] exI [of _ h'] exI [of _ ?cs] conjI impI) (assumption | simp add: mset_merge_lists)+
  show "as = [] \<or> (\<forall>k. slist_sort k cmp p h = Inl OutOfFuel)"
  proof (cases as)
    case (Cons a cs)
    then have "p = Some a" "chain h (Some a) (a # cs)" using assms(1) by auto
    then show ?thesis using slist_sort_never by blast
  qed simp
qed

definition demo_items :: "int sheap" where
  "demo_items = [1 \<mapsto> \<lparr>nxt = Some 2, userdata = 10\<rparr>, 2 \<mapsto> \<lparr>nxt = None, userdata = 30\<rparr>,
     3 \<mapsto> \<lparr>nxt = None, userdata = 20\<rparr>]"

theorem merge_and_sort_witness:
  "(\<exists>r h'. slist_sort_merge 3 (\<lambda>a b. a - b) (Some 1) (Some 3) demo_items = Inr (r, h') \<and> chain h' r [1, 3, 2]) \<and>
   slist_sort 100 (\<lambda>a b. a - b) (Some 1) demo_items = Inl OutOfFuel"
proof -
  have "merge_lists (item_le (\<lambda>a b. a - b) demo_items) [1, 2] [3] = [1, 3, 2]"
    by (simp add: item_le_def demo_items_def)
  moreover have "chain demo_items (Some 1) [1, 2]" "chain demo_items (Some 3) [3]"
    by (simp_all add: demo_items_def)
  ultimately have m: "merge_lists (item_le (\<lambda>a b. a - b) demo_items) [1, 2] [3] = [1, 3, 2]"
      "chain demo_items (Some 1) [1, 2]" "chain demo_items (Some 3) [3]" by simp_all
  have "distinct ([1, 2] @ [3 :: nat])" "length [1, 2 :: nat] + length [3 :: nat] \<le> 3" by simp_all
  from merge_and_sort [OF m(2,3) this, of "\<lambda>a b. a - b"] show ?thesis unfolding m(1) by blast
qed

end
