(* ===== verification/Ltdl_Systems.thy ===== *)
theory Ltdl_Systems
  imports Ltdl_Backends "HOL-Library.Word"
begin

text \<open>
  The loaders of libltdl for other systems: HP-UX (\<^verbatim>\<open>loaders/shl_load.c\<close>), GNU DLD
  (\<^verbatim>\<open>loaders/dld_link.c\<close>), BeOS (\<^verbatim>\<open>loaders/load_add_on.c\<close>) and Windows (\<^verbatim>\<open>loaders/loadlibrary.c\<close>, in the
  version without Cygwin), and the directory streams for Windows (\<^verbatim>\<open>lt__dirent.c\<close>). The calls of each
  system are a record of functions.
\<close>

section \<open>Tables of loaders\<close>

record loader_code =
  code_open :: nat
  code_close :: nat
  code_sym :: nat
  code_exit :: nat

definition fill_system :: "string \<Rightarrow> loader_code \<Rightarrow> nat option \<Rightarrow> lt_dlvtable \<Rightarrow> lt_dlvtable" where
  "fill_system name c data v = v\<lparr>vt_name := Some name,
     module_open := Some (code_open c), module_close := Some (code_close c), find_sym := Some (code_sym c),
     dlloader_exit := Some (code_exit c), dlloader_data := data, priority := LT_DLLOADER_APPEND\<rparr>"

definition set_statics :: "(system_statics \<Rightarrow> system_statics) \<Rightarrow> ('k, unit) lt" where
  "set_statics f = modify (statics_update f)"

text \<open>The code with the functions of a loader at their addresses.\<close>

definition with_loader ::
    "loader_code \<Rightarrow> (string option \<Rightarrow> ('k, nat option) lt) \<Rightarrow> (nat option \<Rightarrow> ('k, int) lt) \<Rightarrow>
     (nat option \<Rightarrow> string \<Rightarrow> ('k, nat option) lt) \<Rightarrow> ('k, int) lt \<Rightarrow> 'k lt_code \<Rightarrow> 'k lt_code" where
  "with_loader c vm_open vm_close vm_sym vl_exit V = V\<lparr>
     call_open := (\<lambda>f data fname advise. if f = code_open c then vm_open fname else call_open V f data fname advise),
     call_close := (\<lambda>f data module. if f = code_close c then vm_close module else call_close V f data module),
     call_sym := (\<lambda>f data module name. if f = code_sym c then vm_sym module name else call_sym V f data module name),
     call_loader := (\<lambda>f data. if f = code_exit c then vl_exit else call_loader V f data)\<rparr>"

section \<open>HP-UX\<close>

text \<open>
  \<^verbatim>\<open>shl_findsym\<close> takes a handle, which it sets when it is null, and gives the address it has written,
  if it has.
\<close>

record 'k shl_api =
  shl_load :: "string option \<Rightarrow> 'k \<Rightarrow> nat option \<times> 'k"       \<comment> \<open>with \<^verbatim>\<open>LT_BIND_FLAGS\<close>\<close>
  shl_unload :: "nat option \<Rightarrow> 'k \<Rightarrow> int \<times> 'k"
  shl_findsym :: "nat option \<Rightarrow> string \<Rightarrow> 'k \<Rightarrow> (int \<times> nat option \<times> nat option) \<times> 'k"

definition shl_code :: loader_code where
  "shl_code = \<lparr>code_open = 21, code_close = 22, code_sym = 23, code_exit = 25\<rparr>"

definition shl_get_vtable :: "'k lt_os \<Rightarrow> nat option \<Rightarrow> ('k, nat option) lt" where
  "shl_get_vtable S = make_vtable S (\<lambda>s. shl_vtable (statics s))
     (\<lambda>v. statics_update (shl_vtable_update (\<lambda>_. v))) (fill_system ''lt_shl_load'' shl_code)"

definition shl_vl_exit :: "('k, int) lt" where
  "shl_vl_exit = andS (set_statics (shl_vtable_update (\<lambda>_. None))) (retS 0)"

definition shl_vm_open :: "'k shl_api \<Rightarrow> string option \<Rightarrow> ('k, nat option) lt" where
  "shl_vm_open H fname =
     bindS (sys (shl_load H fname)) (\<lambda>_.
     bindS (asks (\<lambda>s. shl_self (statics s))) (\<lambda>self.
     andS (if self = None then
         bindS (sys (shl_findsym H self ''main'')) (\<lambda>(_, self', _). set_statics (shl_self_update (\<lambda>_. self')))
       else retS ())
     (if fname = None then asks (\<lambda>s. shl_self (statics s))
      else bindS (sys (shl_load H fname)) (\<lambda>module.
        andS (if module = None then set_error LT_ERROR_CANNOT_OPEN else retS ()) (retS module)))))"

definition shl_vm_close :: "'k shl_api \<Rightarrow> nat option \<Rightarrow> ('k, int) lt" where
  "shl_vm_close H module =
     (if module = None then retS 0
      else bindS (sys (shl_unload H module)) (\<lambda>r.
        if r \<noteq> 0 then andS (set_error LT_ERROR_CANNOT_CLOSE) (retS 1) else retS 0))"

definition shl_vm_sym :: "'k shl_api \<Rightarrow> nat option \<Rightarrow> string \<Rightarrow> ('k, nat option) lt" where
  "shl_vm_sym H module name =
     (if module = None then andS (set_error LT_ERROR_INVALID_HANDLE) (retS None)
      else bindS (sys (shl_findsym H module name)) (\<lambda>(r, _, address).
        andS (if r = 0 \<and> address = None then set_error LT_ERROR_SYMBOL_NOT_FOUND else retS ()) (retS address)))"

definition with_shl :: "'k shl_api \<Rightarrow> 'k lt_code \<Rightarrow> 'k lt_code" where
  "with_shl H = with_loader shl_code (shl_vm_open H) (shl_vm_close H) (shl_vm_sym H) shl_vl_exit"

section \<open>GNU DLD\<close>

text \<open>A module is a copy of its file name in memory.\<close>

record 'k dld_api =
  dld_link :: "string option \<Rightarrow> 'k \<Rightarrow> int \<times> 'k"
  dld_unlink_by_file :: "string option \<Rightarrow> 'k \<Rightarrow> int \<times> 'k"            \<comment> \<open>with the hard flag\<close>
  dld_get_func :: "string \<Rightarrow> 'k \<Rightarrow> nat option \<times> 'k"

definition dld_code :: loader_code where
  "dld_code = \<lparr>code_open = 31, code_close = 32, code_sym = 33, code_exit = 35\<rparr>"

definition dld_get_vtable :: "'k lt_os \<Rightarrow> nat option \<Rightarrow> ('k, nat option) lt" where
  "dld_get_vtable S = make_vtable S (\<lambda>s. dld_vtable (statics s))
     (\<lambda>v. statics_update (dld_vtable_update (\<lambda>_. v))) (fill_system ''lt_dld_link'' dld_code)"

definition dld_vl_exit :: "('k, int) lt" where
  "dld_vl_exit = andS (set_statics (dld_vtable_update (\<lambda>_. None))) (retS 0)"

definition set_name :: "nat \<Rightarrow> string option \<Rightarrow> ('k, unit) lt" where
  "set_name p name = set_statics (\<lambda>t. t\<lparr>dld_names := (dld_names t)(p := name)\<rparr>)"

text \<open>\<^verbatim>\<open>lt__strdup\<close> copies the terminator of a null string as well, from the null pointer.\<close>

definition dld_vm_open :: "'k lt_os \<Rightarrow> 'k dld_api \<Rightarrow> string option \<Rightarrow> ('k, nat option) lt" where
  "dld_vm_open S L fname =
     bindS (lt__malloc S) (\<lambda>module.
     andS (case module of None \<Rightarrow> retS ()
       | Some p \<Rightarrow> bindS (deref NullDeref fname) (\<lambda>f. set_name p (Some f)))
     (bindS (sys (dld_link L fname)) (\<lambda>r.
        if r \<noteq> 0 then andS (set_error LT_ERROR_CANNOT_OPEN)
          (andS (case module of None \<Rightarrow> retS () | Some p \<Rightarrow> set_name p None) (retS None))
        else retS module)))"

definition dld_vm_close :: "'k dld_api \<Rightarrow> nat option \<Rightarrow> ('k, int) lt" where
  "dld_vm_close L module =
     bindS (case module of None \<Rightarrow> retS None
       | Some p \<Rightarrow> bindS (asks (\<lambda>s. dld_names (statics s) p)) (\<lambda>n. bindS (deref BadPointer n) (\<lambda>name. retS (Some name)))) (\<lambda>name.
     bindS (sys (dld_unlink_by_file L name)) (\<lambda>r.
        if r \<noteq> 0 then andS (set_error LT_ERROR_CANNOT_CLOSE) (retS 1)
        else andS (case module of None \<Rightarrow> retS () | Some p \<Rightarrow> set_name p None) (retS 0)))"

definition dld_vm_sym :: "'k dld_api \<Rightarrow> nat option \<Rightarrow> string \<Rightarrow> ('k, nat option) lt" where
  "dld_vm_sym L module name =
     bindS (sys (dld_get_func L name)) (\<lambda>address.
       andS (if address = None then set_error LT_ERROR_SYMBOL_NOT_FOUND else retS ()) (retS address))"

definition with_dld :: "'k lt_os \<Rightarrow> 'k dld_api \<Rightarrow> 'k lt_code \<Rightarrow> 'k lt_code" where
  "with_dld S L = with_loader dld_code (dld_vm_open S L) (dld_vm_close L) (dld_vm_sym L) dld_vl_exit"

section \<open>BeOS\<close>

text \<open>
  \<^verbatim>\<open>get_image_symbol\<close> writes the address through its last argument, here the address of a variable or
  the null pointer; it gives its status and what it has written.
\<close>

record 'k be_api =
  load_add_on :: "string \<Rightarrow> 'k \<Rightarrow> int \<times> 'k"
  unload_add_on :: "int \<Rightarrow> 'k \<Rightarrow> int \<times> 'k"
  get_next_image_info :: "'k \<Rightarrow> (int \<times> string) \<times> 'k"          \<comment> \<open>the status and the name of the first image\<close>
  get_image_symbol :: "int \<Rightarrow> string \<Rightarrow> nat option \<Rightarrow> 'k \<Rightarrow> (int \<times> nat option) \<times> 'k"
  B_OK :: int

definition add_on_code :: loader_code where
  "add_on_code = \<lparr>code_open = 41, code_close = 42, code_sym = 43, code_exit = 45\<rparr>"

definition add_on_get_vtable :: "'k lt_os \<Rightarrow> nat option \<Rightarrow> ('k, nat option) lt" where
  "add_on_get_vtable S = make_vtable S (\<lambda>s. add_on_vtable (statics s))
     (\<lambda>v. statics_update (add_on_vtable_update (\<lambda>_. v))) (fill_system ''lt_load_add_on'' add_on_code)"

definition add_on_vl_exit :: "('k, int) lt" where
  "add_on_vl_exit = andS (set_statics (add_on_vtable_update (\<lambda>_. None))) (retS 0)"

text \<open>A module is the number of an image, 0 for none.\<close>

fun image_id :: "nat option \<Rightarrow> int" where
  "image_id None = 0"
| "image_id (Some n) = int n"

definition add_on_vm_open :: "'k be_api \<Rightarrow> string option \<Rightarrow> ('k, nat option) lt" where
  "add_on_vm_open B fname =
     bindS (case fname of
         Some f \<Rightarrow> sys (load_add_on B f)
       | None \<Rightarrow> bindS (sys (get_next_image_info B)) (\<lambda>(status, name).
           if status = B_OK B then sys (load_add_on B name) else retS 0)) (\<lambda>image.
     if image \<le> 0 then andS (set_error LT_ERROR_CANNOT_OPEN) (retS None) else retS (Some (nat image)))"

definition add_on_vm_close :: "'k be_api \<Rightarrow> nat option \<Rightarrow> ('k, int) lt" where
  "add_on_vm_close B module =
     bindS (sys (unload_add_on B (image_id module))) (\<lambda>r.
       if r \<noteq> B_OK B then andS (set_error LT_ERROR_CANNOT_CLOSE) (retS 1) else retS 0)"

text \<open>The value of the variable is passed, not its address.\<close>

definition add_on_vm_sym :: "'k be_api \<Rightarrow> nat option \<Rightarrow> string \<Rightarrow> ('k, nat option) lt" where
  "add_on_vm_sym B module name =
     (let address = None in
      bindS (sys (get_image_symbol B (image_id module) name address)) (\<lambda>(status, written).
        if status \<noteq> B_OK B then andS (set_error LT_ERROR_SYMBOL_NOT_FOUND) (retS None)
        else retS address))"

definition with_add_on :: "'k be_api \<Rightarrow> 'k lt_code \<Rightarrow> 'k lt_code" where
  "with_add_on B = with_loader add_on_code (add_on_vm_open B) (add_on_vm_close B) (add_on_vm_sym B) add_on_vl_exit"

section \<open>Windows\<close>

record 'k win_api =
  MAX_PATH :: nat
  GetModuleFileName :: "nat \<Rightarrow> 'k \<Rightarrow> string \<times> 'k"            \<comment> \<open>what the buffer, empty before, holds after\<close>
  LoadLibrary :: "string \<Rightarrow> 'k \<Rightarrow> nat option \<times> 'k"
  FreeLibrary :: "nat option \<Rightarrow> 'k \<Rightarrow> bool \<times> 'k"
  GetProcAddress :: "nat option \<Rightarrow> string \<Rightarrow> 'k \<Rightarrow> nat option \<times> 'k"
  SetErrorMode :: "32 word \<Rightarrow> 'k \<Rightarrow> 32 word \<times> 'k"            \<comment> \<open>the mode before\<close>
  SEM_FAILCRITICALERRORS :: "32 word"
  FindFirstFile :: "string \<Rightarrow> 'k \<Rightarrow> (nat option \<times> string) \<times> 'k" \<comment> \<open>\<open>None\<close> is \<^verbatim>\<open>INVALID_HANDLE_VALUE\<close>\<close>
  FindNextFile :: "nat \<Rightarrow> 'k \<Rightarrow> string option \<times> 'k"
  FindClose :: "nat \<Rightarrow> 'k \<Rightarrow> 'k"

definition loadlibrary_code :: loader_code where
  "loadlibrary_code = \<lparr>code_open = 51, code_close = 52, code_sym = 53, code_exit = 55\<rparr>"

definition loadlibrary_get_vtable :: "'k lt_os \<Rightarrow> nat option \<Rightarrow> ('k, nat option) lt" where
  "loadlibrary_get_vtable S data =
     bindS (asks (\<lambda>s. loadlibrary_vtable (statics s))) (\<lambda>v0.
     bindS (if v0 = None then
         bindS (new_vtable S (\<lambda>v. statics_update (loadlibrary_vtable_update (\<lambda>_. v)))) (\<lambda>v.
         bindS (lt_dlinterface_register S ''ltdl loadlibrary'' None) (\<lambda>i.
           andS (set_statics (loadlibrary_iface_update (\<lambda>_. i))) (retS v)))
       else retS v0) (fill_vtable (fill_system ''lt_loadlibrary'' loadlibrary_code) data))"

definition loadlibrary_vl_exit :: "('k, int) lt" where
  "loadlibrary_vl_exit = andS (set_statics (loadlibrary_vtable_update (\<lambda>_. None))) (retS 0)"

text \<open>The path for the system: a dot at the end keeps it from adding an extension; \<open>None\<close> when it is too long.\<close>

definition dotted :: "nat \<Rightarrow> string \<Rightarrow> string option" where
  "dotted m fname =
     (if length fname \<ge> m then None
      else if CHR ''.'' \<in> set fname then Some fname
      else if length fname + 1 \<ge> m then None
      else Some (fname @ ''.''))"

definition quiet_load :: "'k win_api \<Rightarrow> string \<Rightarrow> ('k, nat option) lt" where
  "quiet_load W wpath =
     bindS (sys (SetErrorMode W (SEM_FAILCRITICALERRORS W))) (\<lambda>errormode.
     bindS (sys (SetErrorMode W (or errormode (SEM_FAILCRITICALERRORS W)))) (\<lambda>_.
     bindS (sys (LoadLibrary W wpath)) (\<lambda>module.
     bindS (sys (SetErrorMode W errormode)) (\<lambda>_. retS module))))"

text \<open>The handle that holds the module already; a handle without one ends the search.\<close>

fun held_loop ::
    "nat \<Rightarrow> 'k lt_os \<Rightarrow> 'k lt_code \<Rightarrow> nat option \<Rightarrow> nat option \<Rightarrow> nat option \<Rightarrow> ('k, nat option) lt" where
  "held_loop n S V iface module cur =
     bindS (lt_dlhandle_iterate S V iface cur) (\<lambda>h. case h of None \<Rightarrow> retS None
       | Some r \<Rightarrow> bindS (handle_at r) (\<lambda>x.
           if hmodule x = None then retS None
           else if hmodule x = module then retS (Some r)
           else case n of 0 \<Rightarrow> fault OutOfFuel | Suc n' \<Rightarrow> held_loop n' S V iface module (Some r)))"

declare held_loop.simps [simp del]

definition loadlibrary_vm_open ::
    "'k lt_os \<Rightarrow> 'k lt_code \<Rightarrow> 'k win_api \<Rightarrow> string option \<Rightarrow> ('k, nat option) lt" where
  "loadlibrary_vm_open S V W fname =
     bindS (case fname of
         None \<Rightarrow> bindS (sys (GetModuleFileName W (MAX_PATH W))) (\<lambda>wpath. retS (Some wpath))
       | Some f \<Rightarrow> retS (dotted (MAX_PATH W) f)) (\<lambda>p. case p of
       None \<Rightarrow> andS (set_error LT_ERROR_CANNOT_OPEN) (retS None)
     | Some wpath \<Rightarrow>
         bindS (quiet_load W wpath) (\<lambda>module.
         bindS (asks (\<lambda>s. loadlibrary_iface (statics s))) (\<lambda>iface.
         bindS (held_loop (rounds S) S V iface module None) (\<lambda>cur.
           if cur \<noteq> None \<or> module = None then andS (set_error LT_ERROR_CANNOT_OPEN) (retS None)
           else retS module))))"

definition loadlibrary_vm_close :: "'k win_api \<Rightarrow> nat option \<Rightarrow> ('k, int) lt" where
  "loadlibrary_vm_close W module =
     bindS (sys (FreeLibrary W module)) (\<lambda>b.
       if \<not> b then andS (set_error LT_ERROR_CANNOT_CLOSE) (retS 1) else retS 0)"

definition loadlibrary_vm_sym :: "'k win_api \<Rightarrow> nat option \<Rightarrow> string \<Rightarrow> ('k, nat option) lt" where
  "loadlibrary_vm_sym W module name =
     bindS (sys (GetProcAddress W module name)) (\<lambda>address.
       andS (if address = None then set_error LT_ERROR_SYMBOL_NOT_FOUND else retS ()) (retS address))"

definition with_loadlibrary :: "'k lt_os \<Rightarrow> 'k win_api \<Rightarrow> 'k lt_code \<Rightarrow> 'k lt_code" where
  "with_loadlibrary S W V = with_loader loadlibrary_code (loadlibrary_vm_open S V W) (loadlibrary_vm_close W)
     (loadlibrary_vm_sym W) loadlibrary_vl_exit V"

section \<open>Directory streams on Windows\<close>

record dir_stream =
  hSearch :: "nat option"
  cFileName :: string
  firsttime :: bool
  d_name :: string                             \<comment> \<open>the buffer of the entry\<close>

text \<open>
  Opening: the path with a backslash, and again with a pattern for every file when the system does not
  find that. A stream is a value; what its buffer holds before the first entry is read by nobody.
\<close>

definition BACKSLASH :: char where "BACKSLASH = CHR 0x5C"

definition in_spec :: "'k lt_os \<Rightarrow> string \<Rightarrow> ('k, string option) lt" where
  "in_spec S path =
     bindS (asks (\<lambda>s. os_junk S LT_FILENAME_MAX (plat s))) (\<lambda>file_spec.
     bindS (lift (lt_strlcpy file_spec path LT_FILENAME_MAX)) (\<lambda>(n, file_spec).
       if n \<ge> LT_FILENAME_MAX then retS None
       else bindS (lift (lt_strlcat file_spec [BACKSLASH] LT_FILENAME_MAX)) (\<lambda>(n, file_spec).
         if n \<ge> LT_FILENAME_MAX then retS None else retS (Some file_spec))))"

definition win_opendir :: "'k lt_os \<Rightarrow> 'k win_api \<Rightarrow> string option \<Rightarrow> ('k, dir_stream option) lt" where
  "win_opendir S W path =
     bindS (deref AssertFailed path) (\<lambda>path.
     bindS (in_spec S path) (\<lambda>sp. case sp of None \<Rightarrow> retS None
       | Some file_spec \<Rightarrow>
         bindS (sys (os_malloc S)) (\<lambda>entry.
           if entry = None then retS None
           else bindS (sys (FindFirstFile W (c_str file_spec))) (\<lambda>(h, data).
             bindS (if h \<noteq> None then retS (h, data)
               else bindS (lift (lt_strlcat file_spec (BACKSLASH # ''*.*'') LT_FILENAME_MAX)) (\<lambda>(n, file_spec).
                 if n < LT_FILENAME_MAX then sys (FindFirstFile W (c_str file_spec)) else retS (h, data)))
             (\<lambda>(h, data). if h = None then retS None
               else bindS (asks (\<lambda>s. os_junk S LT_FILENAME_MAX (plat s))) (\<lambda>junk.
                 retS (Some \<lparr>hSearch = h, cFileName = data, firsttime = True, d_name = junk\<rparr>)))))))"

text \<open>An entry, when there is one, is the name in the buffer of the stream.\<close>

definition win_readdir :: "'k win_api \<Rightarrow> dir_stream option \<Rightarrow> ('k, string option \<times> dir_stream option) lt" where
  "win_readdir W entry =
     (case entry of None \<Rightarrow> retS (None, None)
      | Some e \<Rightarrow>
        bindS (if firsttime e then retS (Some (cFileName e))
          else bindS (deref BadPointer (hSearch e)) (\<lambda>h. sys (FindNextFile W h))) (\<lambda>data. case data of
            None \<Rightarrow> retS (None, Some e)
          | Some name \<Rightarrow>
              bindS (lift (lt_strlcpy (d_name e) name LT_FILENAME_MAX)) (\<lambda>(n, buf).
                let e' = e\<lparr>cFileName := name, firsttime := False, d_name := buf\<rparr> in
                retS (if n \<ge> LT_FILENAME_MAX then None else Some (c_str buf), Some e'))))"

definition win_closedir :: "'k win_api \<Rightarrow> dir_stream option \<Rightarrow> ('k, unit) lt" where
  "win_closedir W entry =
     bindS (deref AssertFailed entry) (\<lambda>e. bindS (deref BadPointer (hSearch e)) (\<lambda>h.
       sys (\<lambda>k. ((), FindClose W h k))))"

end
