(* ===== verification/Ltdl_Dyld.thy ===== *)
theory Ltdl_Dyld
  imports Ltdl_Systems
begin

text \<open>
  The loader of libltdl for Mac OS X (\<^verbatim>\<open>loaders/dyld.c\<close>), not compiled for PowerPC. What the dynamic
  linker offers is a record of functions; functions it may lack are looked up at the start and called
  through pointers. Images lie in the memory of the linker: a header followed by load commands, each
  with its size.
\<close>

datatype image_result =
    NSObjectFileImageFailure | NSObjectFileImageSuccess | NSObjectFileImageInappropriateFile
  | NSObjectFileImageArch | NSObjectFileImageFormat | NSObjectFileImageAccess

record 'k dyld_api =
  dyld_present :: "'k \<Rightarrow> bool \<times> 'k"
  dyld_func_lookup :: "string \<Rightarrow> 'k \<Rightarrow> nat option \<times> 'k"
  NSCreateObjectFileImageFromFile :: "string \<Rightarrow> 'k \<Rightarrow> (image_result \<times> nat option) \<times> 'k"
  NSLinkModule :: "nat option \<Rightarrow> string \<Rightarrow> 'k \<Rightarrow> nat option \<times> 'k"
  NSDestroyObjectFileImage :: "nat option \<Rightarrow> 'k \<Rightarrow> 'k"
  NSUnLinkModule :: "nat \<Rightarrow> bool \<Rightarrow> 'k \<Rightarrow> bool \<times> 'k"           \<comment> \<open>keep the memory mapped\<close>
  NSLookupSymbolInModule :: "nat \<Rightarrow> string \<Rightarrow> 'k \<Rightarrow> nat option \<times> 'k"
  NSIsSymbolNameDefined :: "string \<Rightarrow> 'k \<Rightarrow> bool \<times> 'k"
  NSAddressOfSymbol :: "nat \<Rightarrow> 'k \<Rightarrow> nat option \<times> 'k"
  NSNameOfModule :: "nat \<Rightarrow> 'k \<Rightarrow> string option"
  NSLinkEditError :: "'k \<Rightarrow> string option \<times> 'k"                \<comment> \<open>the message\<close>
  dyld_lookup_and_bind :: "string \<Rightarrow> 'k \<Rightarrow> nat option option \<times> 'k" \<comment> \<open>the address, when it is written\<close>
  dyld_image_count :: "'k \<Rightarrow> nat"
  dyld_get_image_name :: "nat \<Rightarrow> 'k \<Rightarrow> string"
  dyld_get_image_header :: "nat \<Rightarrow> 'k \<Rightarrow> nat"
  has_mod_term_func :: "nat option \<Rightarrow> 'k \<Rightarrow> bool"                \<comment> \<open>\<^verbatim>\<open>getsectbynamefromheader\<close>\<close>
  call_addimage :: "nat \<Rightarrow> string \<Rightarrow> 32 word \<Rightarrow> 'k \<Rightarrow> nat option \<times> 'k"
  call_image_symbol :: "nat \<Rightarrow> nat \<Rightarrow> string \<Rightarrow> 32 word \<Rightarrow> 'k \<Rightarrow> nat option \<times> 'k"
  call_image_symbol_p :: "nat \<Rightarrow> nat \<Rightarrow> string \<Rightarrow> 'k \<Rightarrow> bool \<times> 'k"
  call_module_export :: "nat \<Rightarrow> nat \<Rightarrow> 'k \<Rightarrow> 'k"
  header_magic :: "nat \<Rightarrow> 'k \<Rightarrow> 32 word"
  header_ncmds :: "nat \<Rightarrow> 'k \<Rightarrow> nat"
  command_cmd :: "nat \<Rightarrow> 'k \<Rightarrow> 32 word"
  command_size :: "nat \<Rightarrow> 'k \<Rightarrow> nat"
  command_name_offset :: "nat \<Rightarrow> 'k \<Rightarrow> nat"
  string_at :: "nat \<Rightarrow> 'k \<Rightarrow> string"
  sizeof_header :: nat
  LT_MAGIC :: "32 word"
  LC_ID_DYLIB :: "32 word"
  LC_LOAD_DYLIB :: "32 word"

definition LC_REQ_DYLD :: "32 word" where "LC_REQ_DYLD = 0x80000000"
definition LC_LOAD_WEAK_DYLIB :: "32 word" where "LC_LOAD_WEAK_DYLIB = or 0x18 LC_REQ_DYLD"
definition NSADDIMAGE_OPTION_RETURN_ON_ERROR :: "32 word" where "NSADDIMAGE_OPTION_RETURN_ON_ERROR = 0x1"
definition NSADDIMAGE_OPTION_WITH_SEARCHING :: "32 word" where "NSADDIMAGE_OPTION_WITH_SEARCHING = 0x2"
definition NSADDIMAGE_OPTION_RETURN_ONLY_IF_LOADED :: "32 word" where
  "NSADDIMAGE_OPTION_RETURN_ONLY_IF_LOADED = 0x4"
definition NSLOOKUPSYMBOLINIMAGE_OPTION_BIND_NOW :: "32 word" where "NSLOOKUPSYMBOLINIMAGE_OPTION_BIND_NOW = 0x1"
definition NSLOOKUPSYMBOLINIMAGE_OPTION_RETURN_ON_ERROR :: "32 word" where
  "NSLOOKUPSYMBOLINIMAGE_OPTION_RETURN_ON_ERROR = 0x4"
definition LT__SYMLOOKUP_OPTS :: "32 word" where
  "LT__SYMLOOKUP_OPTS = or NSLOOKUPSYMBOLINIMAGE_OPTION_BIND_NOW NSLOOKUPSYMBOLINIMAGE_OPTION_RETURN_ON_ERROR"

text \<open>The module \<^verbatim>\<open>(lt_module) -1\<close> is the program.\<close>

definition program_module :: nat where "program_module = 18446744073709551615"

section \<open>Errors\<close>

definition dylderror :: "'k dyld_api \<Rightarrow> err_msg \<Rightarrow> ('k, err_msg) lt" where
  "dylderror D errmsg =
     bindS (sys (NSLinkEditError D)) (\<lambda>errstr. retS (case errstr of
         None \<Rightarrow> errmsg
       | Some t \<Rightarrow> if t = [] then errmsg else Diagnostic t))"

definition dyld_set_error :: "'k dyld_api \<Rightarrow> lt_error \<Rightarrow> ('k, unit) lt" where
  "dyld_set_error D e = bindS (dylderror D (Table e)) (\<lambda>m. lt__set_last_error (Some m))"

section \<open>Images and their load commands\<close>

text \<open>\<^verbatim>\<open>strneq\<close> holds of strings that differ.\<close>

definition strneq :: "string \<Rightarrow> string \<Rightarrow> bool" where
  "strneq s1 s2 = (s1 \<noteq> s2)"

fun header_loop :: "(nat \<Rightarrow> string) \<Rightarrow> string \<Rightarrow> nat \<Rightarrow> nat option" where
  "header_loop name modname 0 = None"
| "header_loop name modname (Suc i) = (if strneq (name i) modname then Some i else header_loop name modname i)"

definition lt__nsmodule_get_header :: "'k dyld_api \<Rightarrow> nat \<Rightarrow> ('k, nat option) lt" where
  "lt__nsmodule_get_header D module = asks (\<lambda>s. let k = plat s in
     case NSNameOfModule D module k of None \<Rightarrow> None
     | Some modname \<Rightarrow> map_option (\<lambda>i. dyld_get_image_header D i k)
         (header_loop (\<lambda>i. dyld_get_image_name D i k) modname (dyld_image_count D k)))"

text \<open>The name in the last command that identifies a library.\<close>

fun instnam_loop :: "'k dyld_api \<Rightarrow> 'k \<Rightarrow> nat \<Rightarrow> nat \<Rightarrow> string option \<Rightarrow> string option" where
  "instnam_loop D k 0 lc result = result"
| "instnam_loop D k (Suc n) lc result = instnam_loop D k n (lc + command_size D lc k)
     (if command_cmd D lc k = LC_ID_DYLIB D then Some (string_at D (command_name_offset D lc k + lc) k) else result)"

definition lt__header_get_instnam :: "'k dyld_api \<Rightarrow> 'k \<Rightarrow> nat \<Rightarrow> string option" where
  "lt__header_get_instnam D k mh = instnam_loop D k (header_ncmds D mh k) (mh + sizeof_header D) None"

fun match_loop :: "(nat \<Rightarrow> string option) \<Rightarrow> string \<Rightarrow> nat \<Rightarrow> nat option" where
  "match_loop inst name 0 = None"
| "match_loop inst name (Suc i) =
     (case inst i of None \<Rightarrow> match_loop inst name i
      | Some instnam \<Rightarrow> if strneq instnam name then Some i else match_loop inst name i)"

definition lt__match_loadedlib :: "'k dyld_api \<Rightarrow> string \<Rightarrow> ('k, nat option) lt" where
  "lt__match_loadedlib D name = asks (\<lambda>s. let k = plat s in
     map_option (\<lambda>i. dyld_get_image_header D i k)
       (match_loop (\<lambda>i. lt__header_get_instnam D k (dyld_get_image_header D i k)) name (dyld_image_count D k)))"

text \<open>The symbol in the libraries an image is linked with, in their order.\<close>

fun linked_loop :: "'k dyld_api \<Rightarrow> string \<Rightarrow> nat \<Rightarrow> nat \<Rightarrow> ('k, nat option) lt" where
  "linked_loop D symname 0 lc = retS None"
| "linked_loop D symname (Suc n) lc =
     bindS (asks (\<lambda>s. command_cmd D lc (plat s))) (\<lambda>cmd.
     bindS (if cmd = LC_LOAD_DYLIB D \<or> cmd = LC_LOAD_WEAK_DYLIB then
         bindS (asks (\<lambda>s. string_at D (command_name_offset D lc (plat s) + lc) (plat s))) (\<lambda>name.
         bindS (lt__match_loadedlib D name) (\<lambda>mh1.
         bindS (case mh1 of Some h \<Rightarrow> retS (Some h)
           | None \<Rightarrow> bindS (asks (\<lambda>s. lt__addimage (statics s))) (\<lambda>f. bindS (deref NullDeref f) (\<lambda>f.
               sys (call_addimage D f name (or NSADDIMAGE_OPTION_RETURN_ONLY_IF_LOADED
                 (or NSADDIMAGE_OPTION_WITH_SEARCHING NSADDIMAGE_OPTION_RETURN_ON_ERROR)))))) (\<lambda>mh1.
           case mh1 of None \<Rightarrow> retS None
           | Some h \<Rightarrow> bindS (asks (\<lambda>s. lt__image_symbol (statics s))) (\<lambda>f. bindS (deref NullDeref f) (\<lambda>f.
               sys (call_image_symbol D f h symname LT__SYMLOOKUP_OPTS))))))
       else retS None) (\<lambda>symbol.
     if symbol \<noteq> None then retS symbol
     else bindS (asks (\<lambda>s. command_size D lc (plat s))) (\<lambda>size. linked_loop D symname n (lc + size))))"

definition lt__linkedlib_symbol :: "'k dyld_api \<Rightarrow> string \<Rightarrow> nat option \<Rightarrow> ('k, nat option) lt" where
  "lt__linkedlib_symbol D symname mh =
     bindS (asks (\<lambda>s. lt__image_symbol (statics s))) (\<lambda>f.
       if f = None then retS None
       else bindS (sys (NSIsSymbolNameDefined D symname)) (\<lambda>b.
         if \<not> b then retS None
         else bindS (deref NullDeref mh) (\<lambda>h.
           bindS (asks (\<lambda>s. header_ncmds D h (plat s))) (\<lambda>n. linked_loop D symname n (h + sizeof_header D)))))"

section \<open>The functions of the loader\<close>

definition dyld_vl_exit :: "('k, int) lt" where
  "dyld_vl_exit = andS (set_statics (dyld_vtable_update (\<lambda>_. None))) (retS 0)"

definition lookup_into :: "'k dyld_api \<Rightarrow> string \<Rightarrow> (nat option \<Rightarrow> system_statics \<Rightarrow> system_statics) \<Rightarrow> ('k, unit) lt" where
  "lookup_into D name store = bindS (sys (dyld_func_lookup D name)) (\<lambda>f. set_statics (store f))"

definition dyld_vl_init :: "'k lt_os \<Rightarrow> 'k dyld_api \<Rightarrow> ('k, int) lt" where
  "dyld_vl_init S D =
     bindS (asks (\<lambda>s. dyld_cannot_close (statics s))) (\<lambda>n.
       if n \<noteq> 0 then retS 0
       else bindS (sys (dyld_present D)) (\<lambda>b.
         if \<not> b then retS 1
         else andS (lookup_into D ''__dyld_NSAddImage'' (\<lambda>f. lt__addimage_update (\<lambda>_. f)))
          (andS (lookup_into D ''__dyld_NSLookupSymbolInImage'' (\<lambda>f. lt__image_symbol_update (\<lambda>_. f)))
          (andS (lookup_into D ''__dyld_NSIsSymbolNameDefinedInImage'' (\<lambda>f. lt__image_symbol_p_update (\<lambda>_. f)))
          (andS (lookup_into D ''__dyld_NSMakePrivateModulePublic'' (\<lambda>f. lt__module_export_update (\<lambda>_. f)))
          (bindS (lt_dladderror S (''can'' @ [CHR 39] @ ''t close a dylib'')) (\<lambda>e.
             andS (set_statics (dyld_cannot_close_update (\<lambda>_. e))) (retS 0))))))))"

definition dyld_vm_open :: "'k dyld_api \<Rightarrow> string option \<Rightarrow> ('k, nat option) lt" where
  "dyld_vm_open D fname =
     (case fname of None \<Rightarrow> retS (Some program_module)
      | Some f \<Rightarrow>
          bindS (sys (NSCreateObjectFileImageFromFile D f)) (\<lambda>(result, ofi).
          bindS (case result of
              NSObjectFileImageSuccess \<Rightarrow>
                bindS (sys (NSLinkModule D ofi f)) (\<lambda>module.
                andS (sys (\<lambda>k. ((), NSDestroyObjectFileImage D ofi k)))
                (andS (case module of None \<Rightarrow> retS ()
                   | Some m \<Rightarrow> bindS (asks (\<lambda>s. lt__module_export (statics s))) (\<lambda>g. bindS (deref NullDeref g) (\<lambda>g.
                       sys (\<lambda>k. ((), call_module_export D g m k)))))
                 (retS module)))
            | NSObjectFileImageInappropriateFile \<Rightarrow>
                bindS (asks statics) (\<lambda>t.
                  if lt__image_symbol_p t \<noteq> None \<and> lt__image_symbol t \<noteq> None then
                    bindS (deref NullDeref (lt__addimage t)) (\<lambda>g.
                      sys (call_addimage D g f NSADDIMAGE_OPTION_RETURN_ON_ERROR))
                  else retS None)
            | _ \<Rightarrow> retS None) (\<lambda>module.
            andS (if module = None then dyld_set_error D LT_ERROR_CANNOT_OPEN else retS ()) (retS module))))"

definition dyld_vm_close :: "'k dyld_api \<Rightarrow> nat option \<Rightarrow> ('k, int) lt" where
  "dyld_vm_close D module =
     (if module = Some program_module then retS 0
      else bindS (deref NullDeref module) (\<lambda>mh.
        bindS (asks (\<lambda>s. header_magic D mh (plat s))) (\<lambda>magic.
          if magic = LT_MAGIC D then
            bindS (asks (\<lambda>s. dyld_cannot_close (statics s))) (\<lambda>e. andS (lt_dlseterror e) (retS 1))
          else bindS (lt__nsmodule_get_header D mh) (\<lambda>h.
            bindS (asks (\<lambda>s. has_mod_term_func D h (plat s))) (\<lambda>keep.
            bindS (sys (NSUnLinkModule D mh keep)) (\<lambda>b.
              if \<not> b then andS (dyld_set_error D LT_ERROR_CANNOT_CLOSE) (retS 1) else retS 0))))))"

text \<open>The message is copied into a local array, and the last error becomes a pointer to that array.\<close>

definition dyld_vm_sym :: "'k dyld_api \<Rightarrow> nat option \<Rightarrow> string \<Rightarrow> ('k, nat option) lt" where
  "dyld_vm_sym D module name =
     (if module = Some program_module then
        bindS (sys (dyld_lookup_and_bind D name)) (\<lambda>address. deref UninitRead address)
      else bindS (deref NullDeref module) (\<lambda>mh.
        bindS (asks (\<lambda>s. header_magic D mh (plat s))) (\<lambda>magic.
        bindS (if magic = LT_MAGIC D then
            bindS (asks statics) (\<lambda>t. case (lt__image_symbol_p t, lt__image_symbol t) of
                (Some p, Some f) \<Rightarrow> bindS (sys (call_image_symbol_p D p mh name)) (\<lambda>b.
                    if b then sys (call_image_symbol D f mh name LT__SYMLOOKUP_OPTS) else retS None)
              | _ \<Rightarrow> retS None)
          else sys (NSLookupSymbolInModule D mh name)) (\<lambda>nssym.
        bindS (case nssym of Some y \<Rightarrow> retS (Some y)
          | None \<Rightarrow> bindS (dylderror D (Table LT_ERROR_SYMBOL_NOT_FOUND)) (\<lambda>_. lt__linkedlib_symbol D name (Some mh))) (\<lambda>nssym.
        case nssym of None \<Rightarrow> andS (lt__set_last_error (Some Dangling)) (retS None)
        | Some y \<Rightarrow> sys (NSAddressOfSymbol D y))))))"

definition dyld_code :: loader_code where
  "dyld_code = \<lparr>code_open = 61, code_close = 62, code_sym = 63, code_exit = 65\<rparr>"

definition dyld_init_at :: nat where "dyld_init_at = 64"

definition dyld_get_vtable :: "'k lt_os \<Rightarrow> nat option \<Rightarrow> ('k, nat option) lt" where
  "dyld_get_vtable S = make_vtable S (\<lambda>s. dyld_vtable (statics s))
     (\<lambda>v. statics_update (dyld_vtable_update (\<lambda>_. v)))
     (\<lambda>data v. (fill_system ''lt_dyld'' dyld_code data v)\<lparr>sym_prefix := Some ''_'', dlloader_init := Some dyld_init_at\<rparr>)"

definition with_dyld :: "'k lt_os \<Rightarrow> 'k dyld_api \<Rightarrow> 'k lt_code \<Rightarrow> 'k lt_code" where
  "with_dyld S D V =
     (let V1 = with_loader dyld_code (dyld_vm_open D) (dyld_vm_close D) (dyld_vm_sym D) dyld_vl_exit V
      in V1\<lparr>call_loader := (\<lambda>f data. if f = dyld_init_at then dyld_vl_init S D else call_loader V1 f data)\<rparr>)"

end
