(* ===== verification/Ltdl_Deplibs.thy ===== *)
theory Ltdl_Deplibs
  imports Ltdl_Open
begin

text \<open>
  \<^verbatim>\<open>load_deplibs\<close> of \<^verbatim>\<open>ltdl.c\<close> for systems whose loader does not load the dependencies of a module: the
  words of the field \<^verbatim>\<open>dependency_libs\<close> are directories to search (\<^verbatim>\<open>-L\<close>, \<^verbatim>\<open>-R\<close>) and libraries to open, the
  last one first. The function that opens a library by its name is an argument.
\<close>

definition is_blank :: "char \<Rightarrow> bool" where
  "is_blank c \<longleftrightarrow> c = CHR '' '' \<or> (9 \<le> (of_char c :: nat) \<and> (of_char c :: nat) \<le> 13)"

definition is_dir_flag :: "string \<Rightarrow> bool" where
  "is_dir_flag w \<longleftrightarrow> take 2 w = ''-L'' \<or> take 2 w = ''-R''"

text \<open>The first pass adds the directories and counts the libraries, \<open>None\<close> when a directory cannot be added.\<close>

function deplib_dirs :: "'k lt_os \<Rightarrow> string \<Rightarrow> nat \<Rightarrow> ('k, nat option) lt" where
  "deplib_dirs S [] n = retS (Some n)"
| "deplib_dirs S (c # cs) n =
     (if is_blank c then deplib_dirs S cs n
      else let w = c # takeWhile (\<lambda>c. \<not> is_blank c) cs; rest = dropWhile (\<lambda>c. \<not> is_blank c) cs in
        if is_dir_flag w then
          bindS (lt_dladdsearchdir S (Some (drop 2 w))) (\<lambda>e. if e \<noteq> 0 then retS None else deplib_dirs S rest n)
        else deplib_dirs S rest (Suc n))"
  by pat_completeness auto
termination
  by (relation "measure (\<lambda>(S, cs, n). length cs)") (auto simp: length_dropWhile_le less_Suc_eq_le)

text \<open>The second pass copies the names of the libraries; false when memory runs out.\<close>

function deplib_names :: "'k lt_os \<Rightarrow> string \<Rightarrow> ('k, bool \<times> string list) lt" where
  "deplib_names S [] = retS (True, [])"
| "deplib_names S (c # cs) =
     (if is_blank c then deplib_names S cs
      else let w = c # takeWhile (\<lambda>c. \<not> is_blank c) cs; rest = dropWhile (\<lambda>c. \<not> is_blank c) cs in
        if is_dir_flag w then deplib_names S rest
        else bindS (if take 2 w = ''-l'' then
              bindS (lt__malloc S) (\<lambda>p. retS (if p = None then None else Some (''lib'' @ drop 2 w)))
            else lt__strdup S w) (\<lambda>name. case name of
              None \<Rightarrow> retS (False, [])
            | Some nm \<Rightarrow> bindS (deplib_names S rest) (\<lambda>(b, ns). retS (b, nm # ns))))"
  by pat_completeness auto
termination
  by (relation "measure (\<lambda>(S, cs). length cs)") (auto simp: length_dropWhile_le less_Suc_eq_le)

declare deplib_dirs.simps [simp del] and deplib_names.simps [simp del]

fun open_deplibs :: "(string \<Rightarrow> ('k, nat option) lt) \<Rightarrow> string list \<Rightarrow> ('k, nat list) lt" where
  "open_deplibs opener [] = retS []"
| "open_deplibs opener (n # ns) =
     bindS (opener n) (\<lambda>h. bindS (open_deplibs opener ns) (\<lambda>hs. retS (case h of None \<Rightarrow> hs | Some r \<Rightarrow> r # hs)))"

definition deplibs_from ::
    "'k lt_os \<Rightarrow> (string \<Rightarrow> ('k, nat option) lt) \<Rightarrow> nat \<Rightarrow> string \<Rightarrow> ('k, int) lt" where
  "deplibs_from S opener handle p =
     bindS (deplib_dirs S p 0) (\<lambda>n. case n of
         None \<Rightarrow> retS 1
       | Some n \<Rightarrow> if n = 0 then retS 0
         else bindS (lt__malloc S) (\<lambda>m. if m = None then retS 1
           else bindS (deplib_names S p) (\<lambda>(b, names). if \<not> b then retS 1
             else bindS (lt__malloc S) (\<lambda>q. if q = None then retS 1
               else bindS (open_deplibs opener (rev names)) (\<lambda>ds.
                 andS (update_handle handle (\<lambda>x. x\<lparr>deplibs := ds, depcount := length ds\<rparr>)) (retS 0))))))"

definition load_deplibs_search ::
    "'k lt_os \<Rightarrow> (string \<Rightarrow> ('k, nat option) lt) \<Rightarrow> nat \<Rightarrow> string option \<Rightarrow> ('k, int) lt" where
  "load_deplibs_search S opener handle dl =
     andS (update_handle handle (\<lambda>x. x\<lparr>depcount := 0\<rparr>))
     (case dl of None \<Rightarrow> retS 0
      | Some p \<Rightarrow>
          bindS (asks user_search_path) (\<lambda>u. case u of
              None \<Rightarrow> deplibs_from S opener handle p
            | Some path \<Rightarrow> bindS (lt__strdup S path) (\<lambda>save. case save of
                None \<Rightarrow> retS 1
              | Some q \<Rightarrow> bindS (deplibs_from S opener handle p) (\<lambda>errors.
                  andS (set_user_path (Some q)) (retS errors)))))"

end
