(* ===== verification/Ltdl_Systems_Spec.thy ===== *)
theory Ltdl_Systems_Spec
  imports Ltdl_Dyld Ltdl_Deplibs Ltdl_Modules_Spec Ltdl_Path_Spec
begin

text \<open>
  What the loaders for other systems promise, and where they fail: the check of the Windows loader for
  modules that are open already, the images the Mac OS loader takes for a library, the references the
  HP-UX loader holds, the dependencies of a module.
\<close>

section \<open>Windows: modules that are open already\<close>

lemma iterate_all:
  assumes "interfaces s i = Some (nm, None)"
  shows "lt_dlhandle_iterate S V (Some i) None s = Inr (handles s, s)"
    and "hmem s r = Some x \<Longrightarrow> lt_dlhandle_iterate S V (Some i) (Some r) s = Inr (hnext x, s)"
  using assms
  by (cases "handles s"; cases "hnext x"; simp add: lt_dlhandle_iterate_def act_simps advance.simps interface_at_def)+

definition holds :: "'k ltdl \<Rightarrow> nat option \<Rightarrow> nat \<Rightarrow> bool" where
  "holds s module a \<longleftrightarrow> (\<exists>x. hmem s a = Some x \<and> hmodule x = module)"

lemma held_loop_run:
  assumes i: "interfaces s i = Some (nm, None)"
    and "chain (links (hmem s)) p bs" and "length bs \<le> n"
    and "\<forall>a \<in> set bs. \<exists>x. hmem s a = Some x \<and> hmodule x \<noteq> None"
    and "lt_dlhandle_iterate S V (Some i) cur s = Inr (p, s)"
  shows "held_loop n S V (Some i) module cur s = Inr (find (holds s module) bs, s)"
  using assms(2-)
proof (induction bs arbitrary: n p cur)
  case Nil
  then show ?case by (subst held_loop.simps) (simp add: act_simps)
next
  case (Cons a bs)
  then obtain x where x: "hmem s a = Some x" "hmodule x \<noteq> None" by auto
  obtain n' where n: "n = Suc n'" using Cons.prems(2) by (cases n) auto
  have p: "p = Some a" and c: "chain (links (hmem s)) (hnext x) bs"
    using Cons.prems(1) x(1) by (auto simp: links_Some)
  have "held_loop n' S V (Some i) module (Some a) s = Inr (find (holds s module) bs, s)"
    by (rule Cons.IH [OF c]) (use Cons.prems(2,3) n in \<open>auto simp: iterate_all(2) [OF i x(1)]\<close>)
  then show ?case using Cons.prems(4) x
    by (subst held_loop.simps) (auto simp: act_simps p n holds_def)
qed

text \<open>The calls around \<^verbatim>\<open>LoadLibrary\<close> put the error mode back.\<close>

definition load_with_mode :: "'k win_api \<Rightarrow> string \<Rightarrow> 'k \<Rightarrow> nat option \<times> 'k" where
  "load_with_mode W wpath k =
     (let (e, k1) = SetErrorMode W (SEM_FAILCRITICALERRORS W) k;
          k2 = snd (SetErrorMode W (or e (SEM_FAILCRITICALERRORS W)) k1);
          (module, k3) = LoadLibrary W wpath k2
      in (module, snd (SetErrorMode W e k3)))"

lemma quiet_load_run:
  "quiet_load W wpath s = Inr (fst (load_with_mode W wpath (plat s)), s\<lparr>plat := snd (load_with_mode W wpath (plat s))\<rparr>)"
  by (simp add: quiet_load_def load_with_mode_def act_simps sys_run Let_def case_prod_beta)

lemma find_holds: "find P xs \<noteq> None \<longleftrightarrow> (\<exists>a \<in> set xs. P a)"
  by (auto simp: find_None_iff)

lemma loadlibrary_open_run:
  assumes m: "mods al {} as s" and n: "length as \<le> rounds S"
    and i: "loadlibrary_iface (statics s) = Some i" "interfaces s i = Some (nm, None)"
    and path: "dotted (MAX_PATH W) f = Some wpath" and load: "load_with_mode W wpath (plat s) = (module, k)"
  shows "loadlibrary_vm_open S V W (Some f) s =
    (if module = None \<or> (\<exists>a \<in> set as. holds s module a)
     then Inr (None, s\<lparr>plat := k, last_error := Some (Table LT_ERROR_CANNOT_OPEN)\<rparr>)
     else Inr (module, s\<lparr>plat := k\<rparr>))"
proof -
  let ?s = "s\<lparr>plat := k\<rparr>"
  have c: "chain (links (hmem ?s)) (handles ?s) as"
    and mod: "\<forall>a \<in> set as. \<exists>x. hmem ?s a = Some x \<and> hmodule x \<noteq> None"
    using m by (fastforce simp: mods_def entry_ok_def loaded_def)+
  have "held_loop (rounds S) S V (Some i) module None ?s = Inr (find (holds ?s module) as, ?s)"
    by (rule held_loop_run [OF _ c n mod]) (use i in \<open>simp_all add: iterate_all(1)\<close>)
  moreover have "holds ?s module = holds s module" by (simp add: fun_eq_iff holds_def)
  ultimately show ?thesis
    using path load i(1) find_holds [of "holds s module" as]
    by (auto simp: loadlibrary_vm_open_def act_simps quiet_load_run)
qed

section \<open>Mac OS X: the images taken for a library\<close>

lemma match_loop_run:
  "case match_loop inst name n of
     None \<Rightarrow> \<forall>i < n. inst i = None \<or> inst i = Some name
   | Some i \<Rightarrow> i < n \<and> (\<exists>other. inst i = Some other \<and> other \<noteq> name) \<and>
       (\<forall>j. i < j \<and> j < n \<longrightarrow> inst j = None \<or> inst j = Some name)"
proof (induction n)
  case (Suc n)
  then show ?case
    by (auto simp: strneq_def less_Suc_eq split: option.splits)
qed simp

lemma header_loop_run:
  "case header_loop names modname n of
     None \<Rightarrow> \<forall>i < n. names i = modname
   | Some i \<Rightarrow> i < n \<and> names i \<noteq> modname \<and> (\<forall>j. i < j \<and> j < n \<longrightarrow> names j = modname)"
  by (induction n) (auto simp: strneq_def less_Suc_eq split: option.splits)

text \<open>A symbol that is not found leaves the last error pointing into the frame of the function.\<close>

lemma dyld_sym_dangles:
  assumes "m \<noteq> program_module" and "header_magic D m (plat s) \<noteq> LT_MAGIC D"
    and "NSLookupSymbolInModule D m name (plat s) = (None, k)" and "lt__image_symbol (statics s) = None"
  shows "\<exists>k'. dyld_vm_sym D (Some m) name s = Inr (None, s\<lparr>plat := k', last_error := Some Dangling\<rparr>)"
proof -
  obtain e k1 where e: "NSLinkEditError D k = (e, k1)" by fastforce
  then show ?thesis
    using assms by (intro exI [of _ k1])
      (auto simp: dyld_vm_sym_def act_simps sys_run dylderror_def lt__linkedlib_symbol_def split: option.splits)
qed

section \<open>HP-UX: references\<close>

text \<open>
  The documented behaviour of the calls, with \<open>cnt\<close> the number of times a library is loaded: loading an
  existing file adds one, unloading takes one away, looking a symbol up does neither.
\<close>

definition shl_counts :: "'k shl_api \<Rightarrow> ('k \<Rightarrow> nat \<Rightarrow> nat) \<Rightarrow> string \<Rightarrow> nat \<Rightarrow> bool" where
  "shl_counts H cnt f h \<longleftrightarrow>
     (\<forall>k. fst (shl_load H (Some f) k) = Some h \<and> cnt (snd (shl_load H (Some f) k)) h = Suc (cnt k h)) \<and>
     (\<forall>k. fst (shl_unload H (Some h) k) = 0 \<and> cnt (snd (shl_unload H (Some h) k)) h = cnt k h - 1) \<and>
     (\<forall>m n k. cnt (snd (shl_findsym H m n k)) h = cnt k h)"

lemma shl_open_close:
  assumes "shl_counts H cnt f h"
  shows "\<exists>s1. shl_vm_open H (Some f) s = Inr (Some h, s1) \<and> cnt (plat s1) h = cnt (plat s) h + 2 \<and>
    (\<exists>s2. shl_vm_close H (Some h) s1 = Inr (0, s2) \<and> cnt (plat s2) h = cnt (plat s) h + 1)"
  using assms
  by (cases "shl_self (statics s)")
    (simp_all add: shl_counts_def shl_vm_open_def shl_vm_close_def act_simps sys_run set_statics_def case_prod_beta)

text \<open>On BeOS no symbol has an address; on HP-UX a symbol that is not found is no error.\<close>

lemma add_on_sym_null:
  "\<exists>s'. add_on_vm_sym B module name s = Inr (None, s')"
  by (simp add: add_on_vm_sym_def act_simps sys_run case_prod_beta)

lemma shl_sym_silent:
  assumes "shl_findsym H (Some h) name (plat s) = ((r, h', None), k)" and "r \<noteq> 0"
  shows "shl_vm_sym H (Some h) name s = Inr (None, s\<lparr>plat := k\<rparr>)"
  using assms by (simp add: shl_vm_sym_def act_simps sys_run)

section \<open>Dependencies\<close>

fun word_list :: "nat \<Rightarrow> string \<Rightarrow> string list" where
  "word_list 0 s = []"
| "word_list (Suc n) s = (case dropWhile is_blank s of [] \<Rightarrow> []
     | t \<Rightarrow> takeWhile (\<lambda>c. \<not> is_blank c) t # word_list n (dropWhile (\<lambda>c. \<not> is_blank c) t))"

definition words_of :: "string \<Rightarrow> string list" where
  "words_of s = word_list (length s) s"

definition library_name :: "string \<Rightarrow> string" where
  "library_name w = (if take 2 w = ''-l'' then ''lib'' @ drop 2 w else w)"

definition libraries :: "string \<Rightarrow> string list" where
  "libraries s = map library_name (filter (\<lambda>w. \<not> is_dir_flag w) (words_of s))"

lemma word_list_blank: "is_blank c \<Longrightarrow> word_list n (c # s) = word_list n s"
  by (cases n) simp_all

lemma word_list_enough: "length s \<le> n \<Longrightarrow> length s \<le> m \<Longrightarrow> word_list n s = word_list m s"
proof (induction n arbitrary: m s)
  case (Suc n)
  show ?case
  proof (cases m)
    case 0
    with Suc.prems show ?thesis by simp
  next
    case (Suc m')
    show ?thesis
    proof (cases "dropWhile is_blank s")
      case Nil
      then show ?thesis by (simp add: Suc del: dropWhile_eq_Nil_conv)
    next
      case (Cons t ts)
      have "\<not> is_blank t" using Cons by (metis hd_dropWhile list.distinct(1) list.sel(1))
      moreover have "length (t # ts) \<le> length s" using Cons by (metis length_dropWhile_le)
      moreover have "length (dropWhile (\<lambda>c. \<not> is_blank c) ts) \<le> length ts" by (rule length_dropWhile_le)
      ultimately have "word_list n (dropWhile (\<lambda>c. \<not> is_blank c) ts) = word_list m' (dropWhile (\<lambda>c. \<not> is_blank c) ts)"
        using Suc.prems by (intro Suc.IH) (simp_all add: \<open>m = Suc m'\<close>)
      then show ?thesis using Cons \<open>\<not> is_blank t\<close> by (simp add: \<open>m = Suc m'\<close>)
    qed
  qed
next
  case 0
  then show ?case by (cases m) simp_all
qed

lemma words_of_Cons:
  "words_of [] = []"
  "is_blank c \<Longrightarrow> words_of (c # cs) = words_of cs"
  "\<not> is_blank c \<Longrightarrow> words_of (c # cs) =
    (c # takeWhile (\<lambda>c. \<not> is_blank c) cs) # words_of (dropWhile (\<lambda>c. \<not> is_blank c) cs)"
proof -
  show "words_of [] = []" by (simp add: words_of_def)
  show "is_blank c \<Longrightarrow> words_of (c # cs) = words_of cs"
    using word_list_enough [of cs "Suc (length cs)" "length cs"]
    by (simp add: words_of_def word_list_blank del: word_list.simps)
  let ?r = "dropWhile (\<lambda>c. \<not> is_blank c) cs"
  have "word_list (length cs) ?r = word_list (length ?r) ?r"
    by (rule word_list_enough) (simp_all add: length_dropWhile_le)
  then show "\<not> is_blank c \<Longrightarrow> words_of (c # cs) = (c # takeWhile (\<lambda>c. \<not> is_blank c) cs) # words_of ?r"
    by (simp add: words_of_def)
qed

lemma deplib_names_run:
  assumes "mem_ok S" and "EOS \<notin> set p"
  shows "\<exists>k. deplib_names S p s = Inr ((True, libraries p), s\<lparr>plat := k\<rparr>)"
  using assms
proof (induction S p arbitrary: s rule: deplib_names.induct)
  case (1 S)
  show ?case by (intro exI [of _ "plat s"]) (simp add: deplib_names.simps act_simps libraries_def words_of_Cons)
next
  case (2 S c cs)
  let ?w = "c # takeWhile (\<lambda>c. \<not> is_blank c) cs" and ?r = "dropWhile (\<lambda>c. \<not> is_blank c) cs"
  have e: "EOS \<notin> set ?w" "EOS \<notin> set ?r" "EOS \<notin> set cs"
    using 2(5) by (auto dest: set_takeWhileD set_dropWhileD)
  note run = malloc_run [OF 2(4)]
  show ?case
  proof (cases "is_blank c \<or> is_dir_flag ?w")
    case True
    then show ?thesis using 2(1) [OF _ 2(4) e(3)] 2(2) [OF _ refl refl _ 2(4) e(2)]
      by (auto simp: deplib_names.simps(2) libraries_def words_of_Cons Let_def)
  next
    case False
    then obtain k where "deplib_names S ?r (mem_step S s) = Inr ((True, libraries ?r), (mem_step S s)\<lparr>plat := k\<rparr>)"
      using 2(3) [OF _ refl refl _ 2(4) e(2)] by blast
    then show ?thesis using False e(1) run(5) [of ?w s]
      by (intro exI [of _ k])
        (simp add: deplib_names.simps(2) libraries_def words_of_Cons act_simps run(2) Let_def library_name_def mem_step_def)
  qed
qed

text \<open>
  Without \<^verbatim>\<open>-L\<close> and \<^verbatim>\<open>-R\<close> the first pass only counts, and the libraries are opened from the last to the first.
\<close>

lemma deplib_dirs_plain:
  assumes "\<forall>w \<in> set (words_of p). \<not> is_dir_flag w"
  shows "deplib_dirs S p n s = Inr (Some (n + length (words_of p)), s)"
  using assms
proof (induction S p n arbitrary: s rule: deplib_dirs.induct)
  case (1 S n)
  show ?case by (simp add: deplib_dirs.simps act_simps words_of_Cons)
next
  case (2 S c cs n)
  then show ?case by (cases "is_blank c") (simp_all add: deplib_dirs.simps(2) words_of_Cons Let_def)
qed

lemma deplibs_opened:
  assumes mem: "mem_ok S" and p: "EOS \<notin> set p" and plain: "\<forall>w \<in> set (words_of p). \<not> is_dir_flag w"
    and some: "words_of p \<noteq> []"
  shows "\<exists>k. deplibs_from S opener h p s =
    bindS (open_deplibs opener (rev (map library_name (words_of p)))) (\<lambda>ds.
      andS (update_handle h (\<lambda>x. x\<lparr>deplibs := ds, depcount := length ds\<rparr>)) (retS 0)) (s\<lparr>plat := k\<rparr>)"
proof -
  have names: "libraries p = map library_name (words_of p)" using plain by (simp add: libraries_def filter_id_conv)
  obtain k where "deplib_names S p (mem_step S s) = Inr ((True, libraries p), (mem_step S s)\<lparr>plat := k\<rparr>)"
    using deplib_names_run [OF mem p] by blast
  then show ?thesis
    using deplib_dirs_plain [OF plain, of S 0 s] some malloc_run(2) [OF mem]
    by (intro exI [of _ "plat (mem_step S ((mem_step S s)\<lparr>plat := k\<rparr>))"])
      (simp add: deplibs_from_def act_simps names mem_step_def)
qed

text \<open>
  The search path is the old one afterwards when there was one. A null search path is not put back: the
  directories of a \<^verbatim>\<open>-L\<close> or \<^verbatim>\<open>-R\<close> stay in it.
\<close>

lemma deplibs_path_restored:
  assumes mem: "mem_ok S" and u: "user_search_path s = Some q" and q: "EOS \<notin> set q"
    and run: "load_deplibs_search S opener h (Some p) s = Inr (e, s')"
  shows "user_search_path s' = Some q"
  using run u malloc_run(5) [OF mem q]
  by (auto simp: load_deplibs_search_def act_simps bindE_Inr set_user_path_def split: option.splits prod.splits)

end
