(* ===== verification/Systems_Properties.thy ===== *)
theory Systems_Properties
  imports Ltdl_Systems_Spec Ltdl_Demo
begin

text \<open>The properties of the loaders of libltdl for other systems, each at a small system of that kind.\<close>

section \<open>Windows\<close>

text \<open>
  C39. Opening a file with the Windows loader asks the system for the given path, with a dot behind it when
  it has none and with nothing asked when it is too long for the buffer; the error mode of the process is
  put back afterwards. The module of the system is refused, with an error, when an open handle holds it
  already; no handle is changed.
\<close>

theorem windows_open:
  assumes m: "mods al {} as s" and n: "length as \<le> rounds S"
    and i: "loadlibrary_iface (statics s) = Some i" "interfaces s i = Some (nm, None)"
    and load: "load_with_mode W wpath (plat s) = (module, k)"
    and wpath: "wpath = (if CHR ''.'' \<in> set f then f else f @ ''.'')"
  shows "loadlibrary_vm_open S V W (Some f) s =
    (if MAX_PATH W \<le> length wpath then Inr (None, s\<lparr>last_error := Some (Table LT_ERROR_CANNOT_OPEN)\<rparr>)
     else if module = None \<or> (\<exists>a \<in> set as. holds s module a)
     then Inr (None, s\<lparr>plat := k, last_error := Some (Table LT_ERROR_CANNOT_OPEN)\<rparr>)
     else Inr (module, s\<lparr>plat := k\<rparr>))"
proof (cases "MAX_PATH W \<le> length wpath")
  case True
  then have "dotted (MAX_PATH W) f = None" by (auto simp: dotted_def wpath split: if_splits)
  then show ?thesis using True by (simp add: loadlibrary_vm_open_def act_simps)
next
  case False
  then have "dotted (MAX_PATH W) f = Some wpath" by (auto simp: dotted_def wpath split: if_splits)
  from loadlibrary_open_run [OF m n i this load] show ?thesis using False by simp
qed

text \<open>A system with one library, whose state is the error mode; every load finds module 900.\<close>

definition demo_win :: "nat win_api" where
  "demo_win = \<lparr>MAX_PATH = 260, GetModuleFileName = (\<lambda>n k. (''a.exe'', k)),
     LoadLibrary = (\<lambda>p k. (if p = ''m.'' then Some 900 else None, k)), FreeLibrary = (\<lambda>m k. (True, k)),
     GetProcAddress = (\<lambda>m n k. (None, k)), SetErrorMode = (\<lambda>w k. (word_of_nat k, unat w)),
     SEM_FAILCRITICALERRORS = 1, FindFirstFile = (\<lambda>p k. ((None, []), k)), FindNextFile = (\<lambda>h k. (None, k)),
     FindClose = (\<lambda>h k. k)\<rparr>"

definition win_up :: "nat ltdl" where
  "win_up = demo_boot\<lparr>statics := zero_statics\<lparr>loadlibrary_iface := Some 7\<rparr>,
     interfaces := [7 \<mapsto> (''ltdl loadlibrary'', None)], plat := 2\<rparr>"

theorem windows_open_witness:
  "loadlibrary_vm_open demo_os no_code demo_win (Some ''m'') win_up = Inr (Some 900, win_up)"
proof -
  have m: "mods (\<lambda>_. {}) {} [] win_up" by (simp add: mods_def win_up_def demo_boot_def)
  have l: "load_with_mode demo_win ''m.'' (plat win_up) = (Some 900, 2)" by code_simp
  have f: "''m.'' = (if CHR ''.'' \<in> set ''m'' then ''m'' else ''m'' @ ''.'')" by simp
  have i: "loadlibrary_iface (statics win_up) = Some 7"
      "interfaces win_up 7 = Some (''ltdl loadlibrary'', None)" "MAX_PATH demo_win = 260" "win_up\<lparr>plat := 2\<rparr> = win_up"
    by (simp_all add: win_up_def demo_win_def)
  show ?thesis using windows_open [OF m _ i(1,2) l f, of demo_os no_code] i(3,4) by simp
qed

section \<open>Mac OS X\<close>

text \<open>Whether an image has an install name other than the given one.\<close>

definition instnam_differs :: "'k dyld_api \<Rightarrow> 'k \<Rightarrow> string \<Rightarrow> nat \<Rightarrow> bool" where
  "instnam_differs D k name i = (case lt__header_get_instnam D k (dyld_get_image_header D i k) of
     None \<Rightarrow> False | Some other \<Rightarrow> other \<noteq> name)"

text \<open>The last image before \<open>n\<close> with a property: the searches go through the images from the last one down.\<close>

definition last_image :: "nat \<Rightarrow> (nat \<Rightarrow> bool) \<Rightarrow> nat \<Rightarrow> bool" where
  "last_image n P i \<longleftrightarrow> i < n \<and> P i \<and> (\<forall>j. i < j \<and> j < n \<longrightarrow> \<not> P j)"

lemma match_loop_last:
  assumes "match_loop inst name n = Some i"
  shows "last_image n (\<lambda>i. case inst i of None \<Rightarrow> False | Some other \<Rightarrow> other \<noteq> name) i"
  using match_loop_run [where inst = inst and name = name and n = n] assms by (auto simp: last_image_def)

lemma header_loop_last:
  assumes "header_loop names modname n = Some i"
  shows "last_image n (\<lambda>i. names i \<noteq> modname) i"
  using header_loop_run [where names = names and modname = modname and n = n] assms by (auto simp: last_image_def)

text \<open>
  C40. The two searches of the Mac OS loader compare with the wrong macro: the image it takes for a library is
  the last one with an install name that is not the name of the library, and the header it takes for a
  module is that of the last image with another name; both give nothing only when no image has another
  name.
\<close>

theorem dyld_wrong_image:
  "(\<exists>r. lt__match_loadedlib D name s = Inr (r, s) \<and> (case r of
      None \<Rightarrow> \<forall>i. dyld_image_count D (plat s) \<le> i \<or> instnam_differs D (plat s) name i = False
    | Some h \<Rightarrow> \<exists>i. h = dyld_get_image_header D i (plat s) \<and>
        last_image (dyld_image_count D (plat s)) (instnam_differs D (plat s) name) i)) \<and>
   (\<exists>r. lt__nsmodule_get_header D m s = Inr (r, s) \<and> (case NSNameOfModule D m (plat s) of
      None \<Rightarrow> r = None
    | Some modname \<Rightarrow> (case r of
        None \<Rightarrow> \<forall>i. dyld_image_count D (plat s) \<le> i \<or> dyld_get_image_name D i (plat s) = modname
      | Some h \<Rightarrow> \<exists>i. h = dyld_get_image_header D i (plat s) \<and>
          last_image (dyld_image_count D (plat s)) (\<lambda>i. dyld_get_image_name D i (plat s) \<noteq> modname) i)))"
proof
  let ?inst = "\<lambda>i. lt__header_get_instnam D (plat s) (dyld_get_image_header D i (plat s))"
  let ?n = "dyld_image_count D (plat s)"
  have d: "instnam_differs D (plat s) name =
      (\<lambda>i. case ?inst i of None \<Rightarrow> False | Some other \<Rightarrow> other \<noteq> name)"
    by (simp add: fun_eq_iff instnam_differs_def)
  show "\<exists>r. lt__match_loadedlib D name s = Inr (r, s) \<and> (case r of
      None \<Rightarrow> \<forall>i. ?n \<le> i \<or> instnam_differs D (plat s) name i = False
    | Some h \<Rightarrow> \<exists>i. h = dyld_get_image_header D i (plat s) \<and> last_image ?n (instnam_differs D (plat s) name) i)"
  proof (cases "match_loop ?inst name ?n")
    case None
    then show ?thesis
      using match_loop_run [where inst = ?inst and name = name and n = ?n]
      by (force simp: lt__match_loadedlib_def act_simps Let_def instnam_differs_def not_less [symmetric]
          split: option.splits)
  next
    case (Some i)
    then show ?thesis using match_loop_last [OF Some]
      by (auto simp: lt__match_loadedlib_def act_simps Let_def d)
  qed
  show "\<exists>r. lt__nsmodule_get_header D m s = Inr (r, s) \<and> (case NSNameOfModule D m (plat s) of
      None \<Rightarrow> r = None
    | Some modname \<Rightarrow> (case r of
        None \<Rightarrow> \<forall>i. ?n \<le> i \<or> dyld_get_image_name D i (plat s) = modname
      | Some h \<Rightarrow> \<exists>i. h = dyld_get_image_header D i (plat s) \<and>
          last_image ?n (\<lambda>i. dyld_get_image_name D i (plat s) \<noteq> modname) i))"
  proof (cases "NSNameOfModule D m (plat s)")
    case (Some modname)
    show ?thesis
    proof (cases "header_loop (\<lambda>i. dyld_get_image_name D i (plat s)) modname ?n")
      case None
      then show ?thesis
        using Some header_loop_run [where names = "\<lambda>i. dyld_get_image_name D i (plat s)" and modname = modname
          and n = ?n]
        by (force simp: lt__nsmodule_get_header_def act_simps Let_def not_less [symmetric])
    next
      case found: (Some i)
      then show ?thesis using Some header_loop_last [OF found]
        by (auto simp: lt__nsmodule_get_header_def act_simps Let_def)
    qed
  qed (simp add: lt__nsmodule_get_header_def act_simps)
qed

end
