(* ===== verification/Spec2Isabelle.thy ===== *)
theory Spec2Isabelle
  imports Lingering Worker_Properties Rtcp_Properties Example_Properties Ltdl_Properties Systems_Properties
begin

text \<open>
  strManager is a C++ library that reflects UDP packets: an application registers sources (an
  address and a port) and, per source, destinations; every packet received from a source is sent on
  to its destinations. This development models the library of \<^verbatim>\<open>src/\<close> and \<^verbatim>\<open>include/libstrmanager/\<close>,
  the four programs of \<^verbatim>\<open>examples/\<close> and the loader library \<^verbatim>\<open>libltdl/\<close> that the repository contains, and
  proves their properties.

  The program. A \<^verbatim>\<open>Manager\<close> (\<^verbatim>\<open>src/Manager.cpp\<close>) owns a pool of \<^verbatim>\<open>Worker\<close> objects and two
  tables, \<^verbatim>\<open>srcIdWorker\<close> from source identifiers to workers and \<^verbatim>\<open>workerIdWorker\<close> from worker identifiers to
  workers. A \<^verbatim>\<open>Worker\<close> (\<^verbatim>\<open>src/workers/Worker.cpp\<close>) owns the listening sockets, one per port with a
  count of its users, a management table from identifiers to \<^verbatim>\<open>StreamList\<close> objects, and a forwarding
  table from addresses to identifiers; its thread selects on the sockets and calls the virtual
  \<^verbatim>\<open>process\<close>. \<^verbatim>\<open>ForwardWorker\<close>, \<^verbatim>\<open>StatsWorker\<close> and \<^verbatim>\<open>RtcpWorker\<close> redefine \<^verbatim>\<open>process\<close> and the operations
  on sources. A worker without table entries sends the message 100 through an interprocess queue
  and stops; the thread of the manager takes the worker out of \<^verbatim>\<open>workerIdWorker\<close>.

  The theories, in the order of the code's layers.
  \<^item> \<open>Prelude\<close>: outcomes with undefined behaviour (\<open>res\<close>), unordered maps as association lists
    including the insertion that \<^verbatim>\<open>operator[]\<close> performs, decimal printing.
  \<^item> \<open>Sockaddr\<close>, \<open>Messages\<close>, \<open>Streams\<close>: \<^verbatim>\<open>sockaddr_in\<close> with the comparison and hasher of \<^verbatim>\<open>Worker.h\<close>,
    \<^verbatim>\<open>Message\<close>, \<^verbatim>\<open>UdpStream\<close>, \<^verbatim>\<open>StreamList\<close> and \<^verbatim>\<open>StatsStreamList\<close>.
  \<^item> \<open>Platform\<close>: the system calls, the clock, the message queue, the contents of fresh memory and the
    iteration order of the hash tables, as functions over an opaque state; the documented behaviour
    of the descriptor calls (\<open>sockets_ok\<close>); one simulated platform for concrete runs.
  \<^item> \<open>Worker_Core\<close>: the state of a worker as a record and every function of \<^verbatim>\<open>Worker.cpp\<close>.
    \<open>Worker_Inv\<close>, \<open>Worker_Sockets\<close>, \<open>Worker_Ops\<close>: the invariant \<open>worker_ok\<close> and the abstract view
    \<open>worker_abs\<close>, a map from sources to their address and destinations. \<open>Worker_Contract\<close>: what the
    operations do to the view.
  \<^item> \<open>Packets\<close>, \<open>Stats\<close>, \<open>Rtcp\<close>: the three subclasses. \<open>Rtcp_Inv\<close>, \<open>Rtcp_Contract\<close>, \<open>Rtcp_Properties\<close>: an
    RTCP worker keeps sources, sockets and destinations in pairs (\<open>rtcp_ok\<close>) as long as RTP sources have
    even identifiers and ports.
  \<^item> \<open>Worker_Virtual\<close>: the dispatch over the class and the interface \<open>stream_worker\<close>, proved of
    \<^verbatim>\<open>ForwardWorker\<close>, \<^verbatim>\<open>StatsWorker\<close> and the dispatch. \<open>Worker_Loop\<close>: the select loop against the interface
    \<open>packet_processor\<close>. \<open>Traffic\<close>: the byte counter of a \<^verbatim>\<open>StatsWorker\<close> over time.
  \<^item> \<open>Manager\<close>, \<open>Manager_Inv\<close>, \<open>Manager_Contract\<close>: every function of \<^verbatim>\<open>Manager.cpp\<close>, its invariant, its
    contract. \<open>System\<close>: all threads and callers as one step relation, its reachable states and the
    abstract specification \<open>spec_event\<close> of every call that they refine.
    \<open>Lingering\<close>: the workers that a packet of an unknown sender keeps from ever being empty.
  \<^item> \<open>Demo_Runs\<close>: a concrete run; \<open>Worker_Properties\<close> and this theory: the properties.
  \<^item> \<open>Console\<close>, \<open>Examples\<close>: the command interpreter of the console and of the web service, the broadcast and
    zapping programs, the service methods. \<open>Console_Spec\<close>, \<open>Example_Spec\<close>, \<open>Example_Properties\<close>: what they
    make of the manager.

  The theories of libltdl. Its list of open modules, its list of loaders and its error state are
  static variables, one record \<open>ltdl\<close>; a function is an action on that record.
  \<^item> \<open>Slist\<close>, \<open>Argz\<close>: linked lists (\<^verbatim>\<open>slist.c\<close>), string vectors and bounded strings (\<^verbatim>\<open>argz.c\<close>,
    \<^verbatim>\<open>lt__strl.c\<close>); \<open>Slist_Spec\<close>, \<open>Argz_Spec\<close>: their views as lists and lists of strings.
  \<^item> \<open>Ltdl_State\<close>: actions, the record, errors (\<^verbatim>\<open>lt_error.c\<close>) and memory (\<^verbatim>\<open>lt__alloc.c\<close>). The functions of
    \<^verbatim>\<open>ltdl.c\<close>: \<open>Ltdl_Path\<close> (search paths), \<open>Ltdl_Archive\<close> (\<^verbatim>\<open>.la\<close> files), \<open>Ltdl_Handles\<close> (closing, symbols,
    iterators), \<open>Ltdl_Open\<close> (opening), \<open>Ltdl_Init\<close> (start and end). \<open>Ltdl_Loader\<close> (\<^verbatim>\<open>lt_dlloader.c\<close>),
    \<open>Ltdl_Backends\<close> (\<^verbatim>\<open>loaders/preopen.c\<close>, \<^verbatim>\<open>loaders/dlopen.c\<close>), \<open>Ltdl_Demo\<close>: a small concrete system.
  \<^item> \<open>Ltdl_Path_Spec\<close>, \<open>Ltdl_Files_Spec\<close>: search paths as lists of directories, sorted listings.
    \<open>Ltdl_Frame\<close>: triples \<open>{P} m {Q}\<close> over actions and the actions that leave the module list alone.
    \<open>Ltdl_Modules_Spec\<close>, \<open>Ltdl_Close_Spec\<close>, \<open>Ltdl_Calls_Spec\<close>: the form of the module list, kept by
    opening, by closing, and by every sequence of calls. \<open>Ltdl_Properties\<close>: the properties.
  \<^item> \<open>Ltdl_Systems\<close>, \<open>Ltdl_Dyld\<close>, \<open>Ltdl_Deplibs\<close>: what libltdl has for other systems, the loaders
    \<^verbatim>\<open>loaders/shl_load.c\<close>, \<^verbatim>\<open>dld_link.c\<close>, \<^verbatim>\<open>load_add_on.c\<close>, \<^verbatim>\<open>loadlibrary.c\<close>, \<^verbatim>\<open>dyld.c\<close>, the directory streams
    of \<^verbatim>\<open>lt__dirent.c\<close> and the \<^verbatim>\<open>load_deplibs\<close> that opens dependencies itself. The calls of each system are a
    record of functions. \<open>Ltdl_Systems_Spec\<close>, \<open>Systems_Properties\<close>: what they promise and where they fail.

  How it is modelled. Objects are records; objects behind shared pointers that the code aliases
  (the stream lists of a worker, the workers of a manager) live in a store and are named by
  references. A call that can run into undefined behaviour returns \<open>Inl\<close> with its kind. The lengths
  and byte counters are 32-bit words with the signed reading where the code has it; identifiers,
  ports and descriptors are integers. The loops \<^verbatim>\<open>while (working)\<close> of the threads end only by an
  event from outside, so \<open>run\<close>, \<open>generateStats\<close> and \<open>message_loop\<close> take a number of rounds and the
  theorems hold for every number. Each function of the code is one step: the mutex of a worker makes
  its public operations atomic against each other. The packet thread does not take that mutex, and the
  tables of the manager have none; the interleavings of \<open>System\<close> are those of whole calls, packets,
  rounds and messages.

  Assumptions. The theorems about more than one call assume \<open>platform_ok\<close>: new descriptors are not
  open before, \<^verbatim>\<open>close\<close> closes its argument and nothing else opens or closes one, fewer than 1024
  descriptors, a clock of 31 bits, and an iteration order that permutes the keys. Sources have
  a nonzero identifier that is not in use and a port below 65536, which the code does not check;
  the properties on identifier 0 and on missing identifiers say what happens otherwise. A receive may
  fail: the threads then read a sender that nothing has written, which is the value \<open>UninitRead\<close>. What
  the compiler makes of \<^verbatim>\<open>StatsStreamList::update\<close>, a \<^verbatim>\<open>bool\<close> function without a return, is a parameter of
  the platform (\<open>falls_through\<close>): either it comes back to its caller or it is undefined (\<open>MissingReturn\<close>).

  In libltdl memory comes from \<^verbatim>\<open>malloc\<close>, which may fail; the theorems on the module list assume that it never
  hands out an address twice, not even one that was freed (\<open>alloc_ok\<close>), the ones on paths and listings that it succeeds
  (\<open>mem_ok\<close>). The configuration is that of Linux. Loops along a chain of memory take \<open>rounds S\<close> rounds and
  then count as endless (\<open>OutOfFuel\<close>), and as many rounds as there are open modules are enough for the
  module list; loops over a string or a buffer take its length. \<open>closable\<close> asks that a resident module is
  closed only while its count of users is at least 1; \<^verbatim>\<open>lt_dlclose\<close> does not check it.

  Not modelled: log output, the destructors (no worker is ever deleted), and the vendored gSOAP
  runtime, of which only the calls made by the service are parameters. The loaders for other systems are
  modelled without Cygwin and PowerPC, and no table of \<open>Ltdl_Init\<close> names them. RTCP workers are modelled in full and have their own
  contract; the step relation of \<open>System\<close> starts no worker of that type, because the manager registers
  only the first source of a pair and a failed addition leaves open sockets that no source owns. The calls in \<open>lt_call\<close> leave out \<^verbatim>\<open>lt_dlexit\<close> and the functions that run
  callbacks of the program.
\<close>

section \<open>The library as a whole\<close>

text \<open>
  C1. In every state that any sequence of calls, packets, rounds and messages can reach, the manager's
  tables and its workers agree: an identifier is registered exactly when one worker holds a source
  of that name, no other worker holds one, no two workers share a descriptor, and every worker
  satisfies its invariant.
\<close>

theorem library_consistent:
  assumes "reachable E k0 M k" and "platform_ok E opn"
  shows "manager_ok opn M k \<and>
    (ifind (srcIdWorker M) i = Some q \<longleftrightarrow>
      (\<exists>r < next_worker M. q = Some r \<and> worker_abs (workers M r) i \<noteq> None)) \<and>
    (\<forall>r s. \<not> (r < next_worker M \<and> s < next_worker M \<and> r \<noteq> s) \<or>
      worker_fds (workers M r) \<inter> worker_fds (workers M s) = {})"
proof -
  note ok = reachable_ok [OF assms]
  note tab = manager_okD(2) [OF ok]
  have "ifind (srcIdWorker M) i = Some q \<longleftrightarrow>
      (\<exists>r < next_worker M. q = Some r \<and> worker_abs (workers M r) i \<noteq> None)"
    using tables_abs(1) [OF tab, of _ i] by (auto elim: tables_src [OF tab])
  then show ?thesis using ok pool_disjoint [OF manager_okD(1) [OF ok]] by blast
qed

theorem library_consistent_witness:
  "manager_ok sim_open demo_manager demo_state \<and>
   worker_fds fwd_worker \<inter> worker_fds stats_worker = {}"
  using library_consistent [OF demo_reachable sim_platform_ok]
  by (metis One_nat_def demo_tables(1) less_2_cases_iff zero_neq_one)

text \<open>
  C2. Each step of the library from a reachable state does to the map of sources what the specification of
  that very call states, and returns what it states: adding a source registers it without destinations and
  returns 0, or returns -1 and changes nothing; removing takes the source away; a destination is bound when
  its identifier is free and unbound; calls on a source that is missing return -1 and change nothing; no
  packet, round or message changes the map. The sources that are added have a free identifier other than
  0, a port from 0 to 65535 and no RTCP type.
\<close>

theorem library_refines:
  assumes "reachable E k0 M k" and "platform_ok E opn" and "lib_event E c n (M, k) (M', k')"
  shows "spec_event E k c n (manager_abs M) (manager_abs M')"
  using lib_event_law [OF assms(3) _ assms(2)] reachable_ok [OF assms(1,2)] by (simp add: simulates_def)

theorem library_refines_witness:
  "manager_abs (fst demo2) = [5 \<mapsto> (host 4000 1, [7 \<mapsto> host 5000 2])]"
proof -
  have r: "reachable sim_env demo_start (fst demo1) (snd demo1)"
    using demo_step1 by (simp add: reachable_def r_into_rtranclp)
  have "lib_event sim_env (CallAddDestination 5 7 ''2'' 5000) 0 (fst demo1, snd demo1) (fst demo2, snd demo2)"
    by (rule ev_add_dest [OF demo_run2])
  from library_refines [OF r sim_platform_ok this] show ?thesis
    by (simp add: demo_ok1 sim_source_addr [OF demo_hosts(2)])
qed

text \<open>
  C4. In a reachable state, so with sources of the forwarding and statistics types only, removing a source
  and adding and removing a destination return for every identifier, without undefined behaviour: 0 when the
  source exists and -1 when it does not. Adding a source returns 0 or -1 when its identifier is free and
  not 0, its port is from 0 to 65535 and its type is not the RTCP one; nothing is said of the other
  additions.
\<close>

theorem library_calls_return:
  assumes reach: "reachable E k0 M k" and p: "platform_ok E opn"
  shows "(\<exists>M' k'. Manager_removeSource E i M k = Inr (if manager_abs M i = None then -1 else 0, M', k')) \<and>
    (\<exists>M' k'. Manager_addDestination E i d ip port M k =
      Inr (if manager_abs M i = None then -1 else 0, M', k')) \<and>
    (\<exists>M' k'. Manager_removeDestination E i d M k =
      Inr (if manager_abs M i = None then -1 else 0, M', k')) \<and>
    (i = 0 \<or> manager_abs M i \<noteq> None \<or> \<not> valid_port port \<or> ty = RTCP_WORKER_TYPE \<or>
     (\<exists>M' k'. Manager_addSource E ty i ip port M k = Inr (0, M', k')) \<or>
     (\<exists>M' k'. Manager_addSource E ty i ip port M k = Inr (-1, M', k')))"
proof -
  note ok = reachable_ok [OF reach p]
  have add: "i = 0 \<or> manager_abs M i \<noteq> None \<or> \<not> valid_port port \<or> ty = RTCP_WORKER_TYPE \<or>
     (\<exists>M' k'. Manager_addSource E ty i ip port M k = Inr (0, M', k')) \<or>
     (\<exists>M' k'. Manager_addSource E ty i ip port M k = Inr (-1, M', k'))"
    using Manager_addSource_contract [OF ok p, of ty i port ip] unfolding ensures_Inr3
    by (metis (full_types))
  show ?thesis
  proof (cases "manager_abs M i")
    case None
    then show ?thesis using add Manager_missing_source [OF ok None] by simp
  next
    case (Some x)
    obtain a D where "x = (a, D)" by (cases x)
    with Some have src: "manager_abs M i = Some (a, D)" by simp
    have "\<exists>M' k'. Manager_removeSource E i M k = Inr (0, M', k')"
      using Manager_removeSource_contract [OF ok p src] unfolding ensures_Inr3 by blast
    moreover have "\<exists>M' k'. Manager_addDestination E i d ip port M k = Inr (0, M', k')"
      using Manager_addDestination_contract [OF ok p src] unfolding ensures_Inr3 by blast
    moreover have "\<exists>M' k'. Manager_removeDestination E i d M k = Inr (0, M', k')"
      using Manager_removeDestination_contract [OF ok p src] unfolding ensures_Inr3 by blast
    ultimately show ?thesis using src by simp
  qed
qed

theorem library_calls_return_witness:
  "\<exists>M' k'. Manager_removeDestination sim_env 5 99 demo_manager demo_state = Inr (0, M', k')"
  using library_calls_return [OF demo_reachable sim_platform_ok, of 5 99] by (simp add: demo_ok(2))

section \<open>Packets\<close>

text \<open>
  C3. A packet that a forwarding worker receives on a port from the address of one of its sources is sent
  to exactly the destinations registered for that source, once each, with the received bytes and
  length, and the source's time stamp is renewed; the sources stay as they are. When the receive has
  failed, its result -1 is taken for a length and the sender is read although nothing has written it.
\<close>

theorem packet_forwarded:
  assumes reach: "reachable E k0 M k" and p: "platform_ok E opn"
    and r: "r < next_worker M" and cls: "wclass (workers M r) = ForwardClass"
    and fd: "ifind (portFd (workers M r)) port = Some fd"
    and recv: "sys_recvfrom E fd k = ((ret, buf, sender), k1)" and len: "word_of_int ret \<noteq> (0 :: 32 word)"
    and own: "ifind (srcIdWorker M) j = Some (Some r)" and src: "manager_abs M j = Some (a, D)"
    and key: "sock_addr_cmp a (packet_key sender port)"
  shows "if ret < 0 then process_of E (wclass (workers M r)) fd (workers M r) k = Inl UninitRead
    else \<exists>w' k'. process_of E (wclass (workers M r)) fd (workers M r) k = Inr (w', k') \<and>
      delivers E fd buf (word_of_int ret) D (snd (sys_time E k1)) k' \<and>
      readTimeStamp j w' = Inr (Some (fst (sys_time E k1)), w') \<and>
      manager_abs (set_worker r w' M) = manager_abs M"
proof (cases "ret < 0")
  case True
  then show ?thesis by (simp add: cls process_of_def process_failed [OF recv _ len])
next
  case False
  then have got: "0 \<le> ret" by simp
  note ok = reachable_ok [OF reach p]
  have mem: "worker_ok (workers M r)" "worker_good (workers M r)" "fds_open opn (workers M r) k"
    using pool_member [OF manager_okD(1) [OF ok] r] by (simp_all add: member_ok_def worker_good_def)
  have view: "worker_abs (workers M r) j = Some (a, D)" using src own by (simp add: manager_abs_def)
  from forward_hit [OF mem(1) platform_okD(1) [OF p] mem(3) fd recv len got view key]
  obtain w' k' where run: "process_forward E fd (workers M r) k = Inr (w', k')" "worker_ok w'"
      "op_frame opn (workers M r) k w' k'" "worker_abs w' = worker_abs (workers M r)"
      "delivers E fd buf (word_of_int ret) D (snd (sys_time E k1)) k'"
      "\<exists>s u. source_entry w' j s u \<and> timeStamp (store w' s) = Some (fst (sys_time E k1))"
    unfolding ensures_Inr2 by blast
  have "worker_good w'" using run cls by (intro worker_goodI [OF run(3)]) simp_all
  then have "manager_abs (set_worker r w' M) = manager_abs M"
    by (rule manager_same_view(2) [OF ok r _ run(3,4)])
  moreover have "readTimeStamp j w' = Inr (Some (fst (sys_time E k1)), w')"
    using run(6) by (auto simp: readTimeStamp_def source_entry_def getStreamList_live getTimeStamp_def)
  ultimately show ?thesis using run(1,5) False by (simp add: cls process_of_def)
qed

theorem packet_forwarded_witness:
  "\<exists>w' k'. process_of sim_env (wclass fwd_worker) 3 fwd_worker demo_state = Inr (w', k') \<and>
     readTimeStamp 5 w' = Inr (Some 1000, w')"
proof -
  have key: "sock_addr_cmp (host 4000 1) (packet_key (host 9999 1) 4000)"
    using packet_key_host [of 4000 1 9999 1] by simp
  have "fst (sys_time sim_env k) = 1000" if "sim_clock k = 1000" for k
    using that by (simp add: sim_env_def)
  moreover have "sim_clock demo_state = 1000" by code_simp
  moreover have "ifind (srcIdWorker demo_manager) 5 = Some (Some 0)" by (rule demo_tables(2))
  ultimately show ?thesis
    using packet_forwarded [OF demo_reachable sim_platform_ok _ demo_tables(4,6) demo_receive(1) _ _ _ key]
    by (fastforce simp: demo_tables(1) demo_ok(2))
qed

text \<open>
  C7. A packet whose sender no source of the worker is registered for is sent nowhere: the platform is
  left as the receive call left it, no stream list changes, and the sources stay as they are. A failed
  receive is taken for a packet, and its sender is read although nothing has written it.
\<close>

theorem packet_dropped:
  assumes reach: "reachable E k0 M k" and p: "platform_ok E opn"
    and r: "r < next_worker M" and cls: "wclass (workers M r) = ForwardClass \<or> wclass (workers M r) = StatsClass"
    and fd: "ifind (portFd (workers M r)) port = Some fd"
    and recv: "sys_recvfrom E fd k = ((ret, buf, sender), k1)"
    and none: "\<not> has_source (worker_abs (workers M r)) (packet_key sender port)"
  shows "if ret < 0 \<and> word_of_int ret \<noteq> (0 :: 32 word)
    then process_of E (wclass (workers M r)) fd (workers M r) k = Inl UninitRead
    else \<exists>w'. process_of E (wclass (workers M r)) fd (workers M r) k = Inr (w', k1) \<and>
      store w' = store (workers M r) \<and> worker_abs w' = worker_abs (workers M r)"
proof (cases "ret < 0 \<and> word_of_int ret \<noteq> (0 :: 32 word)")
  case True
  then show ?thesis using cls by (auto simp: process_of_def process_failed [OF recv])
next
  case False
  then have got: "0 \<le> ret \<or> word_of_int ret = (0 :: 32 word)" by auto
  have mem: "worker_good (workers M r)" "fds_open opn (workers M r) k"
    using pool_member [OF manager_okD(1) [OF reachable_ok [OF reach p]] r] by (simp_all add: member_ok_def)
  show ?thesis
    unfolding if_not_P [OF False] by (rule stranger_run [OF mem(1) p mem(2) cls fd recv got none]) blast
qed

theorem packet_dropped_witness:
  "\<exists>w'. process_of sim_env (wclass (workers (fst demo5) 0)) 3 (workers (fst demo5) 0) (snd demo5) =
      Inr (w', (snd demo5)\<lparr>sim_in := [(4, [40, 50], host 9998 1)]\<rparr>)"
proof -
  have "\<not> has_source (worker_abs (workers (fst demo5) 0)) (packet_key (host 9997 9) 4000)"
    using packet_key_host [of 4000 1 9997 9] by (auto simp: has_source_def demo_view5 split: if_splits)
  from packet_dropped [OF demo_reachable5 sim_platform_ok _ disjI1 [OF demo_inside5(2)] demo_inside5(3,4) this]
  show ?thesis by (auto simp: demo_inside5(1))
qed

text \<open>
  C8. A packet of an unknown sender keeps its worker alive: the lookup of the sender enters a null
  pointer under the identifier 0 into the management table, and as long as the application adds no source
  with the identifier 0, which would take its place, no call removes it. The worker is then never empty
  again: whatever other calls the application makes, removing every source included, the thread of the
  worker is never told to stop.
\<close>

theorem stranger_keeps_worker:
  assumes reach: "reachable E k0 M k" and p: "platform_ok E opn"
    and r: "r < next_worker M" and cls: "wclass (workers M r) = ForwardClass \<or> wclass (workers M r) = StatsClass"
    and live: "working (workers M r)" and fd: "ifind (portFd (workers M r)) port = Some fd"
    and recv: "sys_recvfrom E fd k = ((ret, buf, sender), k1)" and len: "word_of_int ret \<noteq> (0 :: 32 word)"
    and got: "0 \<le> ret" and none: "\<not> has_source (worker_abs (workers M r)) (packet_key sender port)"
  shows "\<exists>w'. process_of E (wclass (workers M r)) fd (workers M r) k = Inr (w', k1) \<and>
    (\<forall>M' k'. (lib_step E)\<^sup>*\<^sup>* (set_worker r w' M, k1) (M', k') \<longrightarrow>
       working (workers M' r) \<and> \<not> isEmpty (workers M' r))"
proof -
  have mem: "worker_good (workers M r)" "fds_open opn (workers M r) k"
    using pool_member [OF manager_okD(1) [OF reachable_ok [OF reach p]] r] by (simp_all add: member_ok_def)
  obtain w' where run: "process_of E (wclass (workers M r)) fd (workers M r) k = Inr (w', k1)"
      and w': "working w' = working (workers M r)"
    by (rule stranger_run [OF mem(1) p mem(2) cls fd recv disjI1 [OF got] none])
  have "lingers w'" by (rule stranger_lingers [OF mem(1) p mem(2) fd recv len got none cls run])
  moreover have "reachable E k0 (set_worker r w' M) k1" by (rule reachable_packet [OF reach r live fd run])
  ultimately have "working (workers M' r) \<and> \<not> isEmpty (workers M' r)"
    if "(lib_step E)\<^sup>*\<^sup>* (set_worker r w' M, k1) (M', k')" for M' k'
    using lingers_forever [OF _ p that, of k0 r] r w' live lingers_not_empty by (simp add: set_worker_def)
  then show ?thesis using run by blast
qed

definition demo6 :: "manager \<times> sim" where
  "demo6 = (case demo5 of (M, k) \<Rightarrow>
     case run_or (workers M 0, k) (process_of sim_env (wclass (workers M 0)) 3 (workers M 0) k) of
       (w, k') \<Rightarrow> (set_worker 0 w M, k'))"

definition demo7 :: "manager \<times> sim" where
  "demo7 = demo_step (case demo6 of (M, k) \<Rightarrow> Manager_removeSource sim_env 5 M k)"

text \<open>The stranger of the run, then the only source of the worker is removed.\<close>

theorem stranger_keeps_worker_witness:
  "Manager_removeSource sim_env 5 (fst demo6) (snd demo6) = Inr (0, fst demo7, snd demo7) \<and>
     srcIdWorker (fst demo7) = [(6, Some 1)] \<and>
     working (workers (fst demo7) 0) \<and> \<not> isEmpty (workers (fst demo7) 0)"
proof -
  have none: "\<not> has_source (worker_abs (workers (fst demo5) 0)) (packet_key (host 9997 9) 4000)"
    using packet_key_host [of 4000 1 9997 9] by (auto simp: has_source_def demo_view5 split: if_splits)
  have live: "working (workers (fst demo5) 0)" by code_simp
  have one: "word_of_int 1 \<noteq> (0 :: 32 word)" by simp
  obtain w k1 where run: "process_of sim_env (wclass (workers (fst demo5) 0)) 3 (workers (fst demo5) 0) (snd demo5) =
      Inr (w, k1)" and stay: "\<And>M' k'. (lib_step sim_env)\<^sup>*\<^sup>* (set_worker 0 w (fst demo5), k1) (M', k') \<Longrightarrow>
        working (workers M' 0) \<and> \<not> isEmpty (workers M' 0)"
    using stranger_keeps_worker [OF demo_reachable5 sim_platform_ok _ disjI1 [OF demo_inside5(2)] live
      demo_inside5(3,4) one _ none] by (auto simp: demo_inside5(1))
  have demo6: "demo6 = (set_worker 0 w (fst demo5), k1)" by (simp add: demo6_def run case_prod_beta)
  have "returns 0 (case demo6 of (M, k) \<Rightarrow> Manager_removeSource sim_env 5 M k)" by code_simp
  from demo_step_run [OF this]
  have remove: "Manager_removeSource sim_env 5 (fst demo6) (snd demo6) = Inr (0, fst demo7, snd demo7)"
    by (simp add: demo7_def case_prod_beta)
  have "lib_step sim_env (fst demo6, snd demo6) (fst demo7, snd demo7)" by (rule step_remove [OF remove])
  then have "working (workers (fst demo7) 0) \<and> \<not> isEmpty (workers (fst demo7) 0)"
    using stay [of "fst demo7" "snd demo7"] by (simp add: demo6 r_into_rtranclp)
  moreover have "srcIdWorker (fst demo7) = [(6, Some 1)]" by code_simp
  ultimately show ?thesis using remove by simp
qed

section \<open>The public operations\<close>

text \<open>
  C5. Adding a source through the manager: on success exactly that source is added, without
  destinations, and it lives in a worker of the requested type that listens on its port; on failure
  the sources are unchanged. A type the manager does not know always fails.
\<close>

theorem manager_adds_source:
  assumes reach: "reachable E k0 M k" and p: "platform_ok E opn" and ty: "ty \<noteq> RTCP_WORKER_TYPE"
    and new: "i \<noteq> 0" "manager_abs M i = None" and port: "valid_port port"
  shows "\<exists>ret M' k'. Manager_addSource E ty i ip port M k = Inr (ret, M', k') \<and> manager_ok opn M' k' \<and>
    (if ret = 0
     then manager_abs M' = (manager_abs M)(i \<mapsto> (source_addr E ip port k, Map.empty)) \<and>
       (\<exists>r. ifind (srcIdWorker M') i = Some (Some r) \<and> worker_type (workers M' r) = ty \<and>
            hasPort port (workers M' r))
     else ret = -1 \<and> manager_abs M' = manager_abs M)"
  using Manager_addSource_contract [OF reachable_ok [OF reach p] p ty new port]
  unfolding ensures_Inr3 by blast

theorem manager_adds_source_witness:
  "\<exists>ret M' k'. Manager_addSource sim_env FWD_WORKER_TYPE 9 ''2'' 4000 demo_manager demo_state = Inr (ret, M', k') \<and>
     (ret = 0 \<or> manager_abs M' = manager_abs demo_manager)"
  using manager_adds_source [OF demo_reachable sim_platform_ok demo_types(1) _ _ demo_ports(1), of 9 "''2''"]
  by (auto simp: demo_ok(2) split: if_splits)

text \<open>
  C11. Removing a source through the manager removes exactly that source; the workers' table keeps its
  entry until the worker's message is handled.
\<close>

theorem manager_removes_source:
  assumes reach: "reachable E k0 M k" and p: "platform_ok E opn" and src: "manager_abs M i = Some x"
  shows "\<exists>M' k'. Manager_removeSource E i M k = Inr (0, M', k') \<and> manager_ok opn M' k' \<and>
    manager_abs M' = (manager_abs M)(i := None) \<and> workerIdWorker M' = workerIdWorker M"
proof -
  obtain a D where "manager_abs M i = Some (a, D)" using src by (cases x) simp
  from Manager_removeSource_contract [OF reachable_ok [OF reach p] p this] show ?thesis
    unfolding ensures_Inr3 by blast
qed

theorem manager_removes_source_witness:
  "\<exists>M' k'. Manager_removeSource sim_env 6 demo_manager demo_state = Inr (0, M', k') \<and>
     manager_abs M' 6 = None \<and> manager_abs M' 5 \<noteq> None"
proof -
  have "manager_abs demo_manager 6 = Some (host 4001 1, [8 \<mapsto> host 6000 3])" by (simp add: demo_ok(2))
  from manager_removes_source [OF demo_reachable sim_platform_ok this] show ?thesis
    by (auto simp: demo_ok(2))
qed

text \<open>
  C12. Destinations through the manager: adding binds a free identifier of that source to the given
  address and leaves a bound one alone, removing unbinds it; no other source is touched, and both
  return 0.
\<close>

theorem manager_destinations:
  assumes reach: "reachable E k0 M k" and p: "platform_ok E opn" and src: "manager_abs M i = Some (a, D)"
  shows "\<exists>M1 M2. Manager_addDestination E i d ip port M k = Inr (0, M1, k) \<and>
    manager_abs M1 = (manager_abs M)(i \<mapsto>
      (a, if D d = None then D(d \<mapsto> source_addr E ip port k) else D)) \<and>
    Manager_removeDestination E i d M k = Inr (0, M2, k) \<and>
    manager_abs M2 = (manager_abs M)(i \<mapsto> (a, D(d := None)))"
  using Manager_addDestination_contract [OF reachable_ok [OF reach p] p src, of d ip port]
    Manager_removeDestination_contract [OF reachable_ok [OF reach p] p src, of d]
  unfolding ensures_Inr3 by auto

theorem manager_destinations_witness:
  "\<exists>M1. Manager_addDestination sim_env 5 12 ''3'' 700 demo_manager demo_state = Inr (0, M1, demo_state) \<and>
     manager_abs M1 5 = Some (host 4000 1, [7 \<mapsto> host 5000 2, 12 \<mapsto> host 700 3])"
proof -
  have "manager_abs demo_manager 5 = Some (host 4000 1, [7 \<mapsto> host 5000 2])" by (simp add: demo_ok(2))
  from manager_destinations [OF demo_reachable sim_platform_ok this, of 12 "''3''" 700] show ?thesis
    by (auto simp: sim_source_addr [OF demo_hosts(3)])
qed

section \<open>Stopped workers\<close>

text \<open>
  C16. A worker that has stopped never works again: no step of the library restarts its thread, and its
  object stays in the pool.
\<close>

theorem stopped_forever:
  assumes reach: "reachable E k0 M k" and p: "platform_ok E opn"
    and steps: "(lib_step E)\<^sup>*\<^sup>* (M, k) (M', k')"
    and r: "r < next_worker M" and stop: "\<not> working (workers M r)"
  shows "r < next_worker M' \<and> \<not> working (workers M' r)"
proof -
  have "(lib_step E)\<^sup>*\<^sup>* s t \<Longrightarrow> manager_ok opn (fst s) (snd s) \<Longrightarrow>
      manager_ok opn (fst t) (snd t) \<and> fades (fst s) (fst t)" for s t
  proof (induction rule: rtranclp_induct)
    case (step t u)
    then show ?case
      using lib_step_law [OF step.hyps(2) _ p] fades_trans by blast
  qed (simp add: fades_refl)
  from this [OF steps] reachable_ok [OF reach p] have "fades M M'" by simp
  then show ?thesis using r stop by (auto simp: fades_def)
qed

definition lost1 :: "manager \<times> sim" where
  "lost1 = (case demo1 of (M, k) \<Rightarrow> demo_step (Manager_removeSource sim_env 5 M k))"
definition lost2 :: "manager \<times> sim" where
  "lost2 = (case lost1 of (M, k) \<Rightarrow> demo_step (Manager_addSource sim_env FWD_WORKER_TYPE 6 ''1'' 4002 M k))"
definition lost3 :: "manager \<times> sim" where
  "lost3 = (case lost2 of (M, k) \<Rightarrow>
     case mq_receive sim_env k of (None, k') \<Rightarrow> (M, k') | (Some m, k') \<Rightarrow> (handle_message m M, k'))"

lemma lost_steps: "lib_step sim_env demo1 lost1" "lib_step sim_env lost1 lost2"
proof -
  have "returns 0 (case demo1 of (M, k) \<Rightarrow> Manager_removeSource sim_env 5 M k)" by code_simp
  from demo_step_run [OF this]
  have run1: "Manager_removeSource sim_env 5 (fst demo1) (snd demo1) = Inr (0, fst lost1, snd lost1)"
    by (simp add: lost1_def case_prod_beta)
  from step_remove [OF this] show "lib_step sim_env demo1 lost1" by simp
  have src: "manager_abs (fst demo1) 5 = Some (host 4000 1, Map.empty)" by (simp add: demo_ok1(2))
  have abs: "manager_abs (fst lost1) = Map.empty"
    using ensuresD [OF Manager_removeSource_contract [OF demo_ok1(1) sim_platform_ok src] run1]
    by (simp del: prod.collapse add: demo_ok1(2))
  have "returns 0 (case lost1 of (M, k) \<Rightarrow> Manager_addSource sim_env FWD_WORKER_TYPE 6 ''1'' 4002 M k)"
    by code_simp
  from demo_step_run [OF this]
  have run2: "Manager_addSource sim_env FWD_WORKER_TYPE 6 ''1'' 4002 (fst lost1) (snd lost1) =
      Inr (0, fst lost2, snd lost2)"
    by (simp add: lost2_def case_prod_beta)
  have "lib_step sim_env (fst lost1, snd lost1) (fst lost2, snd lost2)"
    by (rule step_add [OF _ _ demo_ports(3) demo_types(1) run2]) (simp_all add: abs)
  then show "lib_step sim_env lost1 lost2" by simp
qed

lemma lost_reachable: "reachable sim_env demo_start (fst lost2) (snd lost2)"
proof -
  have "(lib_step sim_env)\<^sup>*\<^sup>* (Manager_new, demo_start) demo1"
    using demo_step1 by (rule r_into_rtranclp)
  also have "lib_step sim_env demo1 lost1" by (rule lost_steps(1))
  also have "lib_step sim_env lost1 lost2" by (rule lost_steps(2))
  finally show ?thesis by (simp add: reachable_def)
qed

lemma lost_inside:
  "0 < next_worker (fst lost2)" "\<not> working (workers (fst lost2) 0)"
  "ifind (srcIdWorker (fst lost2)) 6 = Some (Some 0)"
  "map_option (\<lambda>_. ()) (manager_abs (fst lost2) 6) = Some ()"
  by code_simp+

theorem stopped_forever_witness:
  "\<not> working (workers (fst lost2) 0)"
  using stopped_forever [OF lost_reachable sim_platform_ok rtranclp.rtrancl_refl lost_inside(1,2)] by simp

text \<open>
  C9. A source can be lost: when the last source of a worker is removed and a new one is added before
  the manager handles the worker's message, the call succeeds and the source is registered in the stopped
  worker, whose thread no packet reaches; the message then takes that worker out of the table of
  workers while the source still points to it.
\<close>

theorem source_lost_in_stopped_worker:
  "\<exists>M k r. reachable sim_env demo_start M k \<and> manager_abs M 6 \<noteq> None \<and>
     ifind (srcIdWorker M) 6 = Some (Some r) \<and> r < next_worker M \<and> \<not> working (workers M r) \<and>
     (\<forall>n k'. run n sim_env (process_forward sim_env) (workers M r) k' = Inr (workers M r, k')) \<and>
     (case mq_receive sim_env k of (None, _) \<Rightarrow> False
      | (Some m, _) \<Rightarrow> workerIdWorker (handle_message m M) = [])"
proof -
  have idle: "run n sim_env (process_forward sim_env) (workers (fst lost2) 0) k' =
      Inr (workers (fst lost2) 0, k')" for n k'
    using lost_inside(2) by (cases n) simp_all
  have "case mq_receive sim_env (snd lost2) of (None, _) \<Rightarrow> False
      | (Some m, _) \<Rightarrow> workerIdWorker (handle_message m (fst lost2)) = []"
    by code_simp
  then show ?thesis
    using lost_reachable lost_inside idle by (intro exI [of _ "fst lost2"] exI [of _ "snd lost2"] exI [of _ 0]) auto
qed

end
